(* ===== verification/Prelude.thy ===== *)
theory Prelude
  imports Main "HOL-Library.Word"
begin

text \<open>
  Shared vocabulary of the ElDorito model: fixed-width integers, the faults a C++ routine can end
  in, the result type that carries them, C strings and character classes of the C locale, and the
  generic list and map lemmas the component theories use.
\<close>

unbundle bit_operations_syntax

subsection \<open>Integers and results\<close>

type_synonym u8 = "8 word"
type_synonym u16 = "16 word"
type_synonym u32 = "32 word"
type_synonym u64 = "64 word"

lemma unat_u32_less: "unat (w::u32) < 4294967296"
proof -
  have "unat w < 2 ^ LENGTH(32)" by (rule unsigned_less)
  then show ?thesis by simp
qed

lemma unat_u64_less: "unat (w::u64) < 18446744073709551616"
proof -
  have "unat w < 2 ^ LENGTH(64)" by (rule unsigned_less)
  then show ?thesis by simp
qed

text \<open>How a routine can fail: the standard exceptions the program's callers catch (or forget to
  catch), an exception of the program's own, undefined behaviour of C++ (an access outside an array
  or a string), and a call the runtime terminates (the checked string functions of the Microsoft
  runtime).\<close>

datatype fault =
    OutOfRange
  | InvalidArgument
  | RuntimeError string
  | Undefined
  | Terminated

type_synonym 'a res = "fault + 'a"

definition rbind :: "'a res \<Rightarrow> ('a \<Rightarrow> 'b res) \<Rightarrow> 'b res" where
  "rbind m f = (case m of Inl e \<Rightarrow> Inl e | Inr x \<Rightarrow> f x)"

lemma rbind_simps [simp]:
  "rbind (Inl e) f = Inl e"
  "rbind (Inr x) f = f x"
  by (simp_all add: rbind_def)

lemma rbind_Inr_iff:
  "rbind m f = Inr y \<longleftrightarrow> (\<exists>x. m = Inr x \<and> f x = Inr y)"
  by (cases m) simp_all

definition is_ok :: "'a res \<Rightarrow> bool" where
  "is_ok m = (case m of Inl _ \<Rightarrow> False | Inr _ \<Rightarrow> True)"

lemma is_ok_simps [simp]: "\<not> is_ok (Inl e)" "is_ok (Inr x)"
  by (simp_all add: is_ok_def)

lemma is_okE: "is_ok m \<Longrightarrow> (\<And>x. m = Inr x \<Longrightarrow> P) \<Longrightarrow> P"
  by (cases m) simp_all

subsection \<open>Characters and C strings\<close>

definition NUL :: char where "NUL = CHR 0x00"

text \<open>The text of a character array: everything before the first NUL.\<close>

definition c_str :: "string \<Rightarrow> string" where
  "c_str s = takeWhile (\<lambda>c. c \<noteq> NUL) s"

definition ord_of :: "char \<Rightarrow> nat" where
  "ord_of c = of_char c"

definition isdigit :: "char \<Rightarrow> bool" where
  "isdigit c \<longleftrightarrow> 48 \<le> ord_of c \<and> ord_of c \<le> 57"

definition isupper :: "char \<Rightarrow> bool" where
  "isupper c \<longleftrightarrow> 65 \<le> ord_of c \<and> ord_of c \<le> 90"

definition islower :: "char \<Rightarrow> bool" where
  "islower c \<longleftrightarrow> 97 \<le> ord_of c \<and> ord_of c \<le> 122"

definition isalnum :: "char \<Rightarrow> bool" where
  "isalnum c \<longleftrightarrow> isdigit c \<or> isupper c \<or> islower c"

definition isspace :: "char \<Rightarrow> bool" where
  "isspace c \<longleftrightarrow> ord_of c = 32 \<or> (9 \<le> ord_of c \<and> ord_of c \<le> 13)"

definition tolower :: "char \<Rightarrow> char" where
  "tolower c = (if isupper c then char_of (ord_of c + 32) else c)"

definition toupper :: "char \<Rightarrow> char" where
  "toupper c = (if islower c then char_of (ord_of c - 32) else c)"

lemma ord_of_less: "ord_of c < 256"
  by (simp add: ord_of_def)

lemma char_of_ord_of [simp]: "char_of (ord_of c) = c"
  by (simp add: ord_of_def)

lemma ord_of_char_of: "n < 256 \<Longrightarrow> ord_of (char_of n) = n"
  by (simp add: ord_of_def)

lemma ord_of_eq_iff: "ord_of c = ord_of d \<longleftrightarrow> c = d"
  by (metis char_of_ord_of)

lemma char_of_eq_ord: "n < 256 \<Longrightarrow> char_of n = c \<longleftrightarrow> ord_of c = n"
  by (metis char_of_ord_of ord_of_char_of)

lemma tolower_idem [simp]: "tolower (tolower c) = tolower c"
  by (auto simp: tolower_def isupper_def ord_of_char_of)

lemma c_str_no_nul: "NUL \<notin> set (c_str s)"
  unfolding c_str_def by (metis (mono_tags, lifting) set_takeWhileD)

lemma c_str_id: "NUL \<notin> set s \<Longrightarrow> c_str s = s"
  unfolding c_str_def by (auto simp: takeWhile_eq_all_conv)

lemma c_str_idem [simp]: "c_str (c_str s) = c_str s"
  by (simp add: c_str_id c_str_no_nul)

lemma c_str_length: "length (c_str s) \<le> length s"
  by (simp add: c_str_def length_takeWhile_le)

lemma c_str_append_nul: "NUL \<notin> set s \<Longrightarrow> c_str (s @ NUL # t) = s"
  unfolding c_str_def by (induction s) auto

text \<open>Copying a string into a character array of \<open>n\<close> cells the way \<open>strncpy\<close> followed by a
  final terminator, or a truncating \<open>strncpy_s\<close>, does: what the array then reads as.\<close>

definition trunc_copy :: "nat \<Rightarrow> string \<Rightarrow> string" where
  "trunc_copy n s = take (n - 1) (c_str s)"

lemma trunc_copy_length: "length (trunc_copy n s) \<le> n - 1"
  by (simp add: trunc_copy_def)

lemma trunc_copy_no_nul: "NUL \<notin> set (trunc_copy n s)"
  unfolding trunc_copy_def by (meson c_str_no_nul in_set_takeD)

lemma trunc_copy_short: "NUL \<notin> set s \<Longrightarrow> length s < n \<Longrightarrow> trunc_copy n s = s"
  by (simp add: trunc_copy_def c_str_id)

subsection \<open>Lists and maps\<close>

text \<open>The first position that satisfies a test, and the first element that does.\<close>

primrec find_index :: "('a \<Rightarrow> bool) \<Rightarrow> 'a list \<Rightarrow> nat option" where
  "find_index P [] = None"
| "find_index P (x # xs) = (if P x then Some 0 else map_option Suc (find_index P xs))"

lemma find_index_SomeD:
  "find_index P xs = Some i \<Longrightarrow>
     i < length xs \<and> P (xs ! i) \<and> (\<forall>j < i. \<not> P (xs ! j))"
proof (induction xs arbitrary: i)
  case (Cons x xs)
  show ?case
  proof (cases "P x")
    case False
    with Cons.prems obtain k where k: "find_index P xs = Some k" "i = Suc k"
      by (auto split: if_splits)
    with Cons.IH [OF k(1)] False show ?thesis
      by (auto simp: nth_Cons split: nat.splits)
  qed (use Cons.prems in auto)
qed simp

lemma find_index_None_iff: "find_index P xs = None \<longleftrightarrow> (\<forall>x \<in> set xs. \<not> P x)"
  by (induction xs) auto

lemma find_index_append:
  "find_index P (xs @ ys) = (case find_index P xs of
     Some i \<Rightarrow> Some i | None \<Rightarrow> map_option (\<lambda>i. i + length xs) (find_index P ys))"
proof (induction xs)
  case Nil
  then show ?case by (cases "find_index P ys") simp_all
next
  case (Cons x xs)
  then show ?case
    by (cases "find_index P xs"; cases "find_index P ys") simp_all
qed

lemma find_index_cong:
  "(\<And>x. x \<in> set xs \<Longrightarrow> P x = Q x) \<Longrightarrow> find_index P xs = find_index Q xs"
  by (induction xs) simp_all

lemma find_SomeD: "find P xs = Some x \<Longrightarrow> x \<in> set xs \<and> P x"
  by (induction xs) (auto split: if_splits)

lemma foldl_invariant:
  assumes "I a" "\<And>a x. x \<in> set xs \<Longrightarrow> I a \<Longrightarrow> I (f a x)"
  shows "I (foldl f a xs)"
  using assms by (induction xs arbitrary: a) auto

text \<open>Facts about \<open>option\<close> pipelines.\<close>

lemma bind_Some_iff: "Option.bind m f = Some y \<longleftrightarrow> (\<exists>x. m = Some x \<and> f x = Some y)"
  by (cases m) simp_all

subsection \<open>Words in memory\<close>

text \<open>The little-endian bytes of a word, and back.\<close>

definition le_bytes :: "nat \<Rightarrow> 'a::len word \<Rightarrow> u8 list" where
  "le_bytes n w = map (\<lambda>i. ucast (drop_bit (8 * i) w)) [0..<n]"

fun le_word :: "u8 list \<Rightarrow> 'a::len word" where
  "le_word [] = 0"
| "le_word (b # bs) = ucast b OR push_bit 8 (le_word bs)"

lemma le_bytes_length [simp]: "length (le_bytes n w) = n"
  by (simp add: le_bytes_def)

lemma le_bytes_0 [simp]: "le_bytes 0 w = []"
  by (simp add: le_bytes_def)

lemma le_bytes_Suc: "le_bytes (Suc n) w = ucast w # le_bytes n (drop_bit 8 w)"
  unfolding le_bytes_def by (simp add: map_upt_Suc add.commute del: upt_Suc)

lemma le_word_le_bytes: "le_word (le_bytes n w) = take_bit (8 * n) w"
proof (induction n arbitrary: w)
  case (Suc n)
  have "bit (ucast (ucast w :: u8) OR push_bit 8 (take_bit (8 * n) (drop_bit 8 w))) k
      = bit (take_bit (8 * Suc n) w) k" if "k < LENGTH('a)" for k
    using that by (cases "k < 8") (auto simp: bit_simps)
  then have "ucast (ucast w :: u8) OR push_bit 8 (take_bit (8 * n) (drop_bit 8 w))
      = take_bit (8 * Suc n) w"
    by (intro bit_word_eqI) simp
  with Suc show ?case by (simp add: le_bytes_Suc del: mult_Suc_right)
qed simp

lemma le_word_le_bytes_full:
  "LENGTH('a) \<le> 8 * n \<Longrightarrow> le_word (le_bytes n (w :: 'a::len word)) = w"
  by (simp add: le_word_le_bytes take_bit_word_eq_self)

end
