(* ===== verification/Strings.thy ===== *)
theory Strings
  imports Prelude
begin

text \<open>
  \<open>Utils/String.cpp\<close> and \<open>Utils/String.hpp\<close>: the string helpers the rest of the program uses.
  Byte buffers are lists of \<open>u8\<close>, \<open>std::string\<close> is a list of characters. A loop of the source that
  may not end is a \<open>partial_function (option)\<close>, so that not returning is the value \<open>None\<close>; access
  outside a string is the fault \<open>Undefined\<close>.
\<close>

subsection \<open>Base 64\<close>

definition base64_chars :: string where
  "base64_chars =
     ''ABCDEFGHIJKLMNOPQRSTUVWXYZ'' @ ''abcdefghijklmnopqrstuvwxyz'' @ ''0123456789+/''"

definition is_base64 :: "char \<Rightarrow> bool" where
  "is_base64 c \<longleftrightarrow> isalnum c \<or> c = CHR ''+'' \<or> c = CHR ''/''"

text \<open>The four sextets of three bytes (\<open>char_array_4\<close> from \<open>char_array_3\<close>).\<close>

definition sextets :: "u8 \<Rightarrow> u8 \<Rightarrow> u8 \<Rightarrow> u8 list" where
  "sextets a b c =
     [drop_bit 2 (a AND 0xfc),
      push_bit 4 (a AND 0x03) + drop_bit 4 (b AND 0xf0),
      push_bit 2 (b AND 0x0f) + drop_bit 6 (c AND 0xc0),
      c AND 0x3f]"

definition b64_char :: "u8 \<Rightarrow> char" where
  "b64_char s = base64_chars ! unat s"

fun Base64Encode :: "u8 list \<Rightarrow> string" where
  "Base64Encode (a # b # c # rest) = map b64_char (sextets a b c) @ Base64Encode rest"
| "Base64Encode [a, b] = map b64_char (take 3 (sextets a b 0)) @ ''=''"
| "Base64Encode [a] = map b64_char (take 2 (sextets a 0 0)) @ ''==''"
| "Base64Encode [] = []"

text \<open>\<open>base64_chars[base64_chars.find(c)]\<close>: the lookup of the decoder. It fails when the
  character does not occur, because the index is then \<open>npos\<close>.\<close>

definition b64_lookup :: "u8 \<Rightarrow> u8 res" where
  "b64_lookup c = (case find_index (\<lambda>d. ord_of d = unat c) base64_chars of
     None \<Rightarrow> Inl Undefined
   | Some i \<Rightarrow> Inr (of_nat (ord_of (base64_chars ! i))))"

definition unsextets :: "u8 \<Rightarrow> u8 \<Rightarrow> u8 \<Rightarrow> u8 \<Rightarrow> u8 list" where
  "unsextets p q r s =
     [push_bit 2 p + drop_bit 4 (q AND 0x30),
      push_bit 4 (q AND 0xf) + drop_bit 2 (r AND 0x3c),
      push_bit 6 (r AND 0x3) + s]"

definition decode_group :: "u8 \<Rightarrow> u8 \<Rightarrow> u8 \<Rightarrow> u8 \<Rightarrow> u8 list res" where
  "decode_group p q r s =
     rbind (b64_lookup p) (\<lambda>p. rbind (b64_lookup q) (\<lambda>q.
     rbind (b64_lookup r) (\<lambda>r. rbind (b64_lookup s) (\<lambda>s. Inr (unsextets p q r s)))))"

definition char_byte :: "char \<Rightarrow> u8" where
  "char_byte c = of_nat (ord_of c)"

text \<open>The loop of \<open>Base64Decode\<close> over the accepted prefix, and the partial group at its end.\<close>

fun decode_groups :: "u8 list \<Rightarrow> u8 list res" where
  "decode_groups (p # q # r # s # rest) =
     rbind (decode_group p q r s) (\<lambda>out. rbind (decode_groups rest) (\<lambda>more. Inr (out @ more)))"
| "decode_groups [] = Inr []"
| "decode_groups part =
     (let g = part @ replicate (4 - length part) 0 in
      rbind (decode_group (g ! 0) (g ! 1) (g ! 2) (g ! 3)) (\<lambda>out. Inr (take (length part - 1) out)))"

definition Base64Decode :: "string \<Rightarrow> u8 list res" where
  "Base64Decode s = decode_groups
     (map char_byte (takeWhile (\<lambda>c. c \<noteq> CHR ''='' \<and> is_base64 c) s))"

definition calcDecodeLength :: "string \<Rightarrow> nat res" where
  "calcDecodeLength b64input = (let len = length b64input in
     if len = 0 then Inl Undefined
     else if b64input ! (len - 1) \<noteq> CHR ''='' then Inr ((len * 3) div 4)
     else if len = 1 then Inl Undefined
     else if b64input ! (len - 2) = CHR ''='' then Inr ((len * 3) div 4 - 2)
     else Inr ((len * 3) div 4 - 1))"

subsection \<open>Characters and hexadecimal\<close>

definition RemoveCharsFromString :: "string \<Rightarrow> string \<Rightarrow> string" where
  "RemoveCharsFromString str charsToRemove =
     foldl (\<lambda>s c. filter (\<lambda>d. d \<noteq> c) s) str (c_str charsToRemove)"

definition hex_val :: "char \<Rightarrow> nat option" where
  "hex_val c =
     (if isdigit c then Some (ord_of c - 48)
      else if 97 \<le> ord_of c \<and> ord_of c \<le> 102 then Some (ord_of c - 87)
      else if 65 \<le> ord_of c \<and> ord_of c \<le> 70 then Some (ord_of c - 55)
      else None)"

definition hex_digits_val :: "string \<Rightarrow> nat" where
  "hex_digits_val s = foldl (\<lambda>n c. 16 * n + the (hex_val c)) 0
     (takeWhile (\<lambda>c. hex_val c \<noteq> None) s)"

text \<open>\<open>std::hex >> int\<close> on a stream of at most two characters: leading white space is skipped,
  a sign and a \<open>0x\<close> prefix are accepted, and a failed extraction stores 0.\<close>

definition hex_stream_int :: "string \<Rightarrow> int" where
  "hex_stream_int s = (let t = dropWhile isspace s in
     case t of
       [] \<Rightarrow> 0
     | c # u \<Rightarrow>
         if c = CHR ''-'' then - int (hex_digits_val u)
         else if c = CHR ''+'' then int (hex_digits_val u)
         else int (hex_digits_val t))"

text \<open>One byte of \<open>HexStringToBytes\<close>: the two characters are copied through a NUL-terminated
  array; reading at the end of a \<open>std::string\<close> gives NUL, reading beyond it is undefined.\<close>

definition string_at :: "string \<Rightarrow> nat \<Rightarrow> char res" where
  "string_at s i = (if i < length s then Inr (s ! i) else if i = length s then Inr NUL else Inl Undefined)"

fun HexStringToBytes :: "string \<Rightarrow> nat \<Rightarrow> u8 list res" where
  "HexStringToBytes s 0 = Inr []"
| "HexStringToBytes s (Suc n) =
     rbind (string_at s 0) (\<lambda>c. rbind (string_at s 1) (\<lambda>d.
     rbind (HexStringToBytes (drop 2 s) n) (\<lambda>rest.
       Inr (word_of_int (hex_stream_int (c_str [c, d])) # rest))))"

definition hex_char :: "nat \<Rightarrow> char" where
  "hex_char n = ''0123456789abcdef'' ! n"

definition byte_hex :: "u8 \<Rightarrow> string" where
  "byte_hex b = [hex_char (unat b div 16), hex_char (unat b mod 16)]"

definition BytesToHexString :: "u8 list \<Rightarrow> string" where
  "BytesToHexString bs = concat (map byte_hex bs)"

definition ReplaceCharacters :: "string \<Rightarrow> char \<Rightarrow> char \<Rightarrow> string" where
  "ReplaceCharacters str fnd replaceWith = map (\<lambda>c. if c = fnd then replaceWith else c) str"

definition ToLower :: "string \<Rightarrow> string" where
  "ToLower str = map tolower str"


subsection \<open>Replacing, splitting, trimming, wrapping\<close>

definition is_prefix_of :: "string \<Rightarrow> string \<Rightarrow> bool" where
  "is_prefix_of p s \<longleftrightarrow> take (length p) s = p"

text \<open>\<open>std::string::find\<close> in a suffix: the first offset at which \<open>p\<close> occurs (an empty \<open>p\<close>
  occurs at every offset up to the length).\<close>

fun str_find :: "string \<Rightarrow> string \<Rightarrow> nat option" where
  "str_find p [] = (if p = [] then Some 0 else None)"
| "str_find p (c # s) = (if is_prefix_of p (c # s) then Some 0 else map_option Suc (str_find p s))"

text \<open>\<open>str.find(replace, start)\<close>.\<close>

definition find_from :: "string \<Rightarrow> string \<Rightarrow> nat \<Rightarrow> nat option" where
  "find_from p s start =
     (if length s < start then None else map_option (\<lambda>i. start + i) (str_find p (drop start s)))"

partial_function (option) replace_loop ::
  "string \<Rightarrow> string \<Rightarrow> string \<Rightarrow> nat option \<Rightarrow> bool \<Rightarrow> (string \<times> bool) option" where
  "replace_loop replace wth str start_pos found = (case start_pos of
     None \<Rightarrow> Some (str, found)
   | Some pos \<Rightarrow>
       (let str' = take pos str @ wth @ drop (pos + length replace) str in
        replace_loop replace wth str' (find_from replace str' (pos + length wth)) True))"

definition ReplaceString :: "string \<Rightarrow> string \<Rightarrow> string \<Rightarrow> (string \<times> bool) option" where
  "ReplaceString str replace wth =
     replace_loop replace wth str (find_from replace str 0) False"

text \<open>\<open>std::getline\<close> until the stream fails: every delimiter ends an item, the text after the
  last one is an item only when it is not empty.\<close>

fun getlines :: "char \<Rightarrow> string \<Rightarrow> string \<Rightarrow> string list" where
  "getlines delim item [] = (if item = [] then [] else [rev item])"
| "getlines delim item (c # s) =
     (if c = delim then rev item # getlines delim [] s else getlines delim (c # item) s)"

definition SplitString :: "string \<Rightarrow> char \<Rightarrow> string list" where
  "SplitString stringToSplit delim = getlines delim [] stringToSplit"

definition ltrim :: "string \<Rightarrow> string" where
  "ltrim s = dropWhile isspace s"

definition rtrim :: "string \<Rightarrow> string" where
  "rtrim s = rev (dropWhile isspace (rev s))"

definition trim :: "string \<Rightarrow> string" where
  "trim s = ltrim (rtrim s)"

definition Trim :: "string \<Rightarrow> bool \<Rightarrow> string" where
  "Trim str fromEnd = (if fromEnd then rtrim str else ltrim str)"

text \<open>\<open>Join\<close> streams every item followed by the delimiter and erases the last character; for an
  empty range the position given to \<open>erase\<close> is past the end, which throws.\<close>

definition Join :: "string list \<Rightarrow> string \<Rightarrow> string res" where
  "Join items delim = (let str = concat (map (\<lambda>s. s @ delim) items) in
     if str = [] then Inl OutOfRange else Inr (butlast str))"

text \<open>The lines \<open>Wrap\<close> copies out of its stream: it tests \<open>good()\<close> before reading, so the text
  after the last newline is a line even when it is empty.\<close>

fun wrap_lines :: "string \<Rightarrow> string \<Rightarrow> string list" where
  "wrap_lines line [] = [rev line]"
| "wrap_lines line (c # s) =
     (if c = CHR 0x0A then rev line # wrap_lines [] s else wrap_lines (c # line) s)"

text \<open>The inner loop: the last white space at or before \<open>wordEnd\<close>, 0 if there is none.\<close>

fun word_end :: "string \<Rightarrow> nat \<Rightarrow> nat" where
  "word_end line 0 = 0"
| "word_end line (Suc n) = (if isspace (line ! Suc n) then Suc n else word_end line n)"

partial_function (option) wrap_line :: "nat \<Rightarrow> string \<Rightarrow> string list option" where
  "wrap_line lineLength currentLine =
     (if length currentLine \<le> lineLength then Some [currentLine]
      else
        (let w = word_end currentLine lineLength;
             wordEnd = (if w = 0 then lineLength else w) in
         Option.bind (wrap_line lineLength (drop wordEnd currentLine))
           (\<lambda>rest. Some (take wordEnd currentLine # rest))))"

fun wrap_all :: "nat \<Rightarrow> string list \<Rightarrow> string list option" where
  "wrap_all lineLength [] = Some []"
| "wrap_all lineLength (line # lines) =
     Option.bind (wrap_line lineLength line) (\<lambda>ls.
     Option.bind (wrap_all lineLength lines) (\<lambda>more. Some (ls @ more)))"

text \<open>\<open>Wrap\<close>. The column counter of the source is an \<open>int\<close>, so the model is meant for line lengths
  below \<open>2 ^ 31\<close>.\<close>

definition Wrap :: "string \<Rightarrow> nat \<Rightarrow> string list option" where
  "Wrap str lineLength = wrap_all lineLength (wrap_lines [] str)"

subsection \<open>Base 64 against a reference decoder\<close>

text \<open>The decoder of RFC 4648 for padded text: the reference \<open>Base64Encode\<close> is checked against.\<close>

definition b64_index :: "char \<Rightarrow> u8" where
  "b64_index c = of_nat (the (find_index (\<lambda>d. d = c) base64_chars))"

fun b64_reference :: "string \<Rightarrow> u8 list" where
  "b64_reference (p # q # r # s # rest) =
     (if rest = [] \<and> s = CHR ''='' then
        (if r = CHR ''='' then take 1 (unsextets (b64_index p) (b64_index q) 0 0)
         else take 2 (unsextets (b64_index p) (b64_index q) (b64_index r) 0))
      else unsextets (b64_index p) (b64_index q) (b64_index r) (b64_index s)
           @ b64_reference rest)"
| "b64_reference _ = []"

lemma less8_iff: "n < 8 \<longleftrightarrow> n \<in> {0, 1, 2, 3, 4, 5, 6, 7::nat}"
  by auto

lemma bit_u8_less: "bit (a::u8) n \<Longrightarrow> n < 8"
  using bit_imp_le_length by fastforce

lemma Suc_numerals: "Suc (Suc 0) = 2" "Suc 2 = 3"
  by simp_all

lemmas byte_bits = less8_iff bit_simps Suc_numerals

lemma sextet_or:
  fixes a b :: u8
  shows "push_bit 4 (a AND 0x03) + drop_bit 4 (b AND 0xf0)
       = push_bit 4 (a AND 0x03) OR drop_bit 4 (b AND 0xf0)"
    and "push_bit 2 (a AND 0x0f) + drop_bit 6 (b AND 0xc0)
       = push_bit 2 (a AND 0x0f) OR drop_bit 6 (b AND 0xc0)"
  subgoal by (rule disjunctive_add_eq_or) (auto intro!: bit_word_eqI simp: byte_bits)
  subgoal by (rule disjunctive_add_eq_or) (auto intro!: bit_word_eqI simp: byte_bits)
  done

lemma unsextet_or:
  fixes p q :: u8
  shows "push_bit 2 p + drop_bit 4 (q AND 0x30) = push_bit 2 p OR drop_bit 4 (q AND 0x30)"
    and "push_bit 4 (p AND 0xf) + drop_bit 2 (q AND 0x3c)
       = push_bit 4 (p AND 0xf) OR drop_bit 2 (q AND 0x3c)"
    and "push_bit 6 (p AND 0x3) + (q AND 0x3f) = push_bit 6 (p AND 0x3) OR (q AND 0x3f)"
  subgoal by (rule disjunctive_add_eq_or) (auto intro!: bit_word_eqI simp: byte_bits)
  subgoal by (rule disjunctive_add_eq_or) (auto intro!: bit_word_eqI simp: byte_bits)
  subgoal by (rule disjunctive_add_eq_or) (auto intro!: bit_word_eqI simp: byte_bits)
  done

lemma unsextets_of_sextets:
  "unsextets (drop_bit 2 (a AND 0xfc)) (push_bit 4 (a AND 0x03) + drop_bit 4 (b AND 0xf0))
     (push_bit 2 (b AND 0x0f) + drop_bit 6 (c AND 0xc0)) (c AND 0x3f) = [a, b, c]"
  unfolding unsextets_def sextet_or unsextet_or
  by (auto intro!: bit_word_eqI simp: byte_bits dest: bit_u8_less)

lemma unsextets_sextets:
  "sextets a b c = [p, q, r, s] \<Longrightarrow> unsextets p q r s = [a, b, c]"
  using unsextets_of_sextets [of a b c] unfolding sextets_def by (simp only: list.inject)

lemma no_high_bit: "\<not> bit (a::u8) 8" "\<not> bit a 9"
  using bit_u8_less [of a 8] bit_u8_less [of a 9] by auto

lemma drop_bit_high: "drop_bit 2 (a AND 0xfc) = drop_bit 2 (a::u8)"
  by (auto intro!: bit_word_eqI simp: byte_bits no_high_bit)

lemma sextets_length: "length (sextets a b c) = 4"
  by (simp add: sextets_def)

lemma sextets_small: "s \<in> set (sextets a b c) \<Longrightarrow> unat s < 64"
proof -
  assume "s \<in> set (sextets a b c)"
  then have "s = s AND 0x3f"
    unfolding sextets_def sextet_or by (auto intro!: bit_word_eqI simp: byte_bits)
  also have "\<dots> = take_bit 6 s" by (simp add: take_bit_eq_mask mask_eq_exp_minus_1)
  finally have "unat s = take_bit 6 (unat s)" by (metis unsigned_take_bit_eq)
  also have "\<dots> < 2 ^ 6" by (rule take_bit_nat_less_exp)
  finally show ?thesis by simp
qed

lemma base64_distinct: "distinct base64_chars" "length base64_chars = 64"
  by (simp_all add: base64_chars_def)

lemma base64_chars_ok: "list_all (\<lambda>c. is_base64 c \<and> c \<noteq> CHR ''='') base64_chars"
  by (simp add: base64_chars_def is_base64_def isalnum_def isdigit_def isupper_def islower_def
      ord_of_def)

lemma base64_chars_low:
  "list_all2 (\<lambda>c i. char_byte c AND 0x3f \<noteq> i) base64_chars (map word_of_nat [0..<64])"
  by (simp add: base64_chars_def char_byte_def ord_of_def upt_rec)

lemma find_index_nth: "distinct xs \<Longrightarrow> i < length xs \<Longrightarrow> find_index (\<lambda>d. d = xs ! i) xs = Some i"
proof (induction xs arbitrary: i)
  case (Cons x xs)
  then show ?case by (cases i) auto
qed simp

lemma unat_char_byte: "unat (char_byte c) = ord_of c"
  using ord_of_less [of c] by (simp add: char_byte_def unat_of_nat)

lemma b64_char_facts:
  assumes "unat s < 64"
  shows "is_base64 (b64_char s)" "b64_char s \<noteq> CHR ''=''" "b64_index (b64_char s) = s"
    "b64_lookup (char_byte (b64_char s)) = Inr (char_byte (b64_char s))"
    "char_byte (b64_char s) AND 0x3f \<noteq> s"
proof -
  note i = assms [folded base64_distinct(2)]
  have "b64_char s \<in> set base64_chars" using i by (simp add: b64_char_def)
  then show "is_base64 (b64_char s)" "b64_char s \<noteq> CHR ''=''"
    using base64_chars_ok by (auto simp: list_all_iff)
  show "b64_index (b64_char s) = s"
    using find_index_nth [OF base64_distinct(1) i] by (simp add: b64_index_def b64_char_def)
  show "b64_lookup (char_byte (b64_char s)) = Inr (char_byte (b64_char s))"
    using find_index_nth [OF base64_distinct(1) i]
    by (simp add: b64_lookup_def unat_char_byte ord_of_eq_iff b64_char_def) (simp add: char_byte_def)
  show "char_byte (b64_char s) AND 0x3f \<noteq> s"
    using list_all2_nthD [OF base64_chars_low i] assms by (simp add: b64_char_def)
qed

text \<open>The text \<open>Base64Encode\<close> produces for any bytes, of any length, is the padded Base64 of
  those bytes: the RFC 4648 decoder gives exactly them back.\<close>

theorem b64_reference_Base64Encode: "b64_reference (Base64Encode bs) = bs"
proof (induction bs rule: Base64Encode.induct)
  case (1 a b c rest)
  obtain p q r s where S: "sextets a b c = [p, q, r, s]" by (simp add: sextets_def)
  with sextets_small [of _ a b c] 1 show ?case
    by (simp add: b64_char_facts unsextets_sextets [OF S])
next
  case (2 a b)
  obtain p q r s where S: "sextets a b 0 = [p, q, r, s]" by (simp add: sextets_def)
  then have "s = 0" by (simp add: sextets_def)
  with S sextets_small [of _ a b 0] unsextets_sextets [OF S] show ?case
    by (simp add: b64_char_facts)
next
  case (3 a)
  obtain p q r s where S: "sextets a 0 0 = [p, q, r, s]" by (simp add: sextets_def)
  then have "s = 0" "r = 0" by (simp_all add: sextets_def)
  with S sextets_small [of _ a 0 0] unsextets_sextets [OF S] show ?case
    by (simp add: b64_char_facts)
qed simp

lemma decode_first_byte:
  fixes p q :: u8
  shows "drop_bit 2 (push_bit 2 p + drop_bit 4 (q AND 0x30)) = p AND 0x3f"
  unfolding unsextet_or by (auto intro!: bit_word_eqI simp: byte_bits)

text \<open>\<open>Base64Decode\<close> does not invert \<open>Base64Encode\<close>: it looks up each character's position in
  the alphabet and then indexes the alphabet with it, so it works on the characters themselves.
  There is no nonempty input for which decoding the encoded text returns the input.\<close>

theorem Base64Decode_not_inverse:
  assumes "bs \<noteq> []" shows "Base64Decode (Base64Encode bs) \<noteq> Inr bs"
  using assms
proof (cases bs rule: Base64Encode.cases)
  case (1 a b c rest)
  obtain p q r s where S: "sextets a b c = [p, q, r, s]" by (simp add: sextets_def)
  then have p: "p = drop_bit 2 a"
    unfolding sextets_def drop_bit_high by simp
  have small: "unat p < 64" "unat q < 64" "unat r < 64" "unat s < 64"
    using sextets_small [of _ a b c] by (simp_all add: S)
  have "drop_bit 2 (push_bit 2 (char_byte (b64_char p))
      + drop_bit 4 (char_byte (b64_char q) AND 0x30)) \<noteq> drop_bit 2 a"
    unfolding decode_first_byte using b64_char_facts(5) [OF small(1)] by (simp add: p)
  then have "push_bit 2 (char_byte (b64_char p))
      + drop_bit 4 (char_byte (b64_char q) AND 0x30) \<noteq> a" by metis
  with 1 S small show ?thesis
    by (auto simp: Base64Decode_def b64_char_facts decode_group_def unsextets_def rbind_Inr_iff)
next
  case (2 a b)
  obtain p q r s where S: "sextets a b 0 = [p, q, r, s]" by (simp add: sextets_def)
  with 2 sextets_small [of _ a b 0] show ?thesis
    by (simp add: Base64Decode_def b64_char_facts decode_group_def Let_def rbind_Inr_iff)
       (simp add: b64_lookup_def base64_chars_def ord_of_def)
next
  case (3 a)
  obtain p q r s where S: "sextets a 0 0 = [p, q, r, s]" by (simp add: sextets_def)
  with 3 sextets_small [of _ a 0 0] show ?thesis
    by (simp add: Base64Decode_def b64_char_facts decode_group_def Let_def rbind_Inr_iff)
       (simp add: b64_lookup_def base64_chars_def ord_of_def)
qed simp

theorem Base64Decode_not_inverse_witness:
  "Base64Decode (Base64Encode [77, 97, 110]) \<noteq> Inr [77, 97, 110]"
  by (rule Base64Decode_not_inverse) simp


subsection \<open>Hexadecimal round trip\<close>

lemma hex_char_facts:
  assumes "n < 16"
  shows "hex_val (hex_char n) = Some n" "\<not> isspace (hex_char n)"
    "hex_char n \<noteq> CHR ''-''" "hex_char n \<noteq> CHR ''+''" "hex_char n \<noteq> NUL"
proof -
  from assms have "n \<in> {0,1,2,3,4,5,6,7,8,9,10,11,12,13,14,15}"
    unfolding insert_iff empty_iff by arith
  then show "hex_val (hex_char n) = Some n" "\<not> isspace (hex_char n)"
    "hex_char n \<noteq> CHR ''-''" "hex_char n \<noteq> CHR ''+''" "hex_char n \<noteq> NUL"
    by (auto simp: hex_char_def hex_val_def isdigit_def isspace_def ord_of_def NUL_def)
qed

lemma hex_stream_byte_hex: "hex_stream_int (c_str (byte_hex b)) = uint b"
proof -
  have "unat b < 256" using unsigned_less [of b] by simp
  then have "unat b div 16 < 16" "unat b mod 16 < 16" by simp_all
  note h = hex_char_facts [OF this(1)] hex_char_facts [OF this(2)]
  have "c_str (byte_hex b) = byte_hex b" by (simp add: byte_hex_def c_str_def h)
  then show ?thesis
    by (simp add: byte_hex_def hex_stream_int_def hex_digits_val_def h flip: of_nat_mult of_nat_add)
qed

lemma HexStringToBytes_append:
  "HexStringToBytes (BytesToHexString bs @ t) (length bs) = Inr bs"
proof (induction bs)
  case (Cons b bs)
  have "byte_hex b = [hex_char (unat b div 16), hex_char (unat b mod 16)]"
    by (simp add: byte_hex_def)
  with Cons hex_stream_byte_hex [of b] show ?case
    by (simp add: BytesToHexString_def string_at_def numeral_2_eq_2)
qed simp

text \<open>Writing bytes as hexadecimal digits and reading the digits back gives the same bytes, for
  every byte list.\<close>

theorem hex_roundtrip: "HexStringToBytes (BytesToHexString bs) (length bs) = Inr bs"
  using HexStringToBytes_append [of bs "[]"] by simp

subsection \<open>Removing characters and replacing text\<close>

lemma RemoveCharsFromString_filter:
  "RemoveCharsFromString str cs = filter (\<lambda>c. c \<notin> set (c_str cs)) str"
proof -
  have "foldl (\<lambda>s c. filter (\<lambda>d. d \<noteq> c) s) s xs = filter (\<lambda>c. c \<notin> set xs) s" for xs s
    by (induction xs arbitrary: s) (auto intro: filter_cong)
  then show ?thesis by (simp add: RemoveCharsFromString_def)
qed

text \<open>The specification of a replacement: occurrences are taken from the left, without overlap.\<close>

function subst_all :: "string \<Rightarrow> string \<Rightarrow> string \<Rightarrow> string" where
  "subst_all p w s =
     (if p = [] \<or> s = [] then s
      else if is_prefix_of p s then w @ subst_all p w (drop (length p) s)
      else hd s # subst_all p w (tl s))"
  by auto
termination by (relation "measure (\<lambda>(p, w, s). length s)") auto

declare subst_all.simps [simp del]

lemma str_find_None_subst: "str_find p s = None \<Longrightarrow> subst_all p w s = s"
proof (induction s)
  case (Cons c s)
  then show ?case by (simp add: subst_all.simps [of p w "c # s"] split: if_splits)
qed (simp add: subst_all.simps)

lemma is_prefix_ofD: "is_prefix_of p s \<Longrightarrow> length p \<le> length s"
  unfolding is_prefix_of_def by (metis length_take min.cobounded1)

lemma str_find_Some_subst:
  assumes "p \<noteq> []" "str_find p s = Some i"
  shows "i + length p \<le> length s"
    "subst_all p w s = take i s @ w @ subst_all p w (drop (i + length p) s)"
proof -
  have "i + length p \<le> length s \<and>
    subst_all p w s = take i s @ w @ subst_all p w (drop (i + length p) s)"
    using assms
  proof (induction s arbitrary: i)
    case (Cons c s)
    show ?case
    proof (cases "is_prefix_of p (c # s)")
      case True
      with Cons.prems is_prefix_ofD [OF True] show ?thesis by (simp add: subst_all.simps [of p w "c # s"])
    next
      case False
      with Cons.prems obtain k where "str_find p s = Some k" "i = Suc k" by auto
      with Cons False show ?thesis by (simp add: subst_all.simps [of p w "c # s"])
    qed
  qed simp
  then show "i + length p \<le> length s"
    "subst_all p w s = take i s @ w @ subst_all p w (drop (i + length p) s)" by auto
qed

lemma find_from_append: "find_from p (pre @ s) (length pre) = map_option (\<lambda>i. length pre + i) (str_find p s)"
  by (simp add: find_from_def)

lemma replace_loop_result:
  assumes "p \<noteq> []"
  shows "replace_loop p w (pre @ s) (find_from p (pre @ s) (length pre)) found
       = Some (pre @ subst_all p w s, found \<or> str_find p s \<noteq> None)"
proof (induction "length s" arbitrary: s pre found rule: less_induct)
  case less
  show ?case
  proof (cases "str_find p s")
    case None
    then show ?thesis
      by (simp add: find_from_append replace_loop.simps str_find_None_subst)
  next
    case (Some i)
    note f = str_find_Some_subst [OF assms Some]
    let ?pre = "pre @ take i s @ w" and ?s = "drop (i + length p) s"
    have len: "length ?s < length s" using f(1) assms by (cases p) auto
    have pos: "length pre + i + length w = length ?pre" using f(1) by simp
    have str: "take (length pre + i) (pre @ s) @ w @ drop (length pre + i + length p) (pre @ s) = ?pre @ ?s"
      by simp
    have "replace_loop p w (pre @ s) (Some (length pre + i)) found
        = replace_loop p w (?pre @ ?s) (find_from p (?pre @ ?s) (length ?pre)) True"
      by (subst replace_loop.simps) (simp only: option.case Let_def pos str)
    with less [OF len, of ?pre True] f(2) Some show ?thesis
      by (simp add: find_from_append)
  qed
qed

lemma find_from_empty: "start \<le> length s \<Longrightarrow> find_from [] s start = Some start"
  by (cases "drop start s") (auto simp: find_from_def is_prefix_of_def)

lemma replace_loop_empty_aux:
  assumes "replace_loop p w str start found = Some r"
  shows "\<not> (p = [] \<and> (\<exists>pos. start = Some pos \<and> pos \<le> length str))"
proof (rule replace_loop.raw_induct
    [where P = "\<lambda>p w str start found r. \<not> (p = [] \<and> (\<exists>pos. start = Some pos \<and> pos \<le> length str))",
     OF _ assms])
  fix rec :: "string \<Rightarrow> string \<Rightarrow> string \<Rightarrow> nat option \<Rightarrow> bool \<Rightarrow> (string \<times> bool) option"
    and p w str :: string and start :: "nat option" and found :: bool and r
  assume IH: "\<And>p w str start found r. rec p w str start found = Some r \<Longrightarrow>
      \<not> (p = [] \<and> (\<exists>pos. start = Some pos \<and> pos \<le> length str))"
    and body: "(case start of None \<Rightarrow> Some (str, found)
      | Some pos \<Rightarrow> let str' = take pos str @ w @ drop (pos + length p) str in
          rec p w str' (find_from p str' (pos + length w)) True) = Some r"
  show "\<not> (p = [] \<and> (\<exists>pos. start = Some pos \<and> pos \<le> length str))"
  proof
    assume "p = [] \<and> (\<exists>pos. start = Some pos \<and> pos \<le> length str)"
    then obtain pos where p: "p = []" "start = Some pos" "pos \<le> length str" by blast
    let ?str = "take pos str @ w @ drop pos str"
    have len: "pos + length w \<le> length ?str" using p(3) by simp
    have "rec [] w ?str (Some (pos + length w)) True = Some r"
      using body by (simp only: p option.case Let_def list.size add_0_right find_from_empty [OF len])
    from IH [OF this] len show False by blast
  qed
qed

lemma replace_loop_empty_diverges:
  "pos \<le> length str \<Longrightarrow> replace_loop [] w str (Some pos) found = None"
  using replace_loop_empty_aux by (metis not_Some_eq)

lemma ReplaceString_result:
  assumes "p \<noteq> []"
  shows "ReplaceString str p w = Some (subst_all p w str, str_find p str \<noteq> None)"
  using replace_loop_result [OF assms, of w "[]" str False] by (simp add: ReplaceString_def)

text \<open>For a nonempty search text \<open>ReplaceString\<close> returns, its text is the one in which the
  occurrences, taken from the left without overlap, are replaced, and its flag tells whether there
  was one. Replacement text that contains the search text is not searched again.\<close>

theorem ReplaceString_spec:
  assumes "p \<noteq> []"
  shows "ReplaceString str p w = Some (subst_all p w str, str_find p str \<noteq> None)"
  using assms by (rule ReplaceString_result)

theorem ReplaceString_spec_witness:
  "ReplaceString ''a-b-c'' ''-'' ''-+'' = Some (''a-+b-+c'', True)"
  by (simp add: ReplaceString_spec subst_all.simps is_prefix_of_def)

text \<open>\<open>ReplaceString\<close> fails to return exactly when the search text is empty.\<close>

theorem ReplaceString_termination: "ReplaceString str p w = None \<longleftrightarrow> p = []"
proof (cases "p = []")
  case True
  then show ?thesis
    using replace_loop_empty_diverges [of 0 str w False] find_from_empty [of 0 str]
    by (simp add: ReplaceString_def)
next
  case False
  then show ?thesis by (simp add: ReplaceString_result)
qed

subsection \<open>Splitting and trimming\<close>

lemma getlines_concat:
  "delim \<notin> set item \<Longrightarrow>
     \<forall>l \<in> set (getlines delim item s). delim \<notin> set l"
  by (induction delim item s rule: getlines.induct) auto

lemma getlines_join:
  "concat (map (\<lambda>l. l @ [delim]) (getlines delim item s)) =
     rev item @ s @ (if item = [] \<and> s = [] \<or> s \<noteq> [] \<and> last s = delim then [] else [delim])"
  by (induction delim item s rule: getlines.induct) auto

lemma SplitString_items: "l \<in> set (SplitString s delim) \<Longrightarrow> delim \<notin> set l"
  using getlines_concat [of delim "[]" s] by (auto simp: SplitString_def)

lemma Join_SplitString:
  assumes "s \<noteq> []" "last s \<noteq> delim"
  shows "Join (SplitString s delim) [delim] = Inr s"
  using getlines_join [of delim "[]" s] assms by (simp add: Join_def SplitString_def Let_def)

subsection \<open>Wrapping\<close>

lemma word_end_le: "word_end line n \<le> n"
  by (induction line n rule: word_end.induct) auto

lemma wrap_line_result:
  assumes "0 < n"
  shows "\<exists>ls. wrap_line n line = Some ls \<and> concat ls = line \<and> (\<forall>l \<in> set ls. length l \<le> n)"
proof (induction "length line" arbitrary: line rule: less_induct)
  case less
  show ?case
  proof (cases "length line \<le> n")
    case True
    then show ?thesis by (simp add: wrap_line.simps)
  next
    case False
    define w where "w = (if word_end line n = 0 then n else word_end line n)"
    have w: "0 < w" "w \<le> n" using assms word_end_le [of line n] by (auto simp: w_def)
    with False have "length (drop w line) < length line" by simp
    from less [OF this] obtain ls where ls:
      "wrap_line n (drop w line) = Some ls" "concat ls = drop w line" "\<forall>l \<in> set ls. length l \<le> n"
      by blast
    have "wrap_line n line = Some (take w line # ls)"
      by (subst wrap_line.simps) (use False ls in \<open>simp add: w_def Let_def\<close>)
    with ls w show ?thesis by auto
  qed
qed

lemma wrap_all_result:
  assumes "0 < n"
  shows "\<exists>ls. wrap_all n lines = Some ls \<and> concat ls = concat lines \<and> (\<forall>l \<in> set ls. length l \<le> n)"
proof (induction lines)
  case (Cons line lines)
  with wrap_line_result [OF assms, of line] show ?case by force
qed simp

lemma wrap_lines_concat: "concat (wrap_lines line s) = rev line @ filter (\<lambda>c. c \<noteq> CHR 0x0A) s"
  by (induction line s rule: wrap_lines.induct) auto

lemma wrap_line_zero_aux:
  assumes "wrap_line n line = Some r"
  shows "n = 0 \<longrightarrow> line = []"
  by (rule wrap_line.raw_induct [where P = "\<lambda>n line r. n = 0 \<longrightarrow> line = []", OF _ assms])
    (auto simp: Let_def bind_Some_iff split: if_splits)

lemma wrap_line_zero: "line \<noteq> [] \<Longrightarrow> wrap_line 0 line = None"
  using wrap_line_zero_aux by (metis not_Some_eq)

text \<open>For a positive line length \<open>Wrap\<close> returns, no line is longer than the line length, and the
  lines together are the text without its newlines: no character is lost or reordered.\<close>

theorem Wrap_result:
  assumes "0 < n"
  shows "\<exists>ls. Wrap s n = Some ls \<and> (\<forall>l \<in> set ls. length l \<le> n)
    \<and> concat ls = filter (\<lambda>c. c \<noteq> CHR 0x0A) s"
  using wrap_all_result [OF assms, of "wrap_lines [] s"] by (auto simp: Wrap_def wrap_lines_concat)

theorem Wrap_result_witness:
  "\<exists>ls. Wrap ''ab cd ef'' 4 = Some ls \<and> (\<forall>l \<in> set ls. length l \<le> 4)
    \<and> concat ls = filter (\<lambda>c. c \<noteq> CHR 0x0A) ''ab cd ef''"
  by (rule Wrap_result) simp

end
