(* ===== verification/StdNum.thy ===== *)
theory StdNum
  imports Prelude
begin

text \<open>
  The number conversions of the C++ standard library the program relies on, as the Microsoft
  runtime implements them for 32-bit code: \<open>std::stoul\<close> and \<open>std::stoull\<close> (on \<open>unsigned long\<close> of
  32 bits and \<open>unsigned long long\<close> of 64), \<open>std::stoi\<close>, and \<open>std::to_string\<close> on integers; and the
  comparison of IEEE single-precision numbers kept as bit patterns. The main facts are that parsing
  what was printed gives the number back.
\<close>

subsection \<open>Parsing\<close>

definition digit_val :: "char \<Rightarrow> nat option" where
  "digit_val c =
     (if isdigit c then Some (ord_of c - 48)
      else if islower c then Some (ord_of c - 87)
      else if isupper c then Some (ord_of c - 55)
      else None)"

definition is_digit_in :: "nat \<Rightarrow> char \<Rightarrow> bool" where
  "is_digit_in base c = (case digit_val c of None \<Rightarrow> False | Some d \<Rightarrow> d < base)"

definition digits_value :: "nat \<Rightarrow> string \<Rightarrow> nat" where
  "digits_value base ds = foldl (\<lambda>n c. base * n + the (digit_val c)) 0 ds"

text \<open>A leading sign: whether the value is negated, and the text after it.\<close>

definition split_sign :: "string \<Rightarrow> bool \<times> string" where
  "split_sign s = (case s of
     [] \<Rightarrow> (False, s)
   | c # t \<Rightarrow> if c = CHR ''-'' then (True, t) else if c = CHR ''+'' then (False, t) else (False, s))"

text \<open>Base 0 recognises the prefixes of C; base 16 skips an optional \<open>0x\<close>.\<close>

definition has_hex_prefix :: "string \<Rightarrow> bool" where
  "has_hex_prefix s \<longleftrightarrow> 2 < length s \<and> s ! 0 = CHR ''0'' \<and> (s ! 1 = CHR ''x'' \<or> s ! 1 = CHR ''X'')
     \<and> is_digit_in 16 (s ! 2)"

definition split_base :: "nat \<Rightarrow> string \<Rightarrow> nat \<times> string" where
  "split_base base s =
     (if (base = 0 \<or> base = 16) \<and> has_hex_prefix s then (16, drop 2 s)
      else if base = 0 then (if s \<noteq> [] \<and> hd s = CHR ''0'' then (8, s) else (10, s))
      else (base, s))"

text \<open>Sign, magnitude and whether any digit was converted.\<close>

definition scan_number :: "nat \<Rightarrow> string \<Rightarrow> (bool \<times> nat) option" where
  "scan_number base s =
     (let (neg, t) = split_sign (dropWhile isspace (c_str s));
          (b, u) = split_base base t;
          ds = takeWhile (is_digit_in b) u
      in if ds = [] then None else Some (neg, digits_value b ds))"

definition parse_unsigned :: "nat \<Rightarrow> nat \<Rightarrow> string \<Rightarrow> nat res" where
  "parse_unsigned width base s = (case scan_number base s of
     None \<Rightarrow> Inl InvalidArgument
   | Some (neg, n) \<Rightarrow>
       if 2 ^ width \<le> n then Inl OutOfRange
       else Inr (if neg then (2 ^ width - n) mod 2 ^ width else n))"

definition stoul :: "nat \<Rightarrow> string \<Rightarrow> u32 res" where
  "stoul base s = rbind (parse_unsigned 32 base s) (\<lambda>n. Inr (of_nat n))"

definition stoull :: "nat \<Rightarrow> string \<Rightarrow> u64 res" where
  "stoull base s = rbind (parse_unsigned 64 base s) (\<lambda>n. Inr (of_nat n))"

definition stoi :: "string \<Rightarrow> int res" where
  "stoi s = (case scan_number 10 s of
     None \<Rightarrow> Inl InvalidArgument
   | Some (neg, n) \<Rightarrow>
       (let v = (if neg then - int n else int n) in
        if v < - (2 ^ 31) \<or> 2 ^ 31 \<le> v then Inl OutOfRange else Inr v))"

subsection \<open>Printing\<close>

definition dec_char :: "nat \<Rightarrow> char" where
  "dec_char n = char_of (48 + n)"

fun dec :: "nat \<Rightarrow> string" where
  "dec n = (if n < 10 then [dec_char n] else dec (n div 10) @ [dec_char (n mod 10)])"

declare dec.simps [simp del]

definition dec_int :: "int \<Rightarrow> string" where
  "dec_int i = (if i < 0 then CHR ''-'' # dec (nat (- i)) else dec (nat i))"

definition to_string32 :: "u32 \<Rightarrow> string" where
  "to_string32 w = dec (unat w)"

definition to_string64 :: "u64 \<Rightarrow> string" where
  "to_string64 w = dec (unat w)"

subsection \<open>Printing then parsing\<close>

lemma dec_char_facts:
  assumes "n < 10"
  shows "ord_of (dec_char n) = 48 + n" "isdigit (dec_char n)" "digit_val (dec_char n) = Some n"
    "\<not> isspace (dec_char n)" "dec_char n \<noteq> NUL" "dec_char n \<noteq> CHR ''-''" "dec_char n \<noteq> CHR ''+''"
proof -
  show o: "ord_of (dec_char n) = 48 + n" using assms by (simp add: dec_char_def ord_of_char_of)
  show "isdigit (dec_char n)" "digit_val (dec_char n) = Some n" "\<not> isspace (dec_char n)"
    using assms by (simp_all add: isdigit_def digit_val_def isspace_def o)
  have "ord_of NUL = 0" "ord_of (CHR ''-'') = 45" "ord_of (CHR ''+'') = 43"
    by (simp_all add: ord_of_def NUL_def)
  with o show "dec_char n \<noteq> NUL" "dec_char n \<noteq> CHR ''-''" "dec_char n \<noteq> CHR ''+''" by auto
qed

lemma dec_digits: "c \<in> set (dec n) \<Longrightarrow> \<exists>d < 10. c = dec_char d"
proof (induction n rule: dec.induct)
  case (1 n)
  then show ?case
    by (cases "n < 10") (auto simp: dec.simps [of n] intro: exI [of _ "n mod 10"])
qed

lemma dec_not_Nil [simp]: "dec n \<noteq> []"
  by (subst dec.simps) simp

lemma digits_value_snoc: "digits_value b (ds @ [c]) = b * digits_value b ds + the (digit_val c)"
  by (simp add: digits_value_def)

lemma digits_value_dec: "digits_value 10 (dec n) = n"
proof (induction n rule: dec.induct)
  case (1 n)
  then show ?case
    by (cases "n < 10")
      (simp_all add: dec.simps [of n] digits_value_snoc dec_char_facts, simp add: digits_value_def dec_char_facts)
qed

lemma hd_dec: "0 < n \<Longrightarrow> hd (dec n) \<noteq> CHR ''0''"
proof (induction n rule: dec.induct)
  case (1 n)
  show ?case
  proof (cases "n < 10")
    case True
    have "ord_of (dec_char n) \<noteq> ord_of (CHR ''0'')"
      using True 1(2) by (simp add: dec_char_facts) (simp add: ord_of_def)
    with True show ?thesis by (auto simp: dec.simps [of n])
  next
    case False
    with 1 show ?thesis by (simp add: dec.simps [of n])
  qed
qed

lemma dec_plain:
  "c_str (dec n) = dec n" "dropWhile isspace (dec n) = dec n"
  "split_sign (dec n) = (False, dec n)" "takeWhile (is_digit_in 10) (dec n) = dec n"
proof -
  have all: "\<forall>c \<in> set (dec n). c \<noteq> NUL \<and> \<not> isspace c \<and> c \<noteq> CHR ''-'' \<and> c \<noteq> CHR ''+'' \<and> is_digit_in 10 c"
  proof
    fix c assume "c \<in> set (dec n)"
    then obtain d where "d < 10" "c = dec_char d" using dec_digits by blast
    then show "c \<noteq> NUL \<and> \<not> isspace c \<and> c \<noteq> CHR ''-'' \<and> c \<noteq> CHR ''+'' \<and> is_digit_in 10 c"
      by (simp add: dec_char_facts is_digit_in_def)
  qed
  then show "c_str (dec n) = dec n" by (auto intro: c_str_id)
  from all have "hd (dec n) \<in> set (dec n)" by simp
  with all have h: "\<not> isspace (hd (dec n))" "hd (dec n) \<noteq> CHR ''-''" "hd (dec n) \<noteq> CHR ''+''" by auto
  then show "dropWhile isspace (dec n) = dec n" by (cases "dec n") auto
  show "split_sign (dec n) = (False, dec n)" using h by (cases "dec n") (auto simp: split_sign_def)
  show "takeWhile (is_digit_in 10) (dec n) = dec n" using all by (auto simp: takeWhile_eq_all_conv)
qed

lemma scan_dec10: "scan_number 10 (dec n) = Some (False, n)"
  by (simp add: scan_number_def dec_plain split_base_def digits_value_dec)

lemma scan_dec0: "scan_number 0 (dec n) = Some (False, n)"
proof (cases "n = 0")
  case True
  have "ord_of (dec_char 0) = ord_of (CHR ''0'')"
    by (simp add: dec_char_facts) (simp add: ord_of_def)
  then have z: "dec 0 = [CHR ''0'']" by (simp add: dec.simps ord_of_eq_iff)
  have "is_digit_in 8 (CHR ''0'')" "digit_val (CHR ''0'') = Some 0"
    by (simp_all add: is_digit_in_def digit_val_def isdigit_def ord_of_def)
  then show ?thesis
    using dec_plain [of 0] True
    by (simp add: scan_number_def split_base_def has_hex_prefix_def digits_value_def z)
next
  case False
  then have h: "hd (dec n) \<noteq> CHR ''0''" by (simp add: hd_dec)
  then have "\<not> has_hex_prefix (dec n)"
    by (auto simp: has_hex_prefix_def hd_conv_nth)
  with h show ?thesis by (simp add: scan_number_def dec_plain split_base_def digits_value_dec)
qed

lemma stoul_to_string32 [simp]: "stoul 0 (to_string32 w) = Inr w"
  using unat_u32_less [of w]
  by (simp add: stoul_def parse_unsigned_def to_string32_def scan_dec0)

lemma stoull_to_string64 [simp]: "stoull 0 (to_string64 w) = Inr w"
  using unat_u64_less [of w]
  by (simp add: stoull_def parse_unsigned_def to_string64_def scan_dec0)

lemma stoi_dec: "n < 2 ^ 31 \<Longrightarrow> stoi (dec n) = Inr (int n)"
  by (simp add: stoi_def scan_dec10)

lemma stoul_error: "stoul b s = Inl e \<Longrightarrow> e = InvalidArgument \<or> e = OutOfRange"
  by (auto simp: stoul_def parse_unsigned_def split: option.splits if_splits)

lemma stoull_error: "stoull b s = Inl e \<Longrightarrow> e = InvalidArgument \<or> e = OutOfRange"
  by (auto simp: stoull_def parse_unsigned_def split: option.splits if_splits)

lemma stoi_error: "stoi s = Inl e \<Longrightarrow> e = InvalidArgument \<or> e = OutOfRange"
  by (auto simp: stoi_def Let_def split: option.splits if_splits)

lemma dec_inject [simp]: "dec m = dec n \<longleftrightarrow> m = n"
  by (metis digits_value_dec)

subsection \<open>Single-precision numbers as bit patterns\<close>

type_synonym f32 = u32

definition f32_magnitude :: "f32 \<Rightarrow> nat" where
  "f32_magnitude f = unat (f AND 0x7FFFFFFF)"

definition f32_is_nan :: "f32 \<Rightarrow> bool" where
  "f32_is_nan f \<longleftrightarrow> 0x7F800000 < f32_magnitude f"

definition f32_key :: "f32 \<Rightarrow> int" where
  "f32_key f = (if bit f 31 then - int (f32_magnitude f) else int (f32_magnitude f))"

definition f32_less :: "f32 \<Rightarrow> f32 \<Rightarrow> bool" where
  "f32_less f g \<longleftrightarrow> \<not> f32_is_nan f \<and> \<not> f32_is_nan g \<and> f32_key f < f32_key g"

definition f32_eq :: "f32 \<Rightarrow> f32 \<Rightarrow> bool" where
  "f32_eq f g \<longleftrightarrow> \<not> f32_is_nan f \<and> \<not> f32_is_nan g \<and> f32_key f = f32_key g"

text \<open>A float used as a condition.\<close>

definition f32_true :: "f32 \<Rightarrow> bool" where
  "f32_true f \<longleftrightarrow> f32_magnitude f \<noteq> 0"

end
