(* ===== verification/Session.thy ===== *)
theory Session
  imports Prelude
begin

text \<open>
  \<open>Blam/BlamNetwork.hpp\<close> and \<open>.cpp\<close>: the network session as the program's own routines read it.
  The routines of the game engine, called at fixed addresses, are not part of the source; their
  results are fields of the session: the peers and players \<open>FindFirstPeer\<close>/\<open>FindNextPeer\<close> and
  \<open>FindFirstPlayer\<close>/\<open>FindNextPlayer\<close> enumerate, the player \<open>GetPeerPlayer\<close> answers for a peer, and
  the two lookups of \<open>GetChannelPeer\<close>.
\<close>

text \<open>The maximum number of peers and of players in a session.\<close>

definition MaxPeers :: nat where [simp]: "MaxPeers = 17"

definition MaxPlayers :: nat where [simp]: "MaxPlayers = 16"

subsection \<open>Data\<close>

datatype PeerConnectionState =
    PeerNone
  | PeerRejoining
  | PeerReserved
  | PeerDisconnected
  | PeerConnected
  | PeerJoining
  | PeerJoined
  | PeerWaiting
  | PeerEstablished

definition peer_state_rank :: "PeerConnectionState \<Rightarrow> nat" where
  "peer_state_rank s = (case s of
     PeerNone \<Rightarrow> 0 | PeerRejoining \<Rightarrow> 1 | PeerReserved \<Rightarrow> 2 | PeerDisconnected \<Rightarrow> 3
   | PeerConnected \<Rightarrow> 4 | PeerJoining \<Rightarrow> 5 | PeerJoined \<Rightarrow> 6 | PeerWaiting \<Rightarrow> 7
   | PeerEstablished \<Rightarrow> 8)"

record PeerInfo =
  ConnectionState :: PeerConnectionState
  PlayerMask0 :: u32

record NetworkAddress =
  IPv4 :: u32
  Port :: u16
  AddressSize :: u16

record PlayerSession =
  PeerIndex :: int
  Uid :: u64
  DisplayName :: string
  TeamIndex :: int
  ClientTeamIndex :: int

record Session =
  SessionType :: int
  LocalPeerIndex :: int
  HostPeerIndex :: int
  Peers :: "PeerInfo list"
  PlayerSessions :: "PlayerSession list"
  PeerUnavailable :: "bool list"
  PeerChannelIndex :: "int list"
  Channels :: "NetworkAddress list"
  GameVariantTeamGame :: "u8 option"
  connected_peers :: "nat list"
  connected_players :: "nat list"
  peer_player :: "nat \<Rightarrow> int"
  channel_index :: "nat \<Rightarrow> int"
  index_peer :: "int \<Rightarrow> int"

subsection \<open>Operations\<close>

definition IsConnected :: "PeerInfo \<Rightarrow> bool" where
  "IsConnected p \<longleftrightarrow> 4 \<le> peer_state_rank (ConnectionState p)"

definition PeerIsEstablished :: "PeerInfo \<Rightarrow> bool" where
  "PeerIsEstablished p \<longleftrightarrow> 8 \<le> peer_state_rank (ConnectionState p)"

definition OwnsPlayer :: "PeerInfo \<Rightarrow> nat \<Rightarrow> bool" where
  "OwnsPlayer p playerIndex \<longleftrightarrow> PlayerMask0 p AND push_bit playerIndex 1 \<noteq> 0"

definition IsEstablished :: "Session \<Rightarrow> bool" where
  "IsEstablished s \<longleftrightarrow> 3 < SessionType s"

definition IsHost :: "Session \<Rightarrow> bool" where
  "IsHost s \<longleftrightarrow> SessionType s = 6 \<or> SessionType s = 7"

definition byteswap_ulong :: "u32 \<Rightarrow> u32" where
  "byteswap_ulong w =
     push_bit 24 (w AND 0xFF) OR push_bit 8 (w AND 0xFF00)
     OR drop_bit 8 (w AND 0xFF0000) OR drop_bit 24 (w AND 0xFF000000)"

definition FromInAddr :: "u32 \<Rightarrow> u16 \<Rightarrow> NetworkAddress" where
  "FromInAddr address port = \<lparr>IPv4 = byteswap_ulong address, Port = port, AddressSize = 4\<rparr>"

definition ToInAddr :: "NetworkAddress \<Rightarrow> u32" where
  "ToInAddr a = byteswap_ulong (IPv4 a)"

text \<open>Indexing an array of the session with a C \<open>int\<close>: undefined outside the array.\<close>

definition array_at :: "'a list \<Rightarrow> int \<Rightarrow> 'a res" where
  "array_at xs i = (if 0 \<le> i \<and> nat i < length xs then Inr (xs ! nat i) else Inl Undefined)"

definition GetPeerPlayer :: "Session \<Rightarrow> int \<Rightarrow> int res" where
  "GetPeerPlayer s peer = rbind (array_at (Peers s) peer) (\<lambda>_. Inr (peer_player s (nat peer)))"

definition GetPlayerPeer :: "Session \<Rightarrow> int \<Rightarrow> int" where
  "GetPlayerPeer s player =
     (if player < 0 \<or> int MaxPlayers \<le> player then - 1
      else PeerIndex (PlayerSessions s ! nat player))"

definition GetPeerTeam :: "Session \<Rightarrow> int \<Rightarrow> int res" where
  "GetPeerTeam s peer =
     rbind (GetPeerPlayer s peer) (\<lambda>playerIndex.
       if playerIndex < 0 then Inr (- 1)
       else rbind (array_at (PlayerSessions s) playerIndex) (\<lambda>p. Inr (TeamIndex p)))"

definition GetChannelPeer :: "Session \<Rightarrow> nat \<Rightarrow> int" where
  "GetChannelPeer s channel = (let index = channel_index s channel in
     if index < 0 then index else index_peer s index)"

definition HasTeams :: "Session \<Rightarrow> bool" where
  "HasTeams s = (case GameVariantTeamGame s of None \<Rightarrow> False | Some t \<Rightarrow> t AND 1 \<noteq> 0)"

definition loopback_address :: NetworkAddress where
  "loopback_address = FromInAddr 0x0100007F 11774"

definition GetPeerAddress :: "Session \<Rightarrow> int \<Rightarrow> NetworkAddress res" where
  "GetPeerAddress s peerIndex =
     (if peerIndex \<noteq> LocalPeerIndex s then
        rbind (array_at (PeerChannelIndex s) peerIndex) (\<lambda>channelIndex.
          if 0 \<le> channelIndex then array_at (Channels s) channelIndex
          else Inr loopback_address)
      else Inr loopback_address)"

subsection \<open>Well-formed sessions\<close>

text \<open>What the engine guarantees of the session: arrays at their declared sizes, enumerations and
  lookups that stay inside them, and channels that exist.\<close>

definition session_ok :: "Session \<Rightarrow> bool" where
  "session_ok s \<longleftrightarrow>
     length (Peers s) = MaxPeers \<and> length (PlayerSessions s) = MaxPlayers
   \<and> length (PeerUnavailable s) = MaxPeers \<and> length (PeerChannelIndex s) = MaxPeers
   \<and> (\<forall>c \<in> set (PeerChannelIndex s). c < int (length (Channels s)))
   \<and> distinct (connected_peers s) \<and> (\<forall>p \<in> set (connected_peers s). p < MaxPeers)
   \<and> distinct (connected_players s) \<and> (\<forall>p \<in> set (connected_players s). p < MaxPlayers)
   \<and> (\<forall>p \<in> set [0..<MaxPeers]. - 1 \<le> peer_player s p \<and> peer_player s p < int MaxPlayers)"

lemma array_at_ok: "0 \<le> i \<Longrightarrow> nat i < length xs \<Longrightarrow> array_at xs i = Inr (xs ! nat i)"
  by (simp add: array_at_def)

lemma array_at_nat: "n < length xs \<Longrightarrow> array_at xs (int n) = Inr (xs ! n)"
  by (simp add: array_at_def)

lemma peer_player_range:
  assumes "session_ok s" "p < MaxPeers"
  shows "- 1 \<le> peer_player s p" "peer_player s p < int MaxPlayers"
  using assms unfolding session_ok_def by auto

lemma GetPeerPlayer_ok:
  assumes "session_ok s" "0 \<le> peer" "peer < int MaxPeers"
  shows "GetPeerPlayer s peer = Inr (peer_player s (nat peer))"
  using assms by (simp add: GetPeerPlayer_def session_ok_def array_at_def)

lemma GetPeerTeam_ok:
  assumes "session_ok s" "p < MaxPeers"
  shows "GetPeerTeam s (int p) = Inr (if peer_player s p < 0 then - 1
    else TeamIndex (PlayerSessions s ! nat (peer_player s p)))"
proof -
  have "array_at (PlayerSessions s) (peer_player s p)
      = Inr (PlayerSessions s ! nat (peer_player s p))" if "0 \<le> peer_player s p"
    using assms(1) peer_player_range [OF assms] that
    by (intro array_at_ok) (auto simp: session_ok_def)
  with assms show ?thesis by (simp add: GetPeerTeam_def GetPeerPlayer_ok)
qed

lemma GetPeerAddress_ok:
  assumes "session_ok s" "p < MaxPeers"
  shows "is_ok (GetPeerAddress s (int p))"
proof -
  have "PeerChannelIndex s ! p < int (length (Channels s))"
    using assms unfolding session_ok_def by (metis nth_mem)
  then have "0 \<le> PeerChannelIndex s ! p \<Longrightarrow>
      array_at (Channels s) (PeerChannelIndex s ! p) = Inr (Channels s ! nat (PeerChannelIndex s ! p))"
    by (intro array_at_ok) auto
  moreover have "array_at (PeerChannelIndex s) (int p) = Inr (PeerChannelIndex s ! p)"
    using assms by (intro array_at_nat) (simp add: session_ok_def)
  ultimately show ?thesis by (simp add: GetPeerAddress_def)
qed

lemma bit_byteswap:
  assumes "n < 32"
  shows "bit (byteswap_ulong w) n = bit w (if n < 8 then n + 24 else if n < 16 then n + 8
           else if n < 24 then n - 8 else n - 24)"
proof -
  have "n \<in> {0, 1, 2, 3, 4, 5, 6, 7, 8, 9, 10, 11, 12, 13, 14, 15, 16, 17, 18, 19, 20, 21, 22, 23,
      24, 25, 26, 27, 28, 29, 30, 31}"
    using assms unfolding insert_iff empty_iff by arith
  then show ?thesis
    unfolding insert_iff empty_iff byteswap_ulong_def
    by (elim disjE) (simp_all add: bit_simps)
qed

lemma byteswap_involution: "byteswap_ulong (byteswap_ulong w) = w"
proof (rule bit_word_eqI)
  fix n assume "n < LENGTH(32)"
  then have "n = n mod 8 \<or> n = n mod 8 + 8 \<or> n = n mod 8 + 16 \<or> n = n mod 8 + 24"
    by simp presburger
  moreover have "n mod 8 < 8" by simp
  ultimately obtain k where "k < 8" "n = k \<or> n = k + 8 \<or> n = k + 16 \<or> n = k + 24" by blast
  then show "bit (byteswap_ulong (byteswap_ulong w)) n = bit w n"
    by (elim disjE) (simp_all add: bit_byteswap add.commute)
qed

lemma ToInAddr_FromInAddr: "ToInAddr (FromInAddr a p) = a"
  by (simp add: ToInAddr_def FromInAddr_def byteswap_involution)

lemma loopback_address_value: "IPv4 loopback_address = 0x7F000001"
  by (simp add: loopback_address_def FromInAddr_def byteswap_ulong_def)

text \<open>A session with one host and one remote player, used to instantiate the theorems.\<close>

definition demo_player :: "int \<Rightarrow> string \<Rightarrow> PlayerSession" where
  "demo_player peer nm = \<lparr>PeerIndex = peer, Uid = of_int (peer + 1), DisplayName = nm,
     TeamIndex = peer mod 2, ClientTeamIndex = 0\<rparr>"

definition demo_session :: Session where
  "demo_session = \<lparr>SessionType = 6, LocalPeerIndex = 0, HostPeerIndex = 0,
     Peers = replicate 17 \<lparr>ConnectionState = PeerEstablished, PlayerMask0 = 0\<rparr>,
     PlayerSessions = demo_player 0 ''Host'' # demo_player 1 ''Guest'' # replicate 14 (demo_player (- 1) ''''),
     PeerUnavailable = replicate 17 False,
     PeerChannelIndex = - 1 # 0 # replicate 15 (- 1),
     Channels = [FromInAddr 0x0200A8C0 11774],
     GameVariantTeamGame = Some 1,
     connected_peers = [0, 1], connected_players = [0, 1],
     peer_player = (\<lambda>p. if p < 2 then int p else - 1),
     channel_index = int, index_peer = (\<lambda>i. if i < 17 then i else - 1)\<rparr>"

lemma demo_session_ok: "session_ok demo_session"
  by (simp add: session_ok_def demo_session_def)

lemma demo_session_simps [simp]:
  "SessionType demo_session = 6" "LocalPeerIndex demo_session = 0" "HostPeerIndex demo_session = 0"
  "GameVariantTeamGame demo_session = Some 1"
  "connected_peers demo_session = [0, 1]" "connected_players demo_session = [0, 1]"
  "peer_player demo_session = (\<lambda>p. if p < 2 then int p else - 1)"
  "IsHost demo_session" "IsEstablished demo_session" "HasTeams demo_session"
  by (simp_all add: demo_session_def IsHost_def IsEstablished_def HasTeams_def)

end
