(* ===== verification/Registry.thy ===== *)
theory Registry
  imports Prelude
begin

text \<open>
  The contract of a registry: values are added under the keys they answer to, an addition is refused
  exactly when one of the keys is taken, and it changes the lookup of its own keys only. The command
  map, the table of custom packet types and the table of variable bindings of the program are
  registries in this sense; each interprets the locale in its own theory.
\<close>

locale registry =
  fixes lookup :: "'s \<Rightarrow> 'k \<Rightarrow> 'v option"
    and add :: "'s \<Rightarrow> 'v \<Rightarrow> 's option"
    and keys :: "'v \<Rightarrow> 'k set"
    and inv :: "'s \<Rightarrow> bool"
    and ok :: "'v \<Rightarrow> bool"
  assumes add_refused_iff: "inv s \<Longrightarrow> ok v \<Longrightarrow> add s v = None \<longleftrightarrow> (\<exists>k \<in> keys v. lookup s k \<noteq> None)"
    and lookup_add: "inv s \<Longrightarrow> ok v \<Longrightarrow> add s v = Some s' \<Longrightarrow>
      lookup s' k = (if k \<in> keys v then Some v else lookup s k)"
    and inv_add: "inv s \<Longrightarrow> ok v \<Longrightarrow> add s v = Some s' \<Longrightarrow> inv s'"
begin

text \<open>Adding values one after the other, where a refused value is skipped.\<close>

primrec add_each :: "'s \<Rightarrow> 'v list \<Rightarrow> 's" where
  "add_each s [] = s"
| "add_each s (v # vs) = add_each (case add s v of None \<Rightarrow> s | Some s' \<Rightarrow> s') vs"

lemma lookup_add_old:
  assumes "inv s" "ok v" "add s v = Some s'" "lookup s k = Some w"
  shows "lookup s' k = Some w"
proof -
  have "k \<notin> keys v" using add_refused_iff [OF assms(1,2)] assms(3,4) by auto
  then show ?thesis using lookup_add [OF assms(1-3), of k] assms(4) by simp
qed

lemma inv_add_each: "inv s \<Longrightarrow> \<forall>v \<in> set vs. ok v \<Longrightarrow> inv (add_each s vs)"
  by (induction vs arbitrary: s) (auto split: option.split intro: inv_add)

lemma add_each_keeps:
  "inv s \<Longrightarrow> \<forall>v \<in> set vs. ok v \<Longrightarrow> lookup s k = Some w \<Longrightarrow> lookup (add_each s vs) k = Some w"
proof (induction vs arbitrary: s)
  case (Cons v vs)
  then show ?case
    by (auto split: option.split intro!: Cons.IH intro: inv_add lookup_add_old)
qed simp

text \<open>The first value that answers to a key is the one found under it, whatever is added later.\<close>

lemma first_added_wins:
  assumes "inv s" "ok v" "add s v = Some s'" "k \<in> keys v" "\<forall>w \<in> set vs. ok w"
  shows "lookup (add_each s' vs) k = Some v"
  using assms lookup_add [OF assms(1-3), of k] inv_add [OF assms(1-3)] by (intro add_each_keeps) auto

end

end
