(* ===== verification/CommandMap.thy ===== *)
theory CommandMap
  imports Strings StdNum Session Registry "HOL-Library.Char_ord" "HOL-Library.List_Lexorder"
begin

text \<open>
  \<open>CommandMap.hpp\<close>, \<open>CommandMap.cpp\<close> and \<open>Modules/ModuleBase.cpp\<close>: the registry of console commands
  and variables, the splitting of a command line into arguments, and the execution of commands.
  A pointer to a command is its index in the deque (elements are only ever appended). The update
  event of a command is a handler identifier; what a handler does is a parameter \<open>disp\<close> of the
  routines that call it, which may change the whole state. \<open>std::stof\<close> and the printing of floats are
  parameters too.
\<close>

subsection \<open>Data\<close>

datatype VariableSetReturnValue = SetSuccess | SetError | SetOutOfRange | SetInvalidArgument

datatype CommandType =
    TypeCommand
  | TypeVariableInt
  | TypeVariableInt64
  | TypeVariableFloat
  | TypeVariableString

definition FlagsCheat :: u32 where "FlagsCheat = push_bit 0 1"
definition FlagsReplicated :: u32 where "FlagsReplicated = push_bit 1 1"
definition FlagsArchived :: u32 where "FlagsArchived = push_bit 2 1"
definition FlagsDontUpdateInitial :: u32 where "FlagsDontUpdateInitial = push_bit 3 1"
definition FlagsHidden :: u32 where "FlagsHidden = push_bit 4 1"
definition FlagsRunOnMainMenu :: u32 where "FlagsRunOnMainMenu = push_bit 5 1"
definition FlagsHostOnly :: u32 where "FlagsHostOnly = push_bit 6 1"
definition FlagsOmitValueInList :: u32 where "FlagsOmitValueInList = push_bit 7 1"
definition FlagsInternal :: u32 where "FlagsInternal = push_bit 8 1"
definition FlagsArgsNoParse :: u32 where "FlagsArgsNoParse = push_bit 9 1"

record 'h Command =
  Name :: string
  ModuleName :: string
  ShortName :: string
  Description :: string
  Flags :: u32
  Type :: CommandType
  UpdateEvent :: "'h option"
  ValueInt :: u32
  ValueInt64 :: u64
  ValueFloat :: f32
  ValueString :: string
  DefaultValueInt :: u32
  DefaultValueInt64 :: u64
  DefaultValueFloat :: f32
  DefaultValueString :: string
  ValueIntMin :: u32
  ValueIntMax :: u32
  ValueInt64Min :: u64
  ValueInt64Max :: u64
  ValueFloatMin :: f32
  ValueFloatMax :: f32
  CommandArgs :: "string list"

text \<open>The constructor initialises these members only; the others (the flags, the type and the whole
  64-bit group) keep what the memory held, the argument \<open>mem\<close>.\<close>

definition new_command :: "'h Command \<Rightarrow> 'h Command" where
  "new_command mem = mem\<lparr>Name := '''', ModuleName := '''', ShortName := '''', Description := '''',
     UpdateEvent := None, ValueInt := 0, ValueFloat := 0, ValueString := '''',
     DefaultValueInt := 0, DefaultValueFloat := 0, DefaultValueString := '''',
     ValueIntMin := 0, ValueIntMax := 0, ValueFloatMin := 0, ValueFloatMax := 0,
     CommandArgs := []\<rparr>"

record 'h MapState =
  Commands :: "'h Command list"
  queuedCommands :: "string list"
  GameHasMenuShown :: bool
  ActiveSession :: "Session option"

definition has_flag :: "'h Command \<Rightarrow> u32 \<Rightarrow> bool" where
  "has_flag c f \<longleftrightarrow> Flags c AND f \<noteq> 0"

definition endl :: string where "endl = [CHR 0x0A]"

subsection \<open>Registration and lookup\<close>

definition stricmp_eq :: "string \<Rightarrow> string \<Rightarrow> bool" where
  "stricmp_eq a b \<longleftrightarrow> map tolower (c_str a) = map tolower (c_str b)"

definition command_matches :: "string \<Rightarrow> 'h Command \<Rightarrow> bool" where
  "command_matches n c \<longleftrightarrow>
     (0 < length (Name c) \<and> stricmp_eq (Name c) n)
   \<or> (0 < length (ShortName c) \<and> stricmp_eq (ShortName c) n)"

definition FindCommand :: "'h Command list \<Rightarrow> string \<Rightarrow> nat option" where
  "FindCommand cmds n = find_index (command_matches n) cmds"

definition AddCommand :: "'h Command list \<Rightarrow> 'h Command \<Rightarrow> ('h Command list \<times> nat) option" where
  "AddCommand cmds command =
     (if FindCommand cmds (Name command) \<noteq> None \<or> FindCommand cmds (ShortName command) \<noteq> None
      then None else Some (cmds @ [command], length cmds))"

subsection \<open>Splitting a command line\<close>

text \<open>The locals of \<open>CommandLineToArgvA\<close>: the text written to \<open>_argv\<close> so far (\<open>j\<close> is its length)
  and the offsets stored in \<open>argv\<close> (\<open>argc\<close> is their number).\<close>

record ArgvState =
  out_text :: string
  arg_starts :: "nat list"
  in_QM :: bool
  in_TEXT :: bool
  in_SPACE :: bool

definition argv_init :: ArgvState where
  "argv_init = \<lparr>out_text = [], arg_starts = [], in_QM = False, in_TEXT = False, in_SPACE = True\<rparr>"

definition start_arg :: "ArgvState \<Rightarrow> ArgvState" where
  "start_arg s = (if in_SPACE s then s\<lparr>arg_starts := arg_starts s @ [length (out_text s)]\<rparr> else s)"

definition put_char :: "char \<Rightarrow> ArgvState \<Rightarrow> ArgvState" where
  "put_char a s = s\<lparr>out_text := out_text s @ [a]\<rparr>"

definition argv_blank :: "char \<Rightarrow> bool" where
  "argv_blank a \<longleftrightarrow> a = CHR '' '' \<or> a = CHR 0x09 \<or> a = CHR 0x0A \<or> a = CHR 0x0D"

definition argv_step :: "ArgvState \<Rightarrow> char \<Rightarrow> ArgvState" where
  "argv_step s a =
     (if in_QM s then
        (if a = CHR 0x22 then s\<lparr>in_QM := False\<rparr> else put_char a s)
      else if a = CHR 0x22 then
        (start_arg (s\<lparr>in_QM := True, in_TEXT := True\<rparr>))\<lparr>in_SPACE := False\<rparr>
      else if argv_blank a then
        (if in_TEXT s then put_char NUL s else s)\<lparr>in_TEXT := False, in_SPACE := True\<rparr>
      else
        (put_char a (start_arg (s\<lparr>in_TEXT := True\<rparr>)))\<lparr>in_SPACE := False\<rparr>)"

definition argv_scan :: "string \<Rightarrow> ArgvState" where
  "argv_scan CmdLine = foldl argv_step argv_init (c_str CmdLine)"

text \<open>What the caller sees: the C strings that start at the stored offsets.\<close>

definition CommandLineToArgvA :: "string \<Rightarrow> string list" where
  "CommandLineToArgvA CmdLine = (let s = argv_scan CmdLine; buf = out_text s @ [NUL] in
     map (\<lambda>i. c_str (drop i buf)) (arg_starts s))"

text \<open>The sizes of the two areas of the allocation, in elements: the pointers (the last one is the
  terminating null) and the characters.\<close>

definition argv_pointers :: "string \<Rightarrow> nat" where
  "argv_pointers CmdLine = (length (c_str CmdLine) + 2) div 2 + 1"

definition argv_chars :: "string \<Rightarrow> nat" where
  "argv_chars CmdLine = length (c_str CmdLine) + 2"

subsection \<open>Setting variables\<close>

record FloatOps =
  stof :: "string \<Rightarrow> f32 res"
  print_float :: "f32 \<Rightarrow> string"

definition catch_set :: "'a res \<Rightarrow> ('a \<Rightarrow> VariableSetReturnValue \<times> 'c) \<Rightarrow> 'c
    \<Rightarrow> (VariableSetReturnValue \<times> 'c) res" where
  "catch_set m f c = (case m of
     Inr v \<Rightarrow> Inr (f v)
   | Inl InvalidArgument \<Rightarrow> Inr (SetInvalidArgument, c)
   | Inl OutOfRange \<Rightarrow> Inr (SetInvalidArgument, c)
   | Inl e \<Rightarrow> Inl e)"

text \<open>\<open>SetVariable\<close> on a command: the return value, the command afterwards, and the previous value
  where it is written (\<open>None\<close> leaves the caller's string alone).\<close>

definition SetVariable :: "FloatOps \<Rightarrow> 'h Command \<Rightarrow> string
    \<Rightarrow> ((VariableSetReturnValue \<times> 'h Command) \<times> string option) res" where
  "SetVariable fo c v =
     (if has_flag c FlagsInternal then Inr ((SetError, c), None)
      else case Type c of
        TypeVariableString \<Rightarrow>
          Inr ((SetSuccess, c\<lparr>ValueString := v\<rparr>), Some (ValueString c))
      | TypeVariableInt \<Rightarrow>
          rbind (catch_set (stoul 0 v) (\<lambda>newValue.
            if (ValueIntMin c \<noteq> 0 \<or> ValueIntMax c \<noteq> 0)
               \<and> (newValue < ValueIntMin c \<or> ValueIntMax c < newValue)
            then (SetOutOfRange, c)
            else (SetSuccess, c\<lparr>ValueInt := newValue, ValueString := to_string32 newValue\<rparr>)) c)
          (\<lambda>r. Inr (r, Some (to_string32 (ValueInt c))))
      | TypeVariableInt64 \<Rightarrow>
          rbind (catch_set (stoull 0 v) (\<lambda>newValue.
            if (ValueInt64Min c \<noteq> 0 \<or> ValueInt64Max c \<noteq> 0)
               \<and> (newValue < ValueInt64Min c \<or> ValueInt64Max c < newValue)
            then (SetOutOfRange, c)
            else (SetSuccess, c\<lparr>ValueInt64 := newValue, ValueString := to_string64 newValue\<rparr>)) c)
          (\<lambda>r. Inr (r, Some (to_string32 (ValueInt c))))
      | TypeVariableFloat \<Rightarrow>
          rbind (catch_set (stof fo v) (\<lambda>newValue.
            if (f32_true (ValueFloatMin c) \<or> f32_true (ValueFloatMax c))
               \<and> (f32_less newValue (ValueFloatMin c) \<or> f32_less (ValueFloatMax c) newValue)
            then (SetOutOfRange, c)
            else (SetSuccess, c\<lparr>ValueFloat := newValue, ValueString := print_float fo newValue\<rparr>)) c)
          (\<lambda>r. Inr (r, Some (print_float fo (ValueFloat c))))
      | TypeCommand \<Rightarrow> Inr ((SetSuccess, c), None))"

definition set_command :: "nat \<Rightarrow> 'h Command \<Rightarrow> ('h, 'm) MapState_scheme \<Rightarrow> ('h, 'm) MapState_scheme" where
  "set_command i c s = s\<lparr>Commands := (Commands s)[i := c]\<rparr>"

text \<open>\<open>SetVariable\<close> by name.\<close>

definition SetVariableByName :: "FloatOps \<Rightarrow> ('h, 'm) MapState_scheme \<Rightarrow> string \<Rightarrow> string
    \<Rightarrow> (VariableSetReturnValue \<times> string option \<times> ('h, 'm) MapState_scheme) res" where
  "SetVariableByName fo s n v = (case FindCommand (Commands s) n of
     None \<Rightarrow> Inr (SetError, None, s)
   | Some i \<Rightarrow> rbind (SetVariable fo (Commands s ! i) v) (\<lambda>((r, c), prev).
       Inr (r, prev, set_command i c s)))"

definition GetVariable :: "CommandType \<Rightarrow> ('h Command \<Rightarrow> 'a) \<Rightarrow> 'h Command list \<Rightarrow> string \<Rightarrow> 'a option" where
  "GetVariable t get cmds n = (case FindCommand cmds n of
     None \<Rightarrow> None
   | Some i \<Rightarrow> if Type (cmds ! i) \<noteq> t then None else Some (get (cmds ! i)))"

definition GetVariableInt :: "'h Command list \<Rightarrow> string \<Rightarrow> u32 option" where
  "GetVariableInt = GetVariable TypeVariableInt ValueInt"

definition GetVariableInt64 :: "'h Command list \<Rightarrow> string \<Rightarrow> u64 option" where
  "GetVariableInt64 = GetVariable TypeVariableInt64 ValueInt64"

definition GetVariableFloat :: "'h Command list \<Rightarrow> string \<Rightarrow> f32 option" where
  "GetVariableFloat = GetVariable TypeVariableFloat ValueFloat"

definition GetVariableString :: "'h Command list \<Rightarrow> string \<Rightarrow> string option" where
  "GetVariableString = GetVariable TypeVariableString ValueString"

subsection \<open>Executing commands\<close>

type_synonym ('h, 'm) handlers =
  "'h \<Rightarrow> string list \<Rightarrow> string \<Rightarrow> ('h, 'm) MapState_scheme \<Rightarrow> (bool \<times> string \<times> ('h, 'm) MapState_scheme) res"

text \<open>Calling \<open>cmd->UpdateEvent\<close>: a call through a null pointer is undefined.\<close>

definition call_event :: "('h, 'm) handlers \<Rightarrow> 'h Command \<Rightarrow> string list \<Rightarrow> string
    \<Rightarrow> ('h, 'm) MapState_scheme \<Rightarrow> (bool \<times> string \<times> ('h, 'm) MapState_scheme) res" where
  "call_event disp cmd args output s = (case UpdateEvent cmd of
     None \<Rightarrow> Inl Undefined | Some h \<Rightarrow> disp h args output s)"

definition host_only_blocked :: "('h, 'm) MapState_scheme \<Rightarrow> 'h Command \<Rightarrow> bool" where
  "host_only_blocked s cmd \<longleftrightarrow>
     (has_flag cmd FlagsCheat \<or> has_flag cmd FlagsHostOnly)
   \<and> (case ActiveSession s of None \<Rightarrow> False | Some ses \<Rightarrow> IsEstablished ses \<and> \<not> IsHost ses)"

definition unparsed_args :: "string \<Rightarrow> string list \<Rightarrow> string list res" where
  "unparsed_args command args =
     (if 2 \<le> length args then
        (if length command < length (hd args) + 1 then Inl OutOfRange
         else Inr [drop (length (hd args) + 1) command])
      else Inr [])"

definition out_of_range_text :: "FloatOps \<Rightarrow> 'h Command \<Rightarrow> string \<Rightarrow> string" where
  "out_of_range_text fo cmd v =
     ''Value '' @ v @ '' out of range ['' @
     (case Type cmd of
        TypeVariableInt \<Rightarrow> to_string32 (ValueIntMin cmd) @ ''..'' @ to_string32 (ValueIntMax cmd) @ '']''
      | TypeVariableInt64 \<Rightarrow> to_string64 (ValueInt64Min cmd) @ ''..'' @ to_string64 (ValueInt64Max cmd) @ '']''
      | TypeVariableFloat \<Rightarrow> print_float fo (ValueFloatMin cmd) @ ''..'' @ print_float fo (ValueFloatMax cmd) @ '']''
      | _ \<Rightarrow> ''this shouldn't be happening!]'')"

text \<open>The end of \<open>ExecuteCommandWithStatus\<close>, after the variable was set: the update event, and the
  revert when it reports an error. The command is read again from the state the event leaves.\<close>

definition run_update_event :: "FloatOps \<Rightarrow> ('h, 'm) handlers \<Rightarrow> nat \<Rightarrow> string list \<Rightarrow> string
    \<Rightarrow> ('h, 'm) MapState_scheme \<Rightarrow> (bool \<times> string \<times> ('h, 'm) MapState_scheme) res" where
  "run_update_event fo disp i argsVect previousValue s =
     rbind (call_event disp (Commands s ! i) argsVect '''' s) (\<lambda>(ret, output, s').
     if length (Commands s') \<le> i then Inl Undefined else
     rbind (if ret then Inr s'
            else rbind (SetVariable fo (Commands s' ! i) previousValue) (\<lambda>((_, c), _).
              Inr (set_command i c s'))) (\<lambda>s''.
     Inr (ret,
          (if output = '''' then previousValue @ '' -> '' @ ValueString (Commands s'' ! i) else output),
          s'')))"

definition execute_variable :: "FloatOps \<Rightarrow> ('h, 'm) handlers \<Rightarrow> nat \<Rightarrow> string list
    \<Rightarrow> ('h, 'm) MapState_scheme \<Rightarrow> (bool \<times> string \<times> ('h, 'm) MapState_scheme) res" where
  "execute_variable fo disp i argsVect s = (let cmd = Commands s ! i in
     case argsVect of
       [] \<Rightarrow> Inr (True, ValueString cmd, s)
     | v # _ \<Rightarrow>
         rbind (SetVariable fo cmd v) (\<lambda>((updateRet, c), prev).
         let previousValue = (case prev of None \<Rightarrow> '''' | Some p \<Rightarrow> p);
             s1 = set_command i c s in
         case updateRet of
           SetError \<Rightarrow> Inr (False, ''Command/variable not found'', s1)
         | SetInvalidArgument \<Rightarrow> Inr (False, ''Invalid value'', s1)
         | SetOutOfRange \<Rightarrow> Inr (False, out_of_range_text fo c v, s1)
         | SetSuccess \<Rightarrow>
             (if UpdateEvent c = None
              then Inr (True, previousValue @ '' -> '' @ ValueString c, s1)
              else run_update_event fo disp i argsVect previousValue s1)))"

definition ExecuteCommandWithStatus :: "FloatOps \<Rightarrow> ('h, 'm) handlers \<Rightarrow> string \<Rightarrow> bool
    \<Rightarrow> ('h, 'm) MapState_scheme \<Rightarrow> (bool \<times> string \<times> ('h, 'm) MapState_scheme) res" where
  "ExecuteCommandWithStatus fo disp command isUserInput s =
     (let args = CommandLineToArgvA command in
      if args = [] then Inr (False, ''Invalid input'', s)
      else case FindCommand (Commands s) (hd args) of
        None \<Rightarrow> Inr (False, ''Command/Variable not found'', s)
      | Some i \<Rightarrow>
          (let cmd = Commands s ! i in
           if isUserInput \<and> has_flag cmd FlagsInternal
           then Inr (False, ''Command/Variable not found'', s)
           else if has_flag cmd FlagsRunOnMainMenu \<and> \<not> GameHasMenuShown s
           then Inr (True, ''Command queued until mainmenu shows'',
                     s\<lparr>queuedCommands := queuedCommands s @ [command]\<rparr>)
           else if host_only_blocked s cmd
           then Inr (False, ''Only a player hosting a game can use this command'', s)
           else if Type cmd = TypeCommand \<and> Flags cmd = FlagsArgsNoParse
           then rbind (unparsed_args command args) (\<lambda>argsVect. call_event disp cmd argsVect '''' s)
           else if Type cmd = TypeCommand then call_event disp cmd (tl args) '''' s
           else execute_variable fo disp i (tl args) s))"

definition ExecuteCommand :: "FloatOps \<Rightarrow> ('h, 'm) handlers \<Rightarrow> string \<Rightarrow> bool
    \<Rightarrow> ('h, 'm) MapState_scheme \<Rightarrow> (string \<times> ('h, 'm) MapState_scheme) res" where
  "ExecuteCommand fo disp command isUserInput s =
     rbind (ExecuteCommandWithStatus fo disp command isUserInput s) (\<lambda>(_, output, s'). Inr (output, s'))"

definition quote_args :: "string list \<Rightarrow> string" where
  "quote_args command = concat (map (\<lambda>cmd. CHR 0x22 # cmd @ [CHR 0x22, CHR '' '']) command)"

definition ExecuteCommandVector :: "FloatOps \<Rightarrow> ('h, 'm) handlers \<Rightarrow> string list \<Rightarrow> bool
    \<Rightarrow> ('h, 'm) MapState_scheme \<Rightarrow> (string \<times> ('h, 'm) MapState_scheme) res" where
  "ExecuteCommandVector fo disp command isUserInput s =
     ExecuteCommand fo disp (quote_args command) isUserInput s"

text \<open>The loop of \<open>ExecuteCommands\<close>: the error report so far and the index of the line.\<close>

fun execute_lines :: "FloatOps \<Rightarrow> ('h, 'm) handlers \<Rightarrow> bool \<Rightarrow> nat \<Rightarrow> string \<Rightarrow> string list
    \<Rightarrow> ('h, 'm) MapState_scheme \<Rightarrow> (string \<times> ('h, 'm) MapState_scheme) res" where
  "execute_lines fo disp isUserInput lineIdx ss [] s = Inr (ss, s)"
| "execute_lines fo disp isUserInput lineIdx ss (line # lines) s =
     rbind (ExecuteCommandWithStatus fo disp line isUserInput s) (\<lambda>(ok, _, s').
       execute_lines fo disp isUserInput (Suc lineIdx)
         (if ok then ss else ss @ ''Error at line '' @ dec lineIdx @ endl) lines s')"

definition ExecuteCommands :: "FloatOps \<Rightarrow> ('h, 'm) handlers \<Rightarrow> string \<Rightarrow> bool
    \<Rightarrow> ('h, 'm) MapState_scheme \<Rightarrow> (string \<times> ('h, 'm) MapState_scheme) res" where
  "ExecuteCommands fo disp commands isUserInput s =
     execute_lines fo disp isUserInput 0 '''' (getlines (CHR 0x0A) [] commands) s"

text \<open>\<open>ExecuteQueue\<close> walks the vector it may append to: when a command queues again, the iterators
  of the loop are invalid.\<close>

fun run_queue :: "FloatOps \<Rightarrow> ('h, 'm) handlers \<Rightarrow> nat \<Rightarrow> string \<Rightarrow> string list
    \<Rightarrow> ('h, 'm) MapState_scheme \<Rightarrow> (string \<times> ('h, 'm) MapState_scheme) res" where
  "run_queue fo disp n ss [] s = Inr (ss, s)"
| "run_queue fo disp n ss (cmd # cmds) s =
     rbind (ExecuteCommand fo disp cmd True s) (\<lambda>(output, s').
       if length (queuedCommands s') \<noteq> n then Inl Undefined
       else run_queue fo disp n (ss @ output @ endl) cmds s')"

definition ExecuteQueue :: "FloatOps \<Rightarrow> ('h, 'm) handlers \<Rightarrow> ('h, 'm) MapState_scheme
    \<Rightarrow> (string \<times> ('h, 'm) MapState_scheme) res" where
  "ExecuteQueue fo disp s =
     rbind (run_queue fo disp (length (queuedCommands s)) '''' (queuedCommands s) s)
       (\<lambda>(ss, s'). Inr (ss, s'\<lparr>queuedCommands := []\<rparr>))"

text \<open>\<open>FinishAddCommands\<close> copies each command in turn and calls its event without arguments.\<close>

fun finish_commands :: "('h, 'm) handlers \<Rightarrow> nat list \<Rightarrow> ('h, 'm) MapState_scheme \<Rightarrow> ('h, 'm) MapState_scheme res" where
  "finish_commands disp [] s = Inr s"
| "finish_commands disp (i # is) s = (let command = Commands s ! i in
     if Type command \<noteq> TypeCommand
        \<and> Flags command AND FlagsDontUpdateInitial \<noteq> FlagsDontUpdateInitial
        \<and> UpdateEvent command \<noteq> None
     then rbind (call_event disp command [] '''' s) (\<lambda>(_, _, s').
       if length (Commands s') \<noteq> length (Commands s) then Inl Undefined
       else finish_commands disp is s')
     else finish_commands disp is s)"

definition FinishAddCommands :: "('h, 'm) handlers \<Rightarrow> ('h, 'm) MapState_scheme \<Rightarrow> ('h, 'm) MapState_scheme res" where
  "FinishAddCommands disp s = finish_commands disp [0..<length (Commands s)] s"

subsection \<open>Printing\<close>

definition split_arg :: "string \<Rightarrow> string \<times> string" where
  "split_arg arg = (case str_find '' '' arg of
     None \<Rightarrow> (arg, '''')
   | Some nameEnd \<Rightarrow>
       (take nameEnd arg, if nameEnd + 1 < length arg then drop (nameEnd + 1) arg else ''''))"

definition type_name :: "CommandType \<Rightarrow> string" where
  "type_name t = (case t of
     TypeVariableInt \<Rightarrow> ''int'' | TypeVariableInt64 \<Rightarrow> ''int64'' | TypeVariableFloat \<Rightarrow> ''float''
   | TypeVariableString \<Rightarrow> ''string'' | TypeCommand \<Rightarrow> '''')"

definition CommandHelpText :: "'h Command \<Rightarrow> string" where
  "CommandHelpText c =
     Name c @ '' - '' @ Description c @ ''.'' @ endl @ ''Usage: '' @ Name c @ '' '' @
     (if Type c \<noteq> TypeCommand
      then ''<value('' @ type_name (Type c) @ '')>'' @ endl @ ''Current value: '' @ ValueString c @ endl @ endl
      else
        (let parts = map split_arg (CommandArgs c);
             descs = concat (map (\<lambda>(argname, argdesc).
               if argdesc = '''' then '''' else ''  '' @ argname @ '': '' @ argdesc @ endl) parts) in
         concat (map (\<lambda>(argname, _). ''<'' @ argname @ ''> '') parts) @ endl
         @ (if descs = '''' then endl else descs @ endl)))"

definition help_line :: "'h Command \<Rightarrow> string" where
  "help_line cmd = Name cmd
     @ (if Type cmd \<noteq> TypeCommand \<and> \<not> has_flag cmd FlagsOmitValueInList then '' '' @ ValueString cmd else '''')
     @ '' - '' @ Description cmd @ endl"

definition GenerateHelpText :: "'h Command list \<Rightarrow> string \<Rightarrow> string" where
  "GenerateHelpText cmds moduleFilter =
     (let shown = filter (\<lambda>cmd.
            \<not> (has_flag cmd FlagsHidden \<or> has_flag cmd FlagsInternal)
          \<and> \<not> (moduleFilter \<noteq> [] \<and> (ModuleName cmd = [] \<or> \<not> stricmp_eq (ModuleName cmd) moduleFilter)))
          (sort_key Name cmds) in
      concat (map help_line (filter (\<lambda>cmd. ModuleName cmd = []) shown))
      @ concat (map help_line (filter (\<lambda>cmd. ModuleName cmd \<noteq> []) shown)))"

definition saved_line :: "'h Command \<Rightarrow> string" where
  "saved_line cmd = Name cmd @ [CHR '' '', CHR 0x22] @ ValueString cmd @ [CHR 0x22] @ endl"

definition is_saved :: "'h Command \<Rightarrow> bool" where
  "is_saved cmd \<longleftrightarrow>
     \<not> (Type cmd = TypeCommand \<or> \<not> has_flag cmd FlagsArchived \<or> has_flag cmd FlagsInternal)"

definition SaveVariables :: "'h Command list \<Rightarrow> string" where
  "SaveVariables cmds = concat (map saved_line (filter is_saved cmds))"

subsection \<open>Registration by a module\<close>

definition full_name :: "string \<Rightarrow> string \<Rightarrow> string" where
  "full_name moduleName n = (if length moduleName \<le> 0 then n else moduleName @ ''.'' @ n)"

definition module_command :: "'h Command \<Rightarrow> string \<Rightarrow> string \<Rightarrow> string \<Rightarrow> string \<Rightarrow> u32 \<Rightarrow> 'h option
    \<Rightarrow> CommandType \<Rightarrow> 'h Command" where
  "module_command mem moduleName n shortName description flags updateEvent t =
     (new_command mem)\<lparr>Name := full_name moduleName n, ModuleName := moduleName,
        ShortName := shortName, Description := description, Flags := flags, Type := t,
        UpdateEvent := updateEvent\<rparr>"

definition ModuleAddCommand where
  "ModuleAddCommand cmds mem moduleName n shortName description flags updateEvent arguments =
     AddCommand cmds ((module_command mem moduleName n shortName description flags updateEvent TypeCommand)
       \<lparr>CommandArgs := arguments\<rparr>)"

definition ModuleAddVariableInt where
  "ModuleAddVariableInt cmds mem moduleName n shortName description flags defaultValue updateEvent =
     AddCommand cmds ((module_command mem moduleName n shortName description flags updateEvent TypeVariableInt)
       \<lparr>DefaultValueInt := defaultValue, ValueInt := defaultValue, ValueString := to_string32 defaultValue\<rparr>)"

definition ModuleAddVariableInt64 where
  "ModuleAddVariableInt64 cmds mem moduleName n shortName description flags defaultValue updateEvent =
     AddCommand cmds ((module_command mem moduleName n shortName description flags updateEvent TypeVariableInt64)
       \<lparr>DefaultValueInt64 := defaultValue, ValueInt64 := defaultValue, ValueString := to_string64 defaultValue\<rparr>)"

definition ModuleAddVariableFloat where
  "ModuleAddVariableFloat fo cmds mem moduleName n shortName description flags defaultValue updateEvent =
     AddCommand cmds ((module_command mem moduleName n shortName description flags updateEvent TypeVariableFloat)
       \<lparr>DefaultValueFloat := defaultValue, ValueFloat := defaultValue, ValueString := print_float fo defaultValue\<rparr>)"

definition ModuleAddVariableString where
  "ModuleAddVariableString cmds mem moduleName n shortName description flags defaultValue updateEvent =
     AddCommand cmds ((module_command mem moduleName n shortName description flags updateEvent TypeVariableString)
       \<lparr>DefaultValueString := defaultValue, ValueString := defaultValue\<rparr>)"

definition ModuleGetVariableInt :: "'h Command list \<Rightarrow> string \<Rightarrow> string \<Rightarrow> u32 option" where
  "ModuleGetVariableInt cmds moduleName n = GetVariableInt cmds (moduleName @ ''.'' @ n)"

definition ModuleGetVariableFloat :: "'h Command list \<Rightarrow> string \<Rightarrow> string \<Rightarrow> f32 option" where
  "ModuleGetVariableFloat cmds moduleName n = GetVariableFloat cmds (moduleName @ ''.'' @ n)"

definition ModuleGetVariableString :: "'h Command list \<Rightarrow> string \<Rightarrow> string \<Rightarrow> string option" where
  "ModuleGetVariableString cmds moduleName n = GetVariableString cmds (moduleName @ ''.'' @ n)"

subsection \<open>The command map as a registry\<close>

definition find_cmd :: "'h Command list \<Rightarrow> string \<Rightarrow> 'h Command option" where
  "find_cmd cmds n = map_option (\<lambda>i. cmds ! i) (FindCommand cmds n)"

definition add_cmd :: "'h Command list \<Rightarrow> 'h Command \<Rightarrow> 'h Command list option" where
  "add_cmd cmds c = map_option fst (AddCommand cmds c)"

definition command_keys :: "'h Command \<Rightarrow> string set" where
  "command_keys c = {n. command_matches n c}"

definition names_ok :: "'h Command \<Rightarrow> bool" where
  "names_ok c \<longleftrightarrow> c_str (Name c) \<noteq> [] \<and> (ShortName c \<noteq> [] \<longrightarrow> c_str (ShortName c) \<noteq> [])"

lemma FindCommand_snoc:
  "FindCommand (cmds @ [c]) n = (case FindCommand cmds n of
     Some i \<Rightarrow> Some i | None \<Rightarrow> if command_matches n c then Some (length cmds) else None)"
  by (auto simp: FindCommand_def find_index_append split: option.split)

lemma FindCommand_SomeD:
  "FindCommand cmds n = Some i \<Longrightarrow> i < length cmds \<and> command_matches n (cmds ! i)"
  using find_index_SomeD [of "command_matches n" cmds i] by (simp add: FindCommand_def)

lemma command_matches_cong: "stricmp_eq m n \<Longrightarrow> command_matches m c = command_matches n c"
  by (simp add: command_matches_def stricmp_eq_def)

lemma FindCommand_cong: "stricmp_eq m n \<Longrightarrow> FindCommand cmds m = FindCommand cmds n"
  unfolding FindCommand_def by (rule find_index_cong) (rule command_matches_cong)

lemma c_str_Nil [simp]: "c_str [] = []"
  by (simp add: c_str_def)

lemma FindCommand_empty: "\<forall>c \<in> set cmds. names_ok c \<Longrightarrow> FindCommand cmds [] = None"
  by (auto simp: FindCommand_def find_index_None_iff command_matches_def stricmp_eq_def names_ok_def)

lemma stricmp_eq_refl [simp]: "stricmp_eq n n"
  by (simp add: stricmp_eq_def)

lemma AddCommand_refused_iff:
  assumes "\<forall>c \<in> set cmds. names_ok c" "names_ok v"
  shows "AddCommand cmds v = None \<longleftrightarrow> (\<exists>k. command_matches k v \<and> FindCommand cmds k \<noteq> None)"
proof
  assume "AddCommand cmds v = None"
  then consider "FindCommand cmds (Name v) \<noteq> None" | "FindCommand cmds (ShortName v) \<noteq> None"
    by (auto simp: AddCommand_def split: if_splits)
  then show "\<exists>k. command_matches k v \<and> FindCommand cmds k \<noteq> None"
  proof cases
    case 1
    have "command_matches (Name v) v" using assms(2) by (auto simp: command_matches_def names_ok_def)
    with 1 show ?thesis by blast
  next
    case 2
    then have "ShortName v \<noteq> []" using FindCommand_empty [OF assms(1)] by auto
    then have "command_matches (ShortName v) v" by (simp add: command_matches_def)
    with 2 show ?thesis by blast
  qed
next
  assume "\<exists>k. command_matches k v \<and> FindCommand cmds k \<noteq> None"
  then obtain k where "command_matches k v" "FindCommand cmds k \<noteq> None" by blast
  then show "AddCommand cmds v = None"
    using FindCommand_cong [of "Name v" k cmds] FindCommand_cong [of "ShortName v" k cmds]
    by (auto simp: AddCommand_def command_matches_def)
qed

interpretation commands: registry find_cmd add_cmd command_keys "\<lambda>cmds. \<forall>c \<in> set cmds. names_ok c" names_ok
proof
  fix cmds :: "'h Command list" and v :: "'h Command"
  assume A: "\<forall>c \<in> set cmds. names_ok c" "names_ok v"
  show "add_cmd cmds v = None \<longleftrightarrow> (\<exists>k \<in> command_keys v. find_cmd cmds k \<noteq> None)"
    using AddCommand_refused_iff [OF A] by (simp add: add_cmd_def find_cmd_def command_keys_def)
next
  fix cmds cmds' :: "'h Command list" and v :: "'h Command" and k
  assume A: "\<forall>c \<in> set cmds. names_ok c" "names_ok v" and S: "add_cmd cmds v = Some cmds'"
  then have e: "cmds' = cmds @ [v]" "AddCommand cmds v \<noteq> None"
    by (auto simp: add_cmd_def AddCommand_def split: if_splits)
  then have "command_matches k v \<Longrightarrow> FindCommand cmds k = None"
    using AddCommand_refused_iff [OF A] by metis
  then show "find_cmd cmds' k = (if k \<in> command_keys v then Some v else find_cmd cmds k)"
    using FindCommand_SomeD [of cmds k]
    by (auto simp: find_cmd_def e FindCommand_snoc command_keys_def nth_append split: option.split)
  show "\<forall>c \<in> set cmds'. names_ok c" using A e by simp
qed

subsection \<open>Splitting a command line\<close>

lemmas argv_defs = argv_step_def start_arg_def put_char_def

lemma argv_step_bounds:
  assumes "length (out_text s) \<le> n" "2 * length (arg_starts s) \<le> n + (if in_SPACE s then 0 else 1)"
  shows "length (out_text (argv_step s a)) \<le> Suc n
    \<and> 2 * length (arg_starts (argv_step s a)) \<le> Suc n + (if in_SPACE (argv_step s a) then 0 else 1)"
  using assms by (auto simp: argv_defs)

lemma argv_fold_bounds:
  "length (out_text (foldl argv_step argv_init cs)) \<le> length cs
   \<and> 2 * length (arg_starts (foldl argv_step argv_init cs))
       \<le> length cs + (if in_SPACE (foldl argv_step argv_init cs) then 0 else 1)"
proof (induction cs rule: rev_induct)
  case (snoc a cs)
  then show ?case using argv_step_bounds [of "foldl argv_step argv_init cs" "length cs" a] by simp
qed (simp add: argv_init_def)

text \<open>C25. \<open>CommandLineToArgvA\<close> stays inside its allocation: after the last store, the pointers and
  the terminating null fit the pointer area, and the characters and the final NUL fit the text area,
  for every command line.\<close>

theorem CommandLineToArgvA_in_bounds:
  "length (arg_starts (argv_scan line)) + 1 \<le> argv_pointers line
   \<and> length (out_text (argv_scan line)) + 1 \<le> argv_chars line"
proof -
  note b = argv_fold_bounds [of "c_str line"]
  then have "2 * length (arg_starts (argv_scan line)) \<le> length (c_str line) + 1"
    by (auto simp: argv_scan_def split: if_splits)
  with b show ?thesis by (simp add: argv_scan_def argv_pointers_def argv_chars_def)
qed

text \<open>Between two arguments the scanner has written the finished ones, each with its NUL, and knows
  where each starts; inside an argument it has written a part of it after them.\<close>

definition offsets :: "string list \<Rightarrow> nat list" where
  "offsets toks = map (\<lambda>n. length (concat (map (\<lambda>t. t @ [NUL]) (take n toks)))) [0..<length toks]"

definition token_text :: "string list \<Rightarrow> string" where
  "token_text toks = concat (map (\<lambda>t. t @ [NUL]) toks)"

definition between :: "string list \<Rightarrow> ArgvState" where
  "between toks = \<lparr>out_text = token_text toks, arg_starts = offsets toks,
     in_QM = False, in_TEXT = False, in_SPACE = True\<rparr>"

definition inside :: "string list \<Rightarrow> string \<Rightarrow> bool \<Rightarrow> ArgvState" where
  "inside toks part q = \<lparr>out_text = token_text toks @ part,
     arg_starts = offsets toks @ [length (token_text toks)],
     in_QM = q, in_TEXT = True, in_SPACE = False\<rparr>"

lemma offsets_snoc: "offsets (toks @ [t]) = offsets toks @ [length (token_text toks)]"
  by (simp add: offsets_def token_text_def)

lemma argv_init_between: "argv_init = between []"
  by (simp add: argv_init_def between_def token_text_def offsets_def)

lemma step_open_quote: "argv_step (between toks) (CHR 0x22) = inside toks [] True"
  by (simp add: argv_defs between_def inside_def)

lemma step_quoted: "CHR 0x22 \<noteq> a \<Longrightarrow> argv_step (inside toks part True) a = inside toks (part @ [a]) True"
  by (auto simp: argv_defs inside_def)

lemma step_close_quote: "argv_step (inside toks part True) (CHR 0x22) = inside toks part False"
  by (simp add: argv_defs inside_def)

lemma step_blank: "argv_blank a \<Longrightarrow> argv_step (inside toks part False) a = between (toks @ [part])"
  by (auto simp: argv_defs inside_def between_def offsets_snoc token_text_def argv_blank_def)

lemma step_plain:
  assumes "a \<noteq> CHR 0x22" "\<not> argv_blank a"
  shows "argv_step (between toks) a = inside toks [a] False"
    "argv_step (inside toks part False) a = inside toks (part @ [a]) False"
  using assms by (simp_all add: argv_defs inside_def between_def)

lemma fold_quoted:
  "CHR 0x22 \<notin> set t \<Longrightarrow> foldl argv_step (inside toks part True) t = inside toks (part @ t) True"
  by (induction t arbitrary: part) (simp_all add: step_quoted)

lemma fold_plain:
  "\<forall>a \<in> set t. a \<noteq> CHR 0x22 \<and> \<not> argv_blank a \<Longrightarrow>
     foldl argv_step (inside toks part False) t = inside toks (part @ t) False"
  by (induction t arbitrary: part) (simp_all add: step_plain)

lemma fold_quoted_arg:
  "CHR 0x22 \<notin> set t \<Longrightarrow> argv_blank b \<Longrightarrow>
     foldl argv_step (between toks) (CHR 0x22 # t @ [CHR 0x22, b]) = between (toks @ [t])"
  by (simp add: step_open_quote fold_quoted step_close_quote step_blank)

lemma fold_plain_arg:
  assumes "t \<noteq> []" "\<forall>a \<in> set t. a \<noteq> CHR 0x22 \<and> \<not> argv_blank a" "argv_blank b"
  shows "foldl argv_step (between toks) (t @ [b]) = between (toks @ [t])"
  using assms by (cases t) (simp_all add: step_plain fold_plain step_blank)

lemma drop_token:
  assumes "n < length toks"
  shows "drop (length (token_text (take n toks))) (token_text toks)
       = toks ! n @ NUL # token_text (drop (Suc n) toks)"
proof -
  have "toks = take n toks @ toks ! n # drop (Suc n) toks"
    using assms by (rule id_take_nth_drop)
  then have "token_text toks = token_text (take n toks) @ toks ! n @ NUL # token_text (drop (Suc n) toks)"
    by (metis (no_types, lifting) append.assoc append_Cons append_Nil concat.simps(2) concat_append
        list.simps(9) map_append token_text_def)
  then show ?thesis by simp
qed

lemma read_tokens:
  assumes "\<forall>t \<in> set toks. NUL \<notin> set t"
  shows "map (\<lambda>i. c_str (drop i (token_text toks @ [NUL]))) (offsets toks) = toks"
proof (rule nth_equalityI)
  fix n assume "n < length (map (\<lambda>i. c_str (drop i (token_text toks @ [NUL]))) (offsets toks))"
  then have n: "n < length toks" by (simp add: offsets_def)
  have "drop (length (token_text (take n toks))) (token_text toks @ [NUL])
      = toks ! n @ NUL # token_text (drop (Suc n) toks) @ [NUL]"
  proof -
    have "length (token_text (take n toks)) \<le> length (token_text toks)"
      using drop_token [OF n] by (metis append_is_Nil_conv drop_all list.distinct(1) nle_le)
    then show ?thesis using drop_token [OF n] by simp
  qed
  moreover have "NUL \<notin> set (toks ! n)" using assms n by simp
  ultimately show "map (\<lambda>i. c_str (drop i (token_text toks @ [NUL]))) (offsets toks) ! n = toks ! n"
    using n by (simp add: offsets_def c_str_append_nul flip: token_text_def)
qed (simp add: offsets_def)

lemma CommandLineToArgvA_between:
  assumes "argv_scan line = between toks" "\<forall>t \<in> set toks. NUL \<notin> set t"
  shows "CommandLineToArgvA line = toks"
  using read_tokens [OF assms(2)] by (simp add: CommandLineToArgvA_def assms(1) between_def)

lemma quote_args_Cons: "quote_args (t # ts) = (CHR 0x22 # t @ [CHR 0x22, CHR '' '']) @ quote_args ts"
  by (simp add: quote_args_def)

lemma fold_quote_args:
  "\<forall>t \<in> set args. CHR 0x22 \<notin> set t \<Longrightarrow>
     foldl argv_step (between toks) (quote_args args) = between (toks @ args)"
proof (induction args arbitrary: toks)
  case (Cons t ts)
  have "argv_blank (CHR '' '')" by (simp add: argv_blank_def)
  from fold_quoted_arg [OF _ this, of t toks] Cons.prems
  have "foldl argv_step (between toks) (CHR 0x22 # t @ [CHR 0x22, CHR '' '']) = between (toks @ [t])"
    by simp
  with Cons show ?case
    unfolding quote_args_Cons foldl_append by simp
qed (simp add: quote_args_def)

lemma argv_quote_args:
  assumes "\<forall>t \<in> set args. CHR 0x22 \<notin> set t \<and> NUL \<notin> set t"
  shows "CommandLineToArgvA (quote_args args) = args"
proof (rule CommandLineToArgvA_between)
  have "c_str (quote_args args) = quote_args args"
    using assms by (intro c_str_id) (auto simp: quote_args_def NUL_def)
  then show "argv_scan (quote_args args) = between args"
    using assms fold_quote_args [of args "[]"] by (simp add: argv_scan_def argv_init_between)
qed (use assms in auto)

text \<open>C26. Quoting a list of arguments for \<open>ExecuteCommand\<close> and splitting the text again gives the
  same list, for arguments without quotes and NULs, empty arguments and blanks included.\<close>

theorem CommandLineToArgvA_quote_args:
  assumes "\<forall>t \<in> set args. CHR 0x22 \<notin> set t \<and> NUL \<notin> set t"
  shows "CommandLineToArgvA (quote_args args) = args"
  using assms by (rule argv_quote_args)

theorem CommandLineToArgvA_quote_args_witness:
  "CommandLineToArgvA (quote_args [''Server.Say'', ''two words'', '''']) = [''Server.Say'', ''two words'', '''']"
  by (rule CommandLineToArgvA_quote_args) (simp add: NUL_def)

text \<open>A line of a saved configuration splits into the name and the value of its variable.\<close>

lemma CommandLineToArgvA_saved_line:
  assumes "Name c \<noteq> []" "\<forall>a \<in> set (Name c). a \<noteq> CHR 0x22 \<and> a \<noteq> NUL \<and> \<not> argv_blank a"
    and "CHR 0x22 \<notin> set (ValueString c)" "NUL \<notin> set (ValueString c)"
  shows "CommandLineToArgvA (saved_line c) = [Name c, ValueString c]"
proof (rule CommandLineToArgvA_between)
  let ?v = "CHR 0x22 # ValueString c @ [CHR 0x22, CHR 0x0A]"
  have line: "saved_line c = (Name c @ [CHR '' '']) @ ?v"
    by (simp add: saved_line_def endl_def)
  have "c_str (saved_line c) = saved_line c"
    using assms by (intro c_str_id) (auto simp: line NUL_def)
  moreover have "foldl argv_step (between []) (Name c @ [CHR '' '']) = between ([] @ [Name c])"
    using assms(1,2) by (intro fold_plain_arg) (auto simp: argv_blank_def)
  moreover have "foldl argv_step (between [Name c]) ?v = between ([Name c] @ [ValueString c])"
    using assms(3) by (intro fold_quoted_arg) (auto simp: argv_blank_def)
  ultimately show "argv_scan (saved_line c) = between [Name c, ValueString c]"
    unfolding argv_scan_def line foldl_append argv_init_between by simp
qed (use assms in auto)

subsection \<open>The values of variables\<close>

definition int_in_range :: "'h Command \<Rightarrow> bool" where
  "int_in_range c \<longleftrightarrow> (ValueIntMin c = 0 \<and> ValueIntMax c = 0)
     \<or> (ValueIntMin c \<le> ValueInt c \<and> ValueInt c \<le> ValueIntMax c)"

definition int64_in_range :: "'h Command \<Rightarrow> bool" where
  "int64_in_range c \<longleftrightarrow> (ValueInt64Min c = 0 \<and> ValueInt64Max c = 0)
     \<or> (ValueInt64Min c \<le> ValueInt64 c \<and> ValueInt64 c \<le> ValueInt64Max c)"

definition float_in_range :: "'h Command \<Rightarrow> bool" where
  "float_in_range c \<longleftrightarrow> (\<not> f32_true (ValueFloatMin c) \<and> \<not> f32_true (ValueFloatMax c))
     \<or> (\<not> f32_less (ValueFloat c) (ValueFloatMin c) \<and> \<not> f32_less (ValueFloatMax c) (ValueFloat c))"

text \<open>The invariant of a variable: its value lies in its range, or is no number at all in the case of a float,
  and its text prints it.\<close>

definition command_ok :: "FloatOps \<Rightarrow> 'h Command \<Rightarrow> bool" where
  "command_ok fo c \<longleftrightarrow> (case Type c of
     TypeVariableInt \<Rightarrow> int_in_range c \<and> ValueString c = to_string32 (ValueInt c)
   | TypeVariableInt64 \<Rightarrow> int64_in_range c \<and> ValueString c = to_string64 (ValueInt64 c)
   | TypeVariableFloat \<Rightarrow> float_in_range c \<and> ValueString c = print_float fo (ValueFloat c)
   | _ \<Rightarrow> True)"

definition map_ok :: "FloatOps \<Rightarrow> ('h, 'm) MapState_scheme \<Rightarrow> bool" where
  "map_ok fo s \<longleftrightarrow> (\<forall>c \<in> set (Commands s). command_ok fo c)"

lemma catch_set_Inr:
  "catch_set m f c = Inr r \<longleftrightarrow> (case m of Inr v \<Rightarrow> r = f v
     | Inl e \<Rightarrow> (e = InvalidArgument \<or> e = OutOfRange) \<and> r = (SetInvalidArgument, c))"
  by (auto simp: catch_set_def split: sum.splits fault.splits)

lemma SetVariable_cases:
  assumes "SetVariable fo c v = Inr ((r, c'), prev)"
  shows "Type c' = Type c \<and> Flags c' = Flags c \<and> UpdateEvent c' = UpdateEvent c \<and> Name c' = Name c
     \<and> ShortName c' = ShortName c \<and> (r \<noteq> SetSuccess \<longrightarrow> c' = c)"
  using assms unfolding SetVariable_def
  by (auto simp: rbind_Inr_iff catch_set_Inr split: if_splits CommandType.splits sum.splits)

lemma SetVariable_command_ok:
  assumes "SetVariable fo c v = Inr ((r, c'), prev)" "command_ok fo c"
  shows "command_ok fo c'"
  using assms unfolding SetVariable_def command_ok_def
  by (auto simp: rbind_Inr_iff catch_set_Inr int_in_range_def int64_in_range_def float_in_range_def
      split: if_splits CommandType.splits sum.splits)

lemma map_ok_set_command:
  "map_ok fo s \<Longrightarrow> command_ok fo c \<Longrightarrow> map_ok fo (set_command i c s)"
  unfolding map_ok_def set_command_def using set_update_subset_insert by fastforce

lemma map_ok_nth: "map_ok fo s \<Longrightarrow> i < length (Commands s) \<Longrightarrow> command_ok fo (Commands s ! i)"
  by (simp add: map_ok_def)

lemma map_ok_set_variable:
  assumes "map_ok fo s" "i < length (Commands s)" "SetVariable fo (Commands s ! i) v = Inr ((r, c), prev)"
  shows "map_ok fo (set_command i c s)"
  using assms SetVariable_command_ok map_ok_set_command map_ok_nth by blast

definition events_keep :: "(('h, 'm) MapState_scheme \<Rightarrow> bool) \<Rightarrow> ('h, 'm) handlers \<Rightarrow> bool" where
  "events_keep P disp \<longleftrightarrow> (\<forall>h args out s b out' s'. P s \<longrightarrow> disp h args out s = Inr (b, out', s') \<longrightarrow> P s')"

lemma call_event_keep:
  "events_keep P disp \<Longrightarrow> P s \<Longrightarrow> call_event disp cmd args out s = Inr (b, out', s') \<Longrightarrow> P s'"
  unfolding events_keep_def call_event_def by (auto split: option.splits)

lemma execute_variable_result:
  assumes "execute_variable fo disp i args s = Inr (b, out, s')"
  shows "s' = s \<or> (\<exists>v r c prev. SetVariable fo (Commands s ! i) v = Inr ((r, c), prev)
    \<and> (s' = set_command i c s
      \<or> (\<exists>p. run_update_event fo disp i args p (set_command i c s) = Inr (b, out, s'))))"
proof (cases args)
  case (Cons v vs)
  with assms obtain r c prev where sv: "SetVariable fo (Commands s ! i) v = Inr ((r, c), prev)"
    by (auto simp: execute_variable_def rbind_Inr_iff)
  with assms Cons have "s' = set_command i c s \<or>
      (\<exists>p. run_update_event fo disp i args p (set_command i c s) = Inr (b, out, s'))"
    by (auto simp: execute_variable_def Let_def split: VariableSetReturnValue.splits if_splits)
  with sv show ?thesis by blast
qed (use assms in \<open>simp add: execute_variable_def\<close>)

text \<open>What executing commands keeps: a property of the state that setting a variable and queueing a line
  keep is kept by every command line, script and event, if the update events keep it.\<close>

locale execution_invariant =
  fixes fo :: FloatOps
    and P :: "('h, 'm) MapState_scheme \<Rightarrow> bool"
  assumes set_kept: "P s \<Longrightarrow> i < length (Commands s) \<Longrightarrow>
      SetVariable fo (Commands s ! i) v = Inr ((r, c), prev) \<Longrightarrow> P (set_command i c s)"
    and queue_kept: "P s \<Longrightarrow> \<not> GameHasMenuShown s \<Longrightarrow>
      P (s\<lparr>queuedCommands := queuedCommands s @ [line]\<rparr>)"
begin

lemma run_update_event_kept:
  assumes "events_keep P disp" "P s" "run_update_event fo disp i args prev s = Inr (b, out, s')"
  shows "P s'"
proof -
  from assms(3) obtain ret o1 s1 where c: "call_event disp (Commands s ! i) args '''' s = Inr (ret, o1, s1)"
    and i: "i < length (Commands s1)"
    and r: "(if ret then Inr s1 else rbind (SetVariable fo (Commands s1 ! i) prev)
        (\<lambda>((_, c), _). Inr (set_command i c s1))) = Inr s'"
    by (auto simp: run_update_event_def rbind_Inr_iff split: if_splits)
  have "P s1" using call_event_keep [OF assms(1,2) c] .
  with i r show ?thesis by (auto simp: rbind_Inr_iff split: if_splits intro: set_kept)
qed

lemma execute_variable_kept:
  assumes "events_keep P disp" "P s" "i < length (Commands s)"
    and "execute_variable fo disp i args s = Inr (b, out, s')"
  shows "P s'"
  using execute_variable_result [OF assms(4)] assms(2) set_kept [OF assms(2,3)]
    run_update_event_kept [OF assms(1)]
  by blast

lemma line_kept:
  assumes "events_keep P disp" "P s" "ExecuteCommandWithStatus fo disp line user s = Inr (b, out, s')"
  shows "P s'"
proof (cases "CommandLineToArgvA line = []")
  case True
  with assms show ?thesis by (simp add: ExecuteCommandWithStatus_def)
next
  case False
  show ?thesis
  proof (cases "FindCommand (Commands s) (hd (CommandLineToArgvA line))")
    case None
    with False assms show ?thesis by (simp add: ExecuteCommandWithStatus_def)
  next
    case (Some i)
    then have i: "i < length (Commands s)" using FindCommand_SomeD by blast
    from False Some assms(3) consider "s' = s"
      | "s' = s\<lparr>queuedCommands := queuedCommands s @ [line]\<rparr>" "\<not> GameHasMenuShown s"
      | a where "call_event disp (Commands s ! i) a '''' s = Inr (b, out, s')"
      | "execute_variable fo disp i (tl (CommandLineToArgvA line)) s = Inr (b, out, s')"
      by (auto simp: ExecuteCommandWithStatus_def Let_def rbind_Inr_iff split: if_splits)
    then show ?thesis
      using assms(2) call_event_keep [OF assms(1,2)] execute_variable_kept [OF assms(1,2) i] queue_kept
      by cases simp_all
  qed
qed

lemma command_kept:
  assumes "events_keep P disp" "P s" "ExecuteCommand fo disp line user s = Inr (out, s')"
  shows "P s'"
  using assms(3) line_kept [OF assms(1,2)] by (auto simp: ExecuteCommand_def rbind_Inr_iff)

lemma lines_kept:
  assumes "events_keep P disp" "P s" "execute_lines fo disp user n ss lines s = Inr (out, s')"
  shows "P s'"
  using assms(2,3)
proof (induction lines arbitrary: n ss s)
  case (Cons line lines)
  from Cons.prems(2) obtain b o1 s1 n' ss' where
    e: "ExecuteCommandWithStatus fo disp line user s = Inr (b, o1, s1)"
    and r: "execute_lines fo disp user n' ss' lines s1 = Inr (out, s')"
    by (auto simp: rbind_Inr_iff)
  from Cons.IH [OF line_kept [OF assms(1) Cons.prems(1) e] r] show ?case .
qed simp

end

interpretation well_formed: execution_invariant fo "map_ok fo" for fo
  by unfold_locales (rule map_ok_set_variable, assumption+, simp add: map_ok_def)

text \<open>C1. Executing a command line keeps the variables well-formed: whatever the line and whatever the
  outcome, every integer and float variable that has a range stays inside it (a float may also be no number)
  and the text of every number prints its value, if the update events, which may change any variable, keep that.\<close>

theorem ExecuteCommandWithStatus_map_ok:
  assumes "events_keep (map_ok fo) disp" "map_ok fo s"
    and "ExecuteCommandWithStatus fo disp line user s = Inr (b, out, s')"
  shows "map_ok fo s'"
  using assms by (rule well_formed.line_kept)

subsection \<open>Reverting a variable\<close>

definition rejects :: "('h, 'm) handlers \<Rightarrow> 'h \<Rightarrow> string list \<Rightarrow> bool" where
  "rejects disp h args \<longleftrightarrow> (\<forall>s. \<exists>out. disp h args '''' s = Inr (False, out, s))"

lemma rejectsE:
  assumes "rejects disp h args"
  obtains out where "disp h args '''' s = Inr (False, out, s)"
  using assms by (auto simp: rejects_def)

lemma set_command_twice [simp]: "set_command i c (set_command i c' s) = set_command i c s"
  by (simp add: set_command_def)

lemma set_command_same: "i < length (Commands s) \<Longrightarrow> set_command i (Commands s ! i) s = s"
  by (simp add: set_command_def)

lemma Commands_set_command:
  "i < length (Commands s) \<Longrightarrow> Commands (set_command i c s) ! i = c"
  "length (Commands (set_command i c s)) = length (Commands s)"
  by (simp_all add: set_command_def)

lemma run_update_event_rejected:
  assumes "rejects disp h args" "UpdateEvent c = Some h" "i < length (Commands s)"
    and "SetVariable fo c prev = Inr ((r, c'), p)"
  shows "\<exists>out. run_update_event fo disp i args prev (set_command i c s) = Inr (False, out, set_command i c' s)"
proof -
  obtain out where "disp h args '''' (set_command i c s) = Inr (False, out, set_command i c s)"
    using assms(1) by (rule rejectsE)
  with assms show ?thesis
    by (simp add: run_update_event_def call_event_def Commands_set_command)
qed

text \<open>Setting a variable and setting it back to the text that was printed before.\<close>

lemma SetVariable_back:
  assumes "SetVariable fo c v = Inr ((SetSuccess, c'), Some prev)" "command_ok fo c"
    and "Type c = TypeVariableInt \<or> Type c = TypeVariableString"
  shows "\<exists>p. SetVariable fo c' prev = Inr ((SetSuccess, c), p)"
proof (cases "Type c = TypeVariableInt")
  case True
  with assms(1) have c': "\<not> has_flag c FlagsInternal" "prev = to_string32 (ValueInt c)"
    "\<exists>n. c' = c\<lparr>ValueInt := n, ValueString := to_string32 n\<rparr>"
    by (auto simp: SetVariable_def rbind_Inr_iff catch_set_Inr split: if_splits sum.splits)
  with True assms(2) show ?thesis
    by (auto simp: SetVariable_def has_flag_def command_ok_def int_in_range_def catch_set_def not_less)
next
  case False
  with assms show ?thesis by (auto simp: SetVariable_def has_flag_def split: if_splits)
qed

lemma SetVariable_success_prev:
  assumes "SetVariable fo c v = Inr ((SetSuccess, c'), prev)" "Type c \<noteq> TypeCommand"
  shows "\<exists>p. prev = Some p"
  using assms unfolding SetVariable_def
  by (auto simp: rbind_Inr_iff split: if_splits CommandType.splits)

text \<open>The values a variable takes: those that parse, in its range if it has one.\<close>

definition accepted_value :: "FloatOps \<Rightarrow> 'h Command \<Rightarrow> string \<Rightarrow> bool" where
  "accepted_value fo c v = (case Type c of
     TypeVariableInt \<Rightarrow> (\<exists>n. stoul 0 v = Inr n \<and> int_in_range (c\<lparr>ValueInt := n\<rparr>))
   | TypeVariableInt64 \<Rightarrow> (\<exists>n. stoull 0 v = Inr n \<and> int64_in_range (c\<lparr>ValueInt64 := n\<rparr>))
   | TypeVariableFloat \<Rightarrow> (\<exists>n. stof fo v = Inr n \<and> float_in_range (c\<lparr>ValueFloat := n\<rparr>))
   | _ \<Rightarrow> True)"

lemma SetVariable_unaccepted:
  assumes "\<not> accepted_value fo c v" "\<And>e. stof fo v = Inl e \<Longrightarrow> e = InvalidArgument \<or> e = OutOfRange"
  shows "\<exists>r prev. SetVariable fo c v = Inr ((r, c), prev) \<and> r \<noteq> SetSuccess"
proof -
  have f: "catch_set (stof fo v) g d = (case stof fo v of Inr n \<Rightarrow> Inr (g n) | Inl _ \<Rightarrow> Inr (SetInvalidArgument, d))"
    for g :: "f32 \<Rightarrow> VariableSetReturnValue \<times> 'b Command" and d
    using assms(2) by (auto simp: catch_set_def split: sum.split fault.split)
  have u: "catch_set (stoul 0 v) g d = (case stoul 0 v of Inr n \<Rightarrow> Inr (g n) | Inl _ \<Rightarrow> Inr (SetInvalidArgument, d))"
    for g :: "u32 \<Rightarrow> VariableSetReturnValue \<times> 'b Command" and d
    using stoul_error [of 0 v] by (auto simp: catch_set_def split: sum.split fault.split)
  have l: "catch_set (stoull 0 v) g d = (case stoull 0 v of Inr n \<Rightarrow> Inr (g n) | Inl _ \<Rightarrow> Inr (SetInvalidArgument, d))"
    for g :: "u64 \<Rightarrow> VariableSetReturnValue \<times> 'b Command" and d
    using stoull_error [of 0 v] by (auto simp: catch_set_def split: sum.split fault.split)
  show ?thesis
    using assms(1) unfolding SetVariable_def f u l
    by (auto simp: accepted_value_def int_in_range_def int64_in_range_def float_in_range_def not_less
        split: CommandType.splits sum.splits)
qed

text \<open>C2. A rejected change has no effect. A value that does not parse or is out of the variable's range leaves the
  whole state as it was, whatever the update event would do, which is not called; and when the update
  event of an integer or string variable reports an error, the whole state, the value and its
  text included, is as before. In both cases the command fails.\<close>

theorem rejected_update_restores:
  assumes "i < length (Commands s)" "command_ok fo (Commands s ! i)" "Type (Commands s ! i) \<noteq> TypeCommand"
    and "\<And>e. stof fo v = Inl e \<Longrightarrow> e = InvalidArgument \<or> e = OutOfRange"
    and "\<not> accepted_value fo (Commands s ! i) v
      \<or> (\<exists>h. UpdateEvent (Commands s ! i) = Some h \<and> rejects disp h (v # vs)
        \<and> (Type (Commands s ! i) = TypeVariableInt \<or> Type (Commands s ! i) = TypeVariableString))"
  shows "\<exists>out. execute_variable fo disp i (v # vs) s = Inr (False, out, s)"
proof -
  let ?c = "Commands s ! i"
  have kept: ?thesis if "SetVariable fo ?c v = Inr ((r, ?c), prev)" "r \<noteq> SetSuccess" for r prev
    using that set_command_same [OF assms(1)] by (cases r) (auto simp: execute_variable_def)
  show ?thesis
  proof (cases "accepted_value fo ?c v")
    case False
    then show ?thesis using SetVariable_unaccepted [OF _ assms(4)] kept by blast
  next
    case True
    with assms(5) obtain h where h: "UpdateEvent ?c = Some h" "rejects disp h (v # vs)"
      "Type ?c = TypeVariableInt \<or> Type ?c = TypeVariableString" by blast
    have "\<exists>r c prev. SetVariable fo ?c v = Inr ((r, c), prev)"
      using h(3) stoul_error [of 0 v]
      by (cases "stoul 0 v") (auto simp: SetVariable_def catch_set_def split: fault.splits)
    then obtain r c prev where sv: "SetVariable fo ?c v = Inr ((r, c), prev)" by blast
    note same = SetVariable_cases [OF sv]
    show ?thesis
    proof (cases "r = SetSuccess")
      case True
      obtain p where p: "prev = Some p"
        using SetVariable_success_prev [OF sv [unfolded True] assms(3)] by blast
      obtain q where q: "SetVariable fo c p = Inr ((SetSuccess, ?c), q)"
        using SetVariable_back [OF sv [unfolded True p] assms(2) h(3)] by blast
      have "UpdateEvent c = Some h" using same h(1) by simp
      from run_update_event_rejected [OF h(2) this assms(1) q]
      show ?thesis
        using True p same h(1) set_command_same [OF assms(1)] by (auto simp: execute_variable_def sv)
    next
      case False
      then show ?thesis using kept sv same by blast
    qed
  qed
qed

text \<open>A variable with a handler that rejects every change, used to instantiate the theorems.\<close>

definition reject_all :: "('h, 'm) handlers" where
  "reject_all h args out s = Inr (False, ''rejected'', s)"

definition accept_all :: "('h, 'm) handlers" where
  "accept_all h args out s = Inr (True, [], s)"

definition demo_floats :: FloatOps where
  "demo_floats = \<lparr>stof = (\<lambda>s. stoul 0 s), print_float = to_string32\<rparr>"

definition demo_command :: "string \<Rightarrow> CommandType \<Rightarrow> u32 \<Rightarrow> unit Command" where
  "demo_command n t flags = \<lparr>Name = n, ModuleName = '''', ShortName = '''', Description = '''',
     Flags = flags, Type = t, UpdateEvent = Some (), ValueInt = 5, ValueInt64 = 7, ValueFloat = 0,
     ValueString = (if t = TypeVariableInt64 then ''7'' else ''5''), DefaultValueInt = 5,
     DefaultValueInt64 = 7, DefaultValueFloat = 0, DefaultValueString = '''',
     ValueIntMin = 1, ValueIntMax = 10, ValueInt64Min = 0, ValueInt64Max = 0,
     ValueFloatMin = 0, ValueFloatMax = 0, CommandArgs = []\<rparr>"

definition demo_map :: "unit Command list \<Rightarrow> unit MapState" where
  "demo_map cmds = \<lparr>Commands = cmds, queuedCommands = [], GameHasMenuShown = True,
     ActiveSession = Some demo_session\<rparr>"

lemma dec_digit: "n < 10 \<Longrightarrow> dec n = [dec_char n]"
  by (simp add: dec.simps)

lemma demo_texts: "to_string32 5 = ''5''" "to_string64 7 = ''7''"
proof -
  have "ord_of (dec_char 5) = ord_of (CHR ''5'')" "ord_of (dec_char 7) = ord_of (CHR ''7'')"
    using dec_char_facts(1) [of 5] dec_char_facts(1) [of 7] by (simp_all, simp_all add: ord_of_def)
  then show "to_string32 5 = ''5''" "to_string64 7 = ''7''"
    by (simp_all add: to_string32_def to_string64_def dec_digit ord_of_eq_iff)
qed

lemma reject_all_rejects: "rejects reject_all h args"
  by (simp add: rejects_def reject_all_def)

lemma reject_all_keeps: "events_keep P reject_all"
  by (simp add: events_keep_def reject_all_def)

lemma accept_all_keeps: "events_keep P accept_all"
  by (simp add: events_keep_def accept_all_def)

lemma demo_command_ok: "command_ok demo_floats (demo_command n TypeVariableInt f)"
  by (simp add: command_ok_def demo_command_def int_in_range_def demo_texts)

lemma stoul_digit: "n < 10 \<Longrightarrow> stoul 0 [dec_char n] = Inr (of_nat n)"
  using scan_dec0 [of n] by (simp add: stoul_def parse_unsigned_def dec_digit)

theorem rejected_update_restores_witness:
  "(\<exists>out. execute_variable demo_floats reject_all 0 [''8'']
      (demo_map [demo_command ''Server.MaxPlayers'' TypeVariableInt 0])
    = Inr (False, out, demo_map [demo_command ''Server.MaxPlayers'' TypeVariableInt 0]))
   \<and> (\<exists>out. execute_variable demo_floats accept_all 0 [''x'']
      (demo_map [demo_command ''Server.MaxPlayers'' TypeVariableInt 0])
    = Inr (False, out, demo_map [demo_command ''Server.MaxPlayers'' TypeVariableInt 0]))"
proof
  let ?s = "demo_map [demo_command ''Server.MaxPlayers'' TypeVariableInt 0]"
  have e: "stof demo_floats v = Inl e \<Longrightarrow> e = InvalidArgument \<or> e = OutOfRange" for v e
    using stoul_error [of 0 v] by (simp add: demo_floats_def)
  have ok: "0 < length (Commands ?s)" "command_ok demo_floats (Commands ?s ! 0)" "Type (Commands ?s ! 0) \<noteq> TypeCommand"
    by (simp_all add: demo_map_def demo_command_ok, simp add: demo_command_def)
  show "\<exists>out. execute_variable demo_floats reject_all 0 [''8''] ?s = Inr (False, out, ?s)"
    by (rule rejected_update_restores [OF ok e])
      (auto simp: reject_all_rejects demo_map_def demo_command_def)
  have "stoul 0 ''x'' = Inl InvalidArgument" by code_simp
  then have "\<not> accepted_value demo_floats (Commands ?s ! 0) ''x''"
    by (simp add: accepted_value_def demo_map_def demo_command_def)
  then show "\<exists>out. execute_variable demo_floats accept_all 0 [''x''] ?s = Inr (False, out, ?s)"
    by (intro rejected_update_restores [OF ok e]) blast+
qed

lemma unat_widen: "unat (ucast (w::u32) :: u64) = unat w"
proof -
  have "take_bit 64 (unat w) = unat w"
    using unat_u32_less [of w] by (intro take_bit_nat_eq_self) simp
  then show ?thesis by (simp add: unsigned_ucast_eq)
qed

text \<open>C24. The revert of a 64-bit variable is wrong: after its update event rejected the change, an
  unbounded 64-bit variable holds the value of its unused 32-bit field, whatever it held before.\<close>

theorem Int64_revert_takes_int32:
  assumes "i < length (Commands s)" "Type (Commands s ! i) = TypeVariableInt64"
    and "\<not> has_flag (Commands s ! i) FlagsInternal"
    and "ValueInt64Min (Commands s ! i) = 0" "ValueInt64Max (Commands s ! i) = 0"
    and "UpdateEvent (Commands s ! i) = Some h" "rejects disp h (v # vs)" "stoull 0 v = Inr new"
  shows "\<exists>out s'. execute_variable fo disp i (v # vs) s = Inr (False, out, s')
    \<and> ValueInt64 (Commands s' ! i) = of_nat (unat (ValueInt (Commands s ! i)))"
proof -
  let ?c = "Commands s ! i"
  let ?old = "of_nat (unat (ValueInt ?c)) :: u64"
  let ?new = "?c\<lparr>ValueInt64 := new, ValueString := to_string64 new\<rparr>"
  have printed: "to_string32 (ValueInt ?c) = to_string64 ?old"
    by (simp add: to_string32_def to_string64_def unat_widen)
  have sv: "SetVariable fo ?c v = Inr ((SetSuccess, ?new), Some (to_string32 (ValueInt ?c)))"
    using assms by (simp add: SetVariable_def catch_set_def)
  have "SetVariable fo ?new (to_string32 (ValueInt ?c))
      = Inr ((SetSuccess, ?new\<lparr>ValueInt64 := ?old, ValueString := to_string64 ?old\<rparr>),
             Some (to_string32 (ValueInt ?c)))"
    unfolding printed using assms by (simp add: SetVariable_def catch_set_def has_flag_def printed)
  from run_update_event_rejected [OF assms(7) _ assms(1) this] assms(6)
  obtain out where "run_update_event fo disp i (v # vs) (to_string32 (ValueInt ?c)) (set_command i ?new s)
      = Inr (False, out, set_command i (?new\<lparr>ValueInt64 := ?old, ValueString := to_string64 ?old\<rparr>) s)"
    by auto
  then show ?thesis
    using sv assms(1,6) by (simp add: execute_variable_def Commands_set_command)
qed

lemma stoull_digit: "n < 10 \<Longrightarrow> stoull 0 [dec_char n] = Inr (of_nat n)"
  using scan_dec0 [of n] by (simp add: stoull_def parse_unsigned_def dec_digit)

theorem Int64_revert_takes_int32_witness:
  "\<exists>out s'. execute_variable demo_floats reject_all 0 [[dec_char 9]]
      (demo_map [demo_command ''Server.Id'' TypeVariableInt64 0]) = Inr (False, out, s')
    \<and> ValueInt64 (Commands s' ! 0)
      = of_nat (unat (ValueInt (Commands (demo_map [demo_command ''Server.Id'' TypeVariableInt64 0]) ! 0)))"
  by (rule Int64_revert_takes_int32 [where h = "()" and new = 9])
    (simp_all add: demo_map_def demo_command_def has_flag_def reject_all_rejects stoull_digit)

theorem ExecuteCommandWithStatus_map_ok_witness:
  "\<exists>out s'. ExecuteCommandWithStatus demo_floats accept_all (quote_args [''X'', ''8'']) True
       (demo_map [demo_command ''X'' TypeVariableInt 0]) = Inr (True, out, s')
     \<and> ValueInt (Commands s' ! 0) = 8 \<and> map_ok demo_floats s'"
proof -
  let ?c = "demo_command ''X'' TypeVariableInt 0" and ?line = "quote_args [''X'', ''8'']"
  let ?s = "demo_map [?c]" and ?d = "?c\<lparr>ValueInt := 8, ValueString := to_string32 8\<rparr>"
  have ok: "map_ok demo_floats ?s" by (simp add: map_ok_def demo_map_def demo_command_ok)
  have args: "CommandLineToArgvA ?line = [''X'', ''8'']"
    by (rule argv_quote_args) (simp add: NUL_def)
  have cmds: "Commands ?s = [?c]" by (simp add: demo_map_def)
  have c: "Flags ?c = 0" "Type ?c = TypeVariableInt" "Name ?c = ''X''" "UpdateEvent ?c = Some ()"
    "ValueIntMin ?c = 1" "ValueIntMax ?c = 10"
    by (simp_all add: demo_command_def)
  have "ord_of (dec_char 8) = ord_of (CHR ''8'')" using dec_char_facts(1) [of 8] by (simp, simp add: ord_of_def)
  then have "''8'' = [dec_char 8]" by (simp add: ord_of_eq_iff)
  then have "stoul 0 ''8'' = Inr 8" using stoul_digit [of 8] by simp
  then have sv: "SetVariable demo_floats ?c ''8'' = Inr ((SetSuccess, ?d), Some (to_string32 (ValueInt ?c)))"
    by (simp add: SetVariable_def has_flag_def c catch_set_def)
  have ev: "\<exists>out. execute_variable demo_floats accept_all 0 [''8''] ?s = Inr (True, out, set_command 0 ?d ?s)"
    using c(4) by (simp add: execute_variable_def cmds sv run_update_event_def call_event_def accept_all_def
        set_command_def Let_def)
  have "FindCommand (Commands ?s) ''X'' = Some 0"
    by (simp add: FindCommand_def cmds command_matches_def c)
  then have "ExecuteCommandWithStatus demo_floats accept_all ?line True ?s
      = execute_variable demo_floats accept_all 0 [''8''] ?s"
    unfolding ExecuteCommandWithStatus_def args by (simp add: cmds has_flag_def host_only_blocked_def c)
  with ev obtain out where e: "ExecuteCommandWithStatus demo_floats accept_all ?line True ?s = Inr (True, out, set_command 0 ?d ?s)"
    by auto
  have "ValueInt (Commands (set_command 0 ?d ?s) ! 0) = 8" by (simp add: Commands_set_command cmds)
  with ExecuteCommandWithStatus_map_ok [OF accept_all_keeps ok e] e show ?thesis by blast
qed

subsection \<open>Internal variables\<close>

definition internals :: "('h, 'm) MapState_scheme \<Rightarrow> 'h Command list" where
  "internals s = filter (\<lambda>c. has_flag c FlagsInternal) (Commands s)"

lemma filter_update_neither:
  "\<not> P c \<Longrightarrow> (i < length xs \<Longrightarrow> \<not> P (xs ! i)) \<Longrightarrow> filter P (xs[i := c]) = filter P xs"
proof (induction xs arbitrary: i)
  case (Cons x xs)
  then show ?case by (cases i) auto
qed simp

lemma internals_set_command:
  assumes "i < length (Commands s)" "SetVariable fo (Commands s ! i) v = Inr ((r, c), prev)"
  shows "internals (set_command i c s) = internals s"
proof (cases "has_flag (Commands s ! i) FlagsInternal")
  case True
  with assms have "c = Commands s ! i" by (simp add: SetVariable_def)
  then show ?thesis using set_command_same [OF assms(1)] by simp
next
  case False
  have "\<not> has_flag c FlagsInternal" using SetVariable_cases [OF assms(2)] False by (simp add: has_flag_def)
  with False show ?thesis by (simp add: internals_def set_command_def filter_update_neither)
qed

interpretation internals_fixed: execution_invariant fo "\<lambda>s. internals s = k" for fo k
  by unfold_locales (simp add: internals_set_command, simp add: internals_def)

text \<open>C27. No script changes an internal variable, not even one the program runs itself: executing any
  sequence of lines, as user input or not, leaves every internal command and variable as it was, if
  the update events do.\<close>

theorem ExecuteCommands_internals:
  assumes "events_keep (\<lambda>t. internals t = internals s) disp"
    and "ExecuteCommands fo disp script user s = Inr (out, s')"
  shows "internals s' = internals s"
  using internals_fixed.lines_kept [OF assms(1) refl] assms(2) by (simp add: ExecuteCommands_def)

theorem ExecuteCommands_internals_witness:
  "\<exists>out s'. ExecuteCommands demo_floats reject_all (quote_args [''X'', ''3'']) True
       (demo_map [demo_command ''X'' TypeVariableInt 0x100]) = Inr (out, s')
     \<and> internals s' = internals (demo_map [demo_command ''X'' TypeVariableInt 0x100])"
proof -
  let ?s = "demo_map [demo_command ''X'' TypeVariableInt 0x100]"
  have "CommandLineToArgvA (quote_args [''X'', ''3'']) = [''X'', ''3'']"
    by (rule argv_quote_args) (simp add: NUL_def)
  then have e: "ExecuteCommands demo_floats reject_all (quote_args [''X'', ''3'']) True ?s
      = Inr (''Error at line '' @ dec 0 @ endl, ?s)"
    by (simp add: quote_args_def ExecuteCommands_def ExecuteCommandWithStatus_def FindCommand_def
        demo_map_def demo_command_def command_matches_def has_flag_def FlagsInternal_def)
  with ExecuteCommands_internals [OF reject_all_keeps e] show ?thesis by blast
qed

subsection \<open>The queue\<close>

text \<open>The queued lines executed one after the other, as user input.\<close>

fun execute_each :: "FloatOps \<Rightarrow> ('h, 'm) handlers \<Rightarrow> string list \<Rightarrow> ('h, 'm) MapState_scheme
    \<Rightarrow> (string list \<times> ('h, 'm) MapState_scheme) res" where
  "execute_each fo disp [] s = Inr ([], s)"
| "execute_each fo disp (line # lines) s =
     rbind (ExecuteCommand fo disp line True s) (\<lambda>(out, s').
     rbind (execute_each fo disp lines s') (\<lambda>(outs, s''). Inr (out # outs, s'')))"

definition queue_frozen :: "string list \<Rightarrow> ('h, 'm) MapState_scheme \<Rightarrow> bool" where
  "queue_frozen q s \<longleftrightarrow> GameHasMenuShown s \<and> queuedCommands s = q"

lemma queue_frozen_set_command [simp]: "queue_frozen q (set_command i c s) = queue_frozen q s"
  by (simp add: queue_frozen_def set_command_def)

interpretation frozen: execution_invariant fo "queue_frozen q" for fo q
  by unfold_locales (auto simp: queue_frozen_def set_command_def)

lemma run_queue_each:
  assumes "events_keep (queue_frozen q) disp" "queue_frozen q s"
  shows "run_queue fo disp (length q) ss cmds s =
    rbind (execute_each fo disp cmds s) (\<lambda>(outs, s'). Inr (ss @ concat (map (\<lambda>o1. o1 @ endl) outs), s'))"
  using assms(2)
proof (induction cmds arbitrary: ss s)
  case (Cons cmd cmds)
  show ?case
  proof (cases "ExecuteCommandWithStatus fo disp cmd True s")
    case (Inl e)
    then show ?thesis by (simp add: ExecuteCommand_def)
  next
    case (Inr r)
    then obtain b out s' where r: "ExecuteCommandWithStatus fo disp cmd True s = Inr (b, out, s')"
      by (cases r) auto
    have "queue_frozen q s'" using frozen.line_kept [OF assms(1) Cons.prems r] .
    with Cons.IH [OF this] show ?thesis
      by (cases "execute_each fo disp cmds s'")
        (auto simp: ExecuteCommand_def r queue_frozen_def)
  qed
qed simp

text \<open>C28. Once the main menu is shown, \<open>ExecuteQueue\<close> runs every queued line exactly once, in the order
  they were queued, answers with their outputs and leaves the queue empty; the walk over the vector
  is never disturbed. The update events must neither queue lines themselves nor hide the menu.\<close>

theorem ExecuteQueue_spec:
  assumes "GameHasMenuShown s" "events_keep (queue_frozen (queuedCommands s)) disp"
  shows "ExecuteQueue fo disp s =
    rbind (execute_each fo disp (queuedCommands s) s) (\<lambda>(outs, s').
      Inr (concat (map (\<lambda>o1. o1 @ endl) outs), s'\<lparr>queuedCommands := []\<rparr>))"
proof -
  have "queue_frozen (queuedCommands s) s" using assms(1) by (simp add: queue_frozen_def)
  from run_queue_each [OF assms(2) this, of fo "[]" "queuedCommands s"] show ?thesis
    by (cases "execute_each fo disp (queuedCommands s) s") (auto simp: ExecuteQueue_def)
qed

theorem ExecuteQueue_spec_witness:
  "ExecuteQueue demo_floats reject_all ((demo_map [])\<lparr>queuedCommands := ['''', '''']\<rparr>)
    = Inr (''Invalid input'' @ endl @ ''Invalid input'' @ endl, demo_map [])"
proof -
  let ?s = "(demo_map [])\<lparr>queuedCommands := ['''', '''']\<rparr>"
  have e: "ExecuteCommandWithStatus fo disp '''' True s = Inr (False, ''Invalid input'', s)"
    for fo :: FloatOps and disp :: "(unit, unit) handlers" and s
    by (simp add: ExecuteCommandWithStatus_def CommandLineToArgvA_def argv_scan_def argv_init_def)
  show ?thesis
    by (subst ExecuteQueue_spec [OF _ reject_all_keeps])
      (simp_all add: e ExecuteCommand_def demo_map_def)
qed

subsection \<open>Names of commands\<close>

definition add_commands :: "'h Command list \<Rightarrow> 'h Command list \<Rightarrow> 'h Command list" where
  "add_commands cmds cs = foldl (\<lambda>cmds c. case add_cmd cmds c of None \<Rightarrow> cmds | Some cmds' \<Rightarrow> cmds') cmds cs"

lemma add_commands_each: "add_commands cmds cs = commands.add_each cmds cs"
  unfolding add_commands_def by (induction cs arbitrary: cmds) simp_all

text \<open>A command that was registered is found under its name and its short name, in any case, and
  stays so whatever is registered later: a later command never shadows it.\<close>

theorem registered_command_found:
  assumes "\<forall>c \<in> set cmds. names_ok c" "names_ok c" "AddCommand cmds c = Some (cmds', i)"
    and "\<forall>d \<in> set later. names_ok d" "command_matches n c"
  shows "find_cmd (add_commands cmds' later) n = Some c"
  unfolding add_commands_each
  using assms by (intro commands.first_added_wins) (auto simp: add_cmd_def command_keys_def)

theorem registered_command_found_witness:
  "find_cmd (add_commands [demo_command ''Server.Name'' TypeVariableString 0]
     [demo_command ''SERVER.NAME'' TypeCommand 0]) ''server.name''
   = Some (demo_command ''Server.Name'' TypeVariableString 0)"
  by (rule registered_command_found [where cmds = "[]" and i = 0])
    (simp_all add: names_ok_def AddCommand_def FindCommand_def command_matches_def stricmp_eq_def
      demo_command_def c_str_def NUL_def tolower_def isupper_def char_of_eq_ord ord_of_def)

subsection \<open>Commands that take their arguments unparsed\<close>

text \<open>For a command with unparsed arguments the rest of the line is cut after as many characters
  as its name has, so a quoted name leaves a quote in front of the argument. Every line that
  \<open>ExecuteCommand\<close> builds from an argument list quotes the name: the handler then gets the quoted
  argument with a stray quote before it, not the argument.\<close>

theorem unparsed_args_of_quoted_line:
  assumes "CHR 0x22 \<notin> set n" "CHR 0x22 \<notin> set a" "NUL \<notin> set n" "NUL \<notin> set a"
  shows "unparsed_args (quote_args [n, a]) (CommandLineToArgvA (quote_args [n, a]))
       = Inr [[CHR 0x22, CHR '' '', CHR 0x22] @ a @ [CHR 0x22, CHR '' '']]"
proof -
  have "CommandLineToArgvA (quote_args [n, a]) = [n, a]"
    using assms by (intro argv_quote_args) auto
  then show ?thesis by (simp add: unparsed_args_def quote_args_def)
qed

theorem unparsed_args_of_quoted_line_witness:
  "unparsed_args (quote_args [''showscreen'', ''settings''])
     (CommandLineToArgvA (quote_args [''showscreen'', ''settings'']))
   = Inr [[CHR 0x22, CHR '' '', CHR 0x22] @ ''settings'' @ [CHR 0x22, CHR '' '']]"
  by (rule unparsed_args_of_quoted_line) (simp_all add: NUL_def)

end
