(* ===== verification/BanList.thy ===== *)
theory BanList
  imports Session Strings StdNum
begin

text \<open>
  \<open>Server/BanList.hpp\<close> and \<open>.cpp\<close>, the UID parser of \<open>Patches/PlayerUid.cpp\<close>, the ban routines of
  \<open>Modules/ModuleServer.cpp\<close>, and the join hook of \<open>Patches/Network.cpp\<close> that enforces the bans. The
  permanent list lives in a text file that every operation reads and writes in full; the temporary
  list is a map from addresses to games. Both are instances of one interface of ban stores.
\<close>

subsection \<open>Addresses as text\<close>

text \<open>\<open>inet_ntop\<close> for IPv4 prints the four bytes in memory order; it cannot fail for a buffer of
  \<open>INET_ADDRSTRLEN\<close> characters.\<close>

definition inet_ntop :: "u32 \<Rightarrow> string" where
  "inet_ntop w = dec (unat (w AND 0xFF)) @ ''.'' @ dec (unat (drop_bit 8 w AND 0xFF)) @ ''.''
     @ dec (unat (drop_bit 16 w AND 0xFF)) @ ''.'' @ dec (unat (drop_bit 24 w AND 0xFF))"

definition AddressToString :: "NetworkAddress \<Rightarrow> string" where
  "AddressToString a = inet_ntop (ToInAddr a)"

subsection \<open>Parsing a UID\<close>

text \<open>How many characters \<open>std::stoull\<close> and \<open>std::stoi\<close> consume.\<close>

definition scan_end :: "nat \<Rightarrow> string \<Rightarrow> nat" where
  "scan_end base s =
     (let t = dropWhile isspace (c_str s); u = snd (split_sign t); (b, v) = split_base base u
      in length (c_str s) - length v + length (takeWhile (is_digit_in b) v))"

definition ParseUid :: "string \<Rightarrow> u64 option" where
  "ParseUid str = (case stoull 16 str of
     Inl _ \<Rightarrow> None
   | Inr v \<Rightarrow> if scan_end 16 str = length str then Some v else None)"

subsection \<open>The permanent list\<close>

text \<open>The hash sets are lists without duplicates; their order stands for the unspecified order in which
  \<open>Save\<close> walks them.\<close>

record BanList =
  ipAddresses :: "string list"
  uids :: "u64 list"

definition empty_bans :: BanList where
  "empty_bans = \<lparr>ipAddresses = [], uids = []\<rparr>"

definition AddIp :: "string \<Rightarrow> BanList \<Rightarrow> BanList" where
  "AddIp ip l = l\<lparr>ipAddresses := List.insert ip (ipAddresses l)\<rparr>"

definition ContainsIp :: "BanList \<Rightarrow> string \<Rightarrow> bool" where
  "ContainsIp l ip \<longleftrightarrow> ip \<in> set (ipAddresses l)"

definition RemoveIp :: "string \<Rightarrow> BanList \<Rightarrow> bool \<times> BanList" where
  "RemoveIp ip l = (ip \<in> set (ipAddresses l), l\<lparr>ipAddresses := removeAll ip (ipAddresses l)\<rparr>)"

definition AddUid :: "u64 \<Rightarrow> BanList \<Rightarrow> BanList" where
  "AddUid uid l = l\<lparr>uids := List.insert uid (uids l)\<rparr>"

definition ContainsUid :: "BanList \<Rightarrow> u64 \<Rightarrow> bool" where
  "ContainsUid l uid \<longleftrightarrow> uid \<in> set (uids l)"

definition RemoveUid :: "u64 \<Rightarrow> BanList \<Rightarrow> bool \<times> BanList" where
  "RemoveUid uid l = (uid \<in> set (uids l), l\<lparr>uids := removeAll uid (uids l)\<rparr>)"

text \<open>One line of the file. The test \<open>commentStart >= 0\<close> on an unsigned position is always true; for a
  line without \<open>#\<close> the substring is the whole line.\<close>

definition read_line :: "string \<Rightarrow> BanList \<Rightarrow> BanList" where
  "read_line line l =
     (let components = SplitString (Trim (Trim (takeWhile (\<lambda>c. c \<noteq> CHR ''#'') line) False) True) CHR '' '' in
      if length components < 2 then l
      else if components ! 0 = ''ip'' then AddIp (components ! 1) l
      else if components ! 0 = ''uid'' then
        (case ParseUid (components ! 1) of None \<Rightarrow> l | Some uid \<Rightarrow> AddUid uid l)
      else l)"

definition ReadBans :: "string \<Rightarrow> BanList \<Rightarrow> BanList" where
  "ReadBans contents l = foldl (\<lambda>l line. read_line line l) l (getlines CHR 0x0A [] contents)"

definition ban_header :: string where
  "ban_header = ''# ElDewrito server ban list'' @ [CHR 0x0A]
     @ ''# Players matching the filters in this file will not be allowed to connect to your server.'' @ [CHR 0x0A, CHR 0x0A]
     @ ''# IPv4 address bans'' @ [CHR 0x0A] @ ''# Format: ip XXX.XXX.XXX.XXX'' @ [CHR 0x0A]"

definition SaveBans :: "BanList \<Rightarrow> string" where
  "SaveBans l = ban_header @ concat (map (\<lambda>ip. ''ip '' @ ip @ [CHR 0x0A]) (ipAddresses l))"

subsection \<open>The temporary list\<close>

type_synonym TempBans = "(string \<times> int) list"

text \<open>The counter is a C \<open>int\<close> to which an \<open>unsigned long\<close> is added.\<close>

definition TempAddIp :: "u32 \<Rightarrow> string \<Rightarrow> TempBans \<Rightarrow> TempBans" where
  "TempAddIp duration ip l = (case map_of l ip of
     Some n \<Rightarrow> map (\<lambda>(k, v). if k = ip then (k, sint (of_int v + duration)) else (k, v)) l
   | None \<Rightarrow> l @ [(ip, sint duration)])"

definition TempContainsIp :: "TempBans \<Rightarrow> string \<Rightarrow> bool" where
  "TempContainsIp l ip \<longleftrightarrow> map_of l ip \<noteq> None"

definition TempRemoveIp :: "string \<Rightarrow> TempBans \<Rightarrow> bool \<times> TempBans" where
  "TempRemoveIp ip l = (TempContainsIp l ip, filter (\<lambda>(k, _). k \<noteq> ip) l)"

definition decrementDuration :: "TempBans \<Rightarrow> TempBans" where
  "decrementDuration l = map (\<lambda>(k, v). (k, v - 1)) (filter (\<lambda>(_, v). \<not> v < 2) l)"

definition TempClear :: "TempBans \<Rightarrow> TempBans" where
  "TempClear l = []"

subsection \<open>The lists of the server\<close>

record ServerBans =
  banFile :: "string option"
  tempBans :: TempBans

definition LoadDefaultBanList :: "ServerBans \<Rightarrow> BanList" where
  "LoadDefaultBanList s = (case banFile s of None \<Rightarrow> empty_bans | Some contents \<Rightarrow> ReadBans contents empty_bans)"

definition SaveDefaultBanList :: "BanList \<Rightarrow> ServerBans \<Rightarrow> ServerBans" where
  "SaveDefaultBanList l s = s\<lparr>banFile := Some (SaveBans l)\<rparr>"

definition BanIp :: "string \<Rightarrow> ServerBans \<Rightarrow> ServerBans" where
  "BanIp ip s = SaveDefaultBanList (AddIp ip (LoadDefaultBanList s)) s"

definition TempBanIP :: "u32 \<Rightarrow> string \<Rightarrow> ServerBans \<Rightarrow> ServerBans" where
  "TempBanIP duration ip s = s\<lparr>tempBans := TempAddIp duration ip (tempBans s)\<rparr>"

definition UnbanIp :: "string \<Rightarrow> ServerBans \<Rightarrow> bool \<times> ServerBans" where
  "UnbanIp ip s =
     (let (removed, l) = RemoveIp ip (LoadDefaultBanList s) in
      if \<not> removed then (False, s) else (True, SaveDefaultBanList l s))"

text \<open>The hook on join requests: a banned address is refused, any other request is handed to the game.\<close>

datatype JoinOutcome = JoinRefused string | JoinContinued NetworkAddress

definition handle_join_request :: "ServerBans \<Rightarrow> NetworkAddress \<Rightarrow> JoinOutcome" where
  "handle_join_request s address =
     (let ipStr = inet_ntop (ToInAddr address) in
      if ContainsIp (LoadDefaultBanList s) ipStr \<or> TempContainsIp (tempBans s) ipStr
      then JoinRefused ipStr else JoinContinued address)"

subsection \<open>Reading back what was saved\<close>

text \<open>Text that survives the file: no white space, no comment character, not empty.\<close>

definition ban_text :: "string \<Rightarrow> bool" where
  "ban_text ip \<longleftrightarrow> ip \<noteq> [] \<and> (\<forall>c \<in> set ip. \<not> isspace c \<and> c \<noteq> CHR ''#'')"

lemma space_facts [simp]: "isspace (CHR '' '')" "isspace (CHR 0x0A)" "\<not> isspace (CHR ''#'')"
  "\<not> isspace (CHR ''i'')" "\<not> isspace (CHR ''p'')"
  by (simp_all add: isspace_def ord_of_def)

lemma getlines_append_line:
  "CHR 0x0A \<notin> set line \<Longrightarrow> getlines CHR 0x0A item (line @ CHR 0x0A # rest) = (rev item @ line) # getlines CHR 0x0A [] rest"
  by (induction line arbitrary: item) auto

lemma getlines_no_delim: "delim \<notin> set s \<Longrightarrow> s \<noteq> [] \<Longrightarrow> getlines delim item s = [rev item @ s]"
proof (induction s arbitrary: item)
  case (Cons c s)
  then show ?case by (cases "s = []") auto
qed simp

lemma ban_text_notin: "ban_text ip \<Longrightarrow> isspace c \<or> c = CHR ''#'' \<Longrightarrow> c \<notin> set ip"
  unfolding ban_text_def by blast

lemma ban_text_not_Nil: "ban_text ip \<Longrightarrow> ip \<noteq> []"
  unfolding ban_text_def by blast

lemma read_line_ip:
  assumes "ban_text ip"
  shows "read_line (''ip '' @ ip) l = AddIp ip l"
proof -
  have sp: "CHR '' '' \<notin> set ip" "CHR ''#'' \<notin> set ip" "ip \<noteq> []"
    using ban_text_notin [OF assms] ban_text_not_Nil [OF assms] by simp_all
  have "\<not> isspace (last ip)" using ban_text_notin [OF assms] sp(3) last_in_set by blast
  then have r: "dropWhile isspace (rev ip @ xs) = rev ip @ xs" for xs
    using sp(3) by (cases ip rule: rev_cases) simp_all
  have t: "takeWhile (\<lambda>c. c \<noteq> CHR ''#'') ip = ip" using sp(2) by (auto simp: takeWhile_eq_all_conv)
  have "SplitString (''ip '' @ ip) CHR '' '' = [''ip'', ip]"
    using getlines_no_delim [OF sp(1,3), of "[]"] by (simp add: SplitString_def)
  then show ?thesis by (simp add: read_line_def Trim_def ltrim_def rtrim_def t r)
qed

lemma read_line_comment: "read_line (CHR ''#'' # rest) l = l" "read_line [] l = l"
  by (simp_all add: read_line_def Trim_def ltrim_def rtrim_def SplitString_def)

lemma ReadBans_line:
  "CHR 0x0A \<notin> set line \<Longrightarrow> ReadBans (line @ CHR 0x0A # rest) l = ReadBans rest (read_line line l)"
  by (simp add: ReadBans_def getlines_append_line)

lemma ReadBans_header: "ReadBans (ban_header @ rest) l = ReadBans rest l"
proof -
  let ?l1 = "''# ElDewrito server ban list''"
  let ?l2 = "''# Players matching the filters in this file will not be allowed to connect to your server.''"
  let ?l3 = "''# IPv4 address bans''"
  let ?l4 = "''# Format: ip XXX.XXX.XXX.XXX''"
  have "ban_header @ rest = ?l1 @ CHR 0x0A # (?l2 @ CHR 0x0A # ([] @ CHR 0x0A # (?l3 @ CHR 0x0A # (?l4 @ CHR 0x0A # rest))))"
    by (simp only: ban_header_def append.assoc append_Cons append_Nil)
  moreover have "CHR 0x0A \<notin> set ?l1" "CHR 0x0A \<notin> set ?l2" "CHR 0x0A \<notin> set ?l3" "CHR 0x0A \<notin> set ?l4" by simp_all
  moreover have "read_line ?l1 l = l" "read_line ?l2 l = l" "read_line ?l3 l = l" "read_line ?l4 l = l" for l
    by (simp_all only: read_line_comment)
  ultimately show ?thesis by (simp only: ReadBans_line read_line_comment list.set empty_iff not_False_eq_True)
qed

lemma ReadBans_ips:
  "\<forall>ip \<in> set ips. ban_text ip \<Longrightarrow>
     ReadBans (concat (map (\<lambda>ip. ''ip '' @ ip @ [CHR 0x0A]) ips)) l = foldl (\<lambda>l ip. AddIp ip l) l ips"
proof (induction ips arbitrary: l)
  case (Cons ip ips)
  then have ip: "ban_text ip" by simp
  have n: "CHR 0x0A \<notin> set (''ip '' @ ip)" using ban_text_notin [OF ip, of "CHR 0x0A"] by simp
  have "ReadBans ((''ip '' @ ip) @ CHR 0x0A # concat (map (\<lambda>ip. ''ip '' @ ip @ [CHR 0x0A]) ips)) l
      = ReadBans (concat (map (\<lambda>ip. ''ip '' @ ip @ [CHR 0x0A]) ips)) (AddIp ip l)"
    using ReadBans_line [OF n] read_line_ip [OF ip] by simp
  with Cons show ?case by simp
qed (simp add: ReadBans_def)

lemma foldl_AddIp:
  "set (ipAddresses (foldl (\<lambda>l ip. AddIp ip l) l ips)) = set (ipAddresses l) \<union> set ips"
  "uids (foldl (\<lambda>l ip. AddIp ip l) l ips) = uids l"
  by (induction ips arbitrary: l) (auto simp: AddIp_def)

lemma load_saved:
  assumes "\<forall>ip \<in> set (ipAddresses l). ban_text ip"
  shows "set (ipAddresses (ReadBans (SaveBans l) empty_bans)) = set (ipAddresses l)"
    "uids (ReadBans (SaveBans l) empty_bans) = []"
  unfolding SaveBans_def ReadBans_header ReadBans_ips [OF assms]
  by (simp_all add: foldl_AddIp empty_bans_def)

subsection \<open>The contract of a ban store\<close>

locale ban_store =
  fixes ban :: "string \<Rightarrow> 's \<Rightarrow> 's"
    and banned :: "'s \<Rightarrow> string \<Rightarrow> bool"
    and unban :: "string \<Rightarrow> 's \<Rightarrow> bool \<times> 's"
    and good :: "string \<Rightarrow> bool"
    and inv :: "'s \<Rightarrow> bool"
  assumes banned_ban: "inv s \<Longrightarrow> good ip \<Longrightarrow> banned (ban ip s) k \<longleftrightarrow> k = ip \<or> banned s k"
    and inv_ban: "inv s \<Longrightarrow> good ip \<Longrightarrow> inv (ban ip s)"
    and unban_result: "inv s \<Longrightarrow> fst (unban ip s) \<longleftrightarrow> banned s ip"
    and banned_unban: "inv s \<Longrightarrow> banned (snd (unban ip s)) k \<longleftrightarrow> k \<noteq> ip \<and> banned s k"
    and inv_unban: "inv s \<Longrightarrow> inv (snd (unban ip s))"
begin

text \<open>Any sequence of bans bans exactly the addresses in it, on top of those banned before.\<close>

lemma ban_all:
  assumes "inv s" "\<forall>ip \<in> set ips. good ip"
  shows "inv (foldl (\<lambda>s ip. ban ip s) s ips) \<and> (\<forall>k. banned (foldl (\<lambda>s ip. ban ip s) s ips) k \<longleftrightarrow> k \<in> set ips \<or> banned s k)"
  using assms
proof (induction ips arbitrary: s)
  case (Cons ip ips)
  with Cons.IH [of "ban ip s"] banned_ban [of s ip] inv_ban [of s ip] show ?case by auto
qed simp

text \<open>Lifting a ban undoes it, and leaves every other ban in place.\<close>

lemma unban_ban:
  assumes "inv s" "good ip" "\<not> banned s ip"
  shows "fst (unban ip (ban ip s))" "banned (snd (unban ip (ban ip s))) k \<longleftrightarrow> banned s k"
  using assms unban_result [OF inv_ban [OF assms(1,2)]] banned_unban [OF inv_ban [OF assms(1,2)]] banned_ban
  by auto

end

definition bans_ok :: "ServerBans \<Rightarrow> bool" where
  "bans_ok s \<longleftrightarrow> (\<forall>ip \<in> set (ipAddresses (LoadDefaultBanList s)). ban_text ip)"

lemma load_after_save:
  assumes "\<forall>ip \<in> set (ipAddresses l). ban_text ip"
  shows "set (ipAddresses (LoadDefaultBanList (SaveDefaultBanList l s))) = set (ipAddresses l)"
  using load_saved [OF assms] by (simp add: LoadDefaultBanList_def SaveDefaultBanList_def)

lemma BanIp_loaded:
  assumes "bans_ok s" "ban_text ip"
  shows "set (ipAddresses (LoadDefaultBanList (BanIp ip s))) = insert ip (set (ipAddresses (LoadDefaultBanList s)))"
  using load_after_save [of "AddIp ip (LoadDefaultBanList s)" s] assms
  by (auto simp: BanIp_def AddIp_def bans_ok_def)

lemma UnbanIp_loaded:
  assumes "bans_ok s"
  shows "set (ipAddresses (LoadDefaultBanList (snd (UnbanIp ip s)))) = set (ipAddresses (LoadDefaultBanList s)) - {ip}"
proof -
  have "\<forall>i \<in> set (ipAddresses (snd (RemoveIp ip (LoadDefaultBanList s)))). ban_text i"
    using assms by (auto simp: RemoveIp_def bans_ok_def)
  from load_after_save [OF this, of s] show ?thesis by (auto simp: UnbanIp_def RemoveIp_def)
qed

interpretation perm: ban_store BanIp "\<lambda>s. ContainsIp (LoadDefaultBanList s)" UnbanIp ban_text bans_ok
proof (unfold_locales, goal_cases)
  case (3 s ip)
  show ?case by (simp add: UnbanIp_def RemoveIp_def ContainsIp_def)
qed (auto simp: ContainsIp_def BanIp_loaded UnbanIp_loaded, auto simp: bans_ok_def BanIp_loaded UnbanIp_loaded)

definition temp_unban :: "string \<Rightarrow> ServerBans \<Rightarrow> bool \<times> ServerBans" where
  "temp_unban ip s = (fst (TempRemoveIp ip (tempBans s)), s\<lparr>tempBans := snd (TempRemoveIp ip (tempBans s))\<rparr>)"

lemma map_of_temp_add:
  "map_of (TempAddIp d ip l) k = (if k = ip then
     Some (case map_of l ip of None \<Rightarrow> sint d | Some n \<Rightarrow> sint (of_int n + d)) else map_of l k)"
proof -
  have "map_of (map (\<lambda>(k, v). if k = ip then (k, f v) else (k, v)) l) k
      = (if k = ip then map_option f (map_of l ip) else map_of l k)" for f :: "int \<Rightarrow> int"
    by (induction l) auto
  then show ?thesis
    by (auto simp: TempAddIp_def map_add_def split: option.splits)
qed

lemma map_of_filter_key: "map_of (filter (\<lambda>(k', _). k' \<noteq> ip) l) k = (if k = ip then None else map_of l k)"
  by (induction l) auto

interpretation temp: ban_store "TempBanIP d" "\<lambda>s. TempContainsIp (tempBans s)" temp_unban "\<lambda>_. True" "\<lambda>_. True" for d
  by unfold_locales
    (auto simp: TempBanIP_def TempContainsIp_def temp_unban_def TempRemoveIp_def map_of_temp_add map_of_filter_key)

subsection \<open>Bans that are enforced\<close>

lemma dec_no_dot: "CHR ''.'' \<notin> set (dec n)"
proof
  assume "CHR ''.'' \<in> set (dec n)"
  then obtain d where "d < 10" "CHR ''.'' = dec_char d" using dec_digits by blast
  then have "ord_of (CHR ''.'') = 48 + d" by (simp add: dec_char_facts(1))
  then show False by (simp add: ord_of_def)
qed

lemma dec_dot_inject: "dec m @ CHR ''.'' # x = dec n @ CHR ''.'' # y \<longleftrightarrow> m = n \<and> x = y"
proof -
  have "takeWhile (\<lambda>c. c \<noteq> CHR ''.'') (dec k @ CHR ''.'' # z) = dec k" for k z
    using dec_no_dot [of k] by (induction "dec k" arbitrary: k) (auto simp: takeWhile_append)
  then show ?thesis by (metis append_same_eq dec_inject list.inject same_append_eq)
qed

lemma inet_ntop_inject: "inet_ntop v = inet_ntop w \<longleftrightarrow> v = w"
proof
  assume "inet_ntop v = inet_ntop w"
  then have b: "drop_bit k v AND 0xFF = drop_bit k w AND 0xFF" if "k \<in> {0, 8, 16, 24}" for k
    using that by (auto simp: inet_ntop_def dec_dot_inject word_unat_eq_iff)
  show "v = w"
  proof (rule bit_word_eqI)
    fix n assume "n < LENGTH(32)"
    have k: "n - n mod 8 \<in> {0, 8, 16, 24}" using \<open>n < LENGTH(32)\<close> by auto presburger
    have m: "bit (0xFF :: u32) (n mod 8)"
    proof -
      have "(0xFF::u32) = mask 8" by (simp add: mask_eq_exp_minus_1)
      then show ?thesis by (simp only: bit_mask_iff) simp
    qed
    have "bit u n = bit (drop_bit (n - n mod 8) u AND 0xFF) (n mod 8)" for u :: u32
      using m by (simp only: bit_and_iff bit_drop_bit_eq o_def) simp
    then show "bit v n = bit w n" using b [OF k] by metis
  qed
qed simp

lemma ban_text_inet_ntop: "ban_text (inet_ntop w)"
proof -
  have digit: "\<not> isspace (dec_char d) \<and> dec_char d \<noteq> CHR ''#''" if "d < 10" for d
  proof -
    have "ord_of (CHR ''#'') = 35" by (simp add: ord_of_def)
    then show ?thesis using dec_char_facts(1,4) [OF that] by auto
  qed
  have dot: "\<not> isspace (CHR ''.'')" by (simp add: isspace_def ord_of_def)
  have dec: "\<not> isspace c \<and> c \<noteq> CHR ''#''" if "c \<in> set (dec n)" for c n
    using dec_digits [OF that] digit by metis
  have "\<not> isspace c \<and> c \<noteq> CHR ''#''" if "c \<in> set (inet_ntop w)" for c
  proof (cases "c = CHR ''.''")
    case False
    with that obtain n where "c \<in> set (dec n)" by (auto simp: inet_ntop_def)
    then show ?thesis by (rule dec)
  qed (simp add: dot)
  moreover have "inet_ntop w \<noteq> []" by (simp add: inet_ntop_def)
  ultimately show ?thesis by (simp only: ban_text_def not_False_eq_True conj_absorb ball_simps) blast
qed

lemma ToInAddr_inject: "ToInAddr a = ToInAddr b \<longleftrightarrow> IPv4 a = IPv4 b"
  by (metis ToInAddr_def byteswap_involution)

lemma join_after_ban:
  assumes "bans_ok s"
  shows "handle_join_request (BanIp (AddressToString a) s) b =
    (if IPv4 b = IPv4 a then JoinRefused (AddressToString a) else handle_join_request s b)"
proof -
  have "tempBans (BanIp ip s) = tempBans s" for ip by (simp add: BanIp_def SaveDefaultBanList_def)
  moreover have "ContainsIp (LoadDefaultBanList (BanIp (AddressToString a) s)) (inet_ntop (ToInAddr b))
      \<longleftrightarrow> IPv4 b = IPv4 a \<or> ContainsIp (LoadDefaultBanList s) (inet_ntop (ToInAddr b))"
    using perm.banned_ban [OF assms ban_text_inet_ntop, of "ToInAddr a"]
    by (simp add: AddressToString_def inet_ntop_inject ToInAddr_inject)
  ultimately show ?thesis
    by (auto simp: handle_join_request_def Let_def AddressToString_def ToInAddr_inject [symmetric])
qed

text \<open>Any number of bans, in any order and interleaved with the file operations they cause, leaves
  exactly those addresses banned that were banned before or are among them; lifting a ban again leaves
  all others in place.\<close>

theorem bans_accumulate:
  assumes "bans_ok s" "\<forall>ip \<in> set ips. ban_text ip"
  shows "(ContainsIp (LoadDefaultBanList (foldl (\<lambda>s ip. BanIp ip s) s ips)) k
      \<longleftrightarrow> k \<in> set ips \<or> ContainsIp (LoadDefaultBanList s) k)
    \<and> (ContainsIp (LoadDefaultBanList (snd (UnbanIp ip (foldl (\<lambda>s ip. BanIp ip s) s ips)))) k
      \<longleftrightarrow> k \<noteq> ip \<and> (k \<in> set ips \<or> ContainsIp (LoadDefaultBanList s) k))"
  using perm.ban_all [OF assms] perm.banned_unban [of "foldl (\<lambda>s ip. BanIp ip s) s ips" ip k] by blast

theorem bans_accumulate_witness:
  "ContainsIp (LoadDefaultBanList (foldl (\<lambda>s ip. BanIp ip s) \<lparr>banFile = None, tempBans = []\<rparr> [''10.0.0.1'', ''10.0.0.2''])) ''10.0.0.2''
   \<and> \<not> ContainsIp (LoadDefaultBanList (snd (UnbanIp ''10.0.0.2''
       (foldl (\<lambda>s ip. BanIp ip s) \<lparr>banFile = None, tempBans = []\<rparr> [''10.0.0.1'', ''10.0.0.2''])))) ''10.0.0.2''"
proof -
  have t: "\<forall>ip \<in> set [''10.0.0.1'', ''10.0.0.2'']. ban_text ip" by (simp add: ban_text_def isspace_def ord_of_def)
  have b: "bans_ok \<lparr>banFile = None, tempBans = []\<rparr>" by (simp add: bans_ok_def LoadDefaultBanList_def empty_bans_def)
  show ?thesis using bans_accumulate [OF b t] by simp
qed

text \<open>Rewriting the file drops its UID bans: \<open>Save\<close> writes addresses only.\<close>

lemma ban_drops_uids:
  assumes "bans_ok s" "ban_text ip"
  shows "uids (LoadDefaultBanList (BanIp ip s)) = []"
proof -
  have "\<forall>i \<in> set (ipAddresses (AddIp ip (LoadDefaultBanList s))). ban_text i"
    using assms by (auto simp: AddIp_def bans_ok_def)
  from load_saved(2) [OF this] show ?thesis
    by (simp add: BanIp_def SaveDefaultBanList_def LoadDefaultBanList_def [of "s\<lparr>banFile := _\<rparr>"])
qed

subsection \<open>How long a temporary ban lasts\<close>

lemma map_of_decrement:
  "distinct (map fst l) \<Longrightarrow> map_of (decrementDuration l) ip =
     (case map_of l ip of None \<Rightarrow> None | Some v \<Rightarrow> if v < 2 then None else Some (v - 1))"
proof (induction l)
  case (Cons p l)
  have "map_of (decrementDuration l) (fst p) = None"
    using Cons.prems by (auto simp: decrementDuration_def map_of_eq_None_iff image_iff)
  moreover have "map_of l (fst p) = None" using Cons.prems by (simp add: map_of_eq_None_iff)
  ultimately show ?case using Cons by (cases p) (auto simp: decrementDuration_def)
qed (simp add: decrementDuration_def)

lemma distinct_decrement: "distinct (map fst l) \<Longrightarrow> distinct (map fst (decrementDuration l))"
proof -
  assume d: "distinct (map fst l)"
  have "map fst (decrementDuration l) = map fst (filter (\<lambda>(_, v). \<not> v < 2) l)"
    by (simp add: decrementDuration_def case_prod_beta)
  with d show ?thesis by (metis distinct_map_filter)
qed

lemma decrement_games:
  assumes "distinct (map fst l)" "map_of l ip = Some v"
  shows "TempContainsIp ((decrementDuration ^^ k) l) ip \<longleftrightarrow> int k < max 1 v"
  using assms
proof (induction k arbitrary: l v)
  case 0
  then show ?case by (simp add: TempContainsIp_def)
next
  case (Suc k)
  have step: "(decrementDuration ^^ Suc k) l = (decrementDuration ^^ k) (decrementDuration l)"
    by (simp only: funpow_Suc_right o_apply)
  show ?case
  proof (cases "v < 2")
    case True
    have "map_of ((decrementDuration ^^ k) m) ip = None" if "distinct (map fst m)" "map_of m ip = None" for m
      using that by (induction k arbitrary: m) (auto simp: funpow_Suc_right map_of_decrement distinct_decrement simp del: funpow.simps)
    then show ?thesis
      using True Suc.prems unfolding step by (simp add: TempContainsIp_def map_of_decrement distinct_decrement)
  next
    case False
    then have "map_of (decrementDuration l) ip = Some (v - 1)" using Suc.prems by (simp add: map_of_decrement)
    from Suc.IH [OF distinct_decrement [OF Suc.prems(1)] this] show ?thesis
      using False unfolding step by auto
  qed
qed

lemma distinct_temp_add:
  assumes "distinct (map fst l)"
  shows "distinct (map fst (TempAddIp d ip l))"
proof -
  have "map fst (map (\<lambda>(k, v). if k = ip then (k, f v) else (k, v)) l) = map fst l" for f :: "int \<Rightarrow> int"
    by (induction l) auto
  moreover have "distinct (map fst (l @ [(ip, sint d)]))" if "map_of l ip = None"
    using assms that by (simp add: map_of_eq_None_iff)
  ultimately show ?thesis
    using assms unfolding TempAddIp_def by (cases "map_of l ip") (simp_all del: map_map)
qed

text \<open>A temporary ban of an address lasts exactly the configured number of games, counted by the
  games that end afterwards (at least one); a second ban adds its games to those left.\<close>

theorem temp_ban_lasts:
  assumes "distinct (map fst (tempBans s))" "uint d < 2 ^ 30" "0 < uint d"
    and "\<forall>v \<in> snd ` set (tempBans s). 0 \<le> v \<and> v < 2 ^ 30"
  shows "TempContainsIp ((decrementDuration ^^ k) (tempBans (TempBanIP d ip s))) ip
    \<longleftrightarrow> int k < uint d + (case map_of (tempBans s) ip of None \<Rightarrow> 0 | Some n \<Rightarrow> n)"
proof -
  let ?v = "case map_of (tempBans s) ip of None \<Rightarrow> sint d | Some n \<Rightarrow> sint (of_int n + d)"
  have small: "sint (w::u32) = n" if "uint w = n" "n < 2 ^ 31" for w n
  proof -
    have "- (2 ^ 31) \<le> uint w" by (rule order_trans [of _ 0]) simp_all
    with that show ?thesis by (simp add: sint_uint signed_take_bit_int_eq_self)
  qed
  have v: "?v = uint d + (case map_of (tempBans s) ip of None \<Rightarrow> 0 | Some n \<Rightarrow> n)"
  proof (cases "map_of (tempBans s) ip")
    case None
    then show ?thesis using assms(2) small [of d "uint d"] by simp
  next
    case (Some n)
    then have "(ip, n) \<in> set (tempBans s)" by (rule map_of_SomeD)
    then have n: "0 \<le> n" "n < 2 ^ 30" using assms(4) by force+
    have "uint (of_int n + d :: u32) = n + uint d"
      using n assms(2) by (simp add: uint_word_ariths unsigned_of_int take_bit_eq_mod)
    with small [of "of_int n + d"] n assms(2) Some show ?thesis by simp
  qed
  have "distinct (map fst (tempBans (TempBanIP d ip s)))"
    using distinct_temp_add [OF assms(1)] by (simp add: TempBanIP_def)
  moreover have "map_of (tempBans (TempBanIP d ip s)) ip = Some ?v"
    by (simp add: TempBanIP_def map_of_temp_add)
  ultimately have "TempContainsIp ((decrementDuration ^^ k) (tempBans (TempBanIP d ip s))) ip \<longleftrightarrow> int k < max 1 ?v"
    by (rule decrement_games)
  moreover have "1 \<le> ?v" unfolding v
    using assms(3,4) by (auto split: option.splits dest!: map_of_SomeD)
  ultimately show ?thesis unfolding v by (simp add: max_def)
qed

theorem temp_ban_lasts_witness:
  "\<not> TempContainsIp ((decrementDuration ^^ 5) (tempBans (TempBanIP 2 ''10.0.0.1'' \<lparr>banFile = None, tempBans = [(''10.0.0.1'', 3)]\<rparr>))) ''10.0.0.1''
   \<and> TempContainsIp ((decrementDuration ^^ 4) (tempBans (TempBanIP 2 ''10.0.0.1'' \<lparr>banFile = None, tempBans = [(''10.0.0.1'', 3)]\<rparr>))) ''10.0.0.1''"
  using temp_ban_lasts [of "\<lparr>banFile = None, tempBans = [(''10.0.0.1'', 3)]\<rparr>" 2 5 "''10.0.0.1''"]
    temp_ban_lasts [of "\<lparr>banFile = None, tempBans = [(''10.0.0.1'', 3)]\<rparr>" 2 4 "''10.0.0.1''"]
  by (simp del: funpow.simps)

subsection \<open>Bans over time\<close>

text \<open>What happens to the lists of a running server: an address is banned, banned for a number of games, or
  unbanned, or a game ends. The abstract view is the set of the addresses banned for good and the number of
  games each address is still banned for.\<close>

datatype BanStep = Banned string | TempBanned u32 string | Unbanned string | GameOver

definition ban_step :: "ServerBans \<Rightarrow> BanStep \<Rightarrow> ServerBans" where
  "ban_step s a = (case a of Banned ip \<Rightarrow> BanIp ip s | TempBanned d ip \<Rightarrow> TempBanIP d ip s
     | Unbanned ip \<Rightarrow> snd (UnbanIp ip s) | GameOver \<Rightarrow> s\<lparr>tempBans := decrementDuration (tempBans s)\<rparr>)"

definition games_left :: "ServerBans \<Rightarrow> string \<Rightarrow> int" where
  "games_left s ip = (case map_of (tempBans s) ip of None \<Rightarrow> 0 | Some n \<Rightarrow> n)"

definition barred :: "ServerBans \<Rightarrow> string set \<times> (string \<Rightarrow> int)" where
  "barred s = (set (ipAddresses (LoadDefaultBanList s)), games_left s)"

definition bar_step :: "string set \<times> (string \<Rightarrow> int) \<Rightarrow> BanStep \<Rightarrow> string set \<times> (string \<Rightarrow> int)" where
  "bar_step = (\<lambda>(perm, left) a. case a of Banned ip \<Rightarrow> (insert ip perm, left)
     | TempBanned d ip \<Rightarrow> (perm, left(ip := left ip + uint d)) | Unbanned ip \<Rightarrow> (perm - {ip}, left)
     | GameOver \<Rightarrow> (perm, \<lambda>ip. max 0 (left ip - 1)))"

text \<open>Every temporary ban is for at least one game, and the counters stay below \<open>most\<close>.\<close>

definition store_ok :: "int \<Rightarrow> ServerBans \<Rightarrow> bool" where
  "store_ok most s \<longleftrightarrow> 0 \<le> most \<and> bans_ok s \<and> distinct (map fst (tempBans s))
     \<and> (\<forall>ip n. map_of (tempBans s) ip = Some n \<longrightarrow> 1 \<le> n \<and> n \<le> most)"

fun step_ok :: "BanStep \<Rightarrow> bool" where
  "step_ok (Banned ip) \<longleftrightarrow> ban_text ip"
| "step_ok (TempBanned d ip) \<longleftrightarrow> 0 < uint d"
| "step_ok _ \<longleftrightarrow> True"

fun games_added :: "BanStep \<Rightarrow> int" where
  "games_added (TempBanned d ip) = uint d"
| "games_added _ = 0"

lemma games_added_pos: "0 \<le> games_added a" "0 \<le> sum_list (map games_added steps)"
proof -
  show *: "0 \<le> games_added a" for a by (cases a) simp_all
  show "0 \<le> sum_list (map games_added steps)" by (rule sum_list_nonneg) (use * in auto)
qed

lemma sint_small: "uint (w :: u32) < 2 ^ 31 \<Longrightarrow> sint w = uint w"
proof -
  assume "uint w < 2 ^ 31"
  moreover have "- (2 ^ 31) \<le> uint w" by (rule order_trans [of _ 0]) simp_all
  ultimately show ?thesis by (simp add: sint_uint signed_take_bit_int_eq_self)
qed

lemma TempBanIP_entries:
  assumes "store_ok most s" "most + uint d < 2 ^ 31"
  shows "map_of (tempBans (TempBanIP d ip s)) k = (if k = ip then Some (games_left s ip + uint d) else map_of (tempBans s) k)"
proof -
  have "sint (of_int n + d) = n + uint d" if "map_of (tempBans s) ip = Some n" for n
  proof -
    have n: "1 \<le> n" "n \<le> most" using assms(1) that by (auto simp: store_ok_def)
    have "0 \<le> uint d" by (rule uint_ge_0)
    moreover have "most + uint d < 2147483648" using assms(2) by simp
    ultimately have "n < 4294967296" "n + uint d < 4294967296" using n by linarith+
    with n \<open>0 \<le> uint d\<close> have "(n mod 4294967296 + uint d) mod 4294967296 = n + uint d"
      by (simp add: mod_pos_pos_trivial)
    then have "uint (of_int n + d :: u32) = n + uint d"
      by (simp add: uint_word_ariths unsigned_of_int take_bit_eq_mod)
    then show ?thesis using n assms(2) by (simp add: sint_small)
  qed
  moreover have "sint d = uint d" using assms by (intro sint_small) (simp add: store_ok_def)
  ultimately show ?thesis
    by (auto simp: TempBanIP_def map_of_temp_add games_left_def split: option.splits)
qed

lemma other_list:
  "banFile (TempBanIP d ip s) = banFile s" "tempBans (BanIp ip s) = tempBans s" "tempBans (snd (UnbanIp ip s)) = tempBans s"
  by (simp_all add: TempBanIP_def BanIp_def UnbanIp_def SaveDefaultBanList_def Let_def case_prod_beta)

lemma LoadDefaultBanList_cong: "banFile s' = banFile s \<Longrightarrow> LoadDefaultBanList s' = LoadDefaultBanList s"
  by (simp add: LoadDefaultBanList_def)

text \<open>One step of the server is one step of the abstract view.\<close>

lemma ban_step_barred:
  assumes "store_ok most s" "step_ok a" "most + games_added a < 2 ^ 31"
  shows "barred (ban_step s a) = bar_step (barred s) a \<and> store_ok (most + games_added a) (ban_step s a)"
proof (cases a)
  case (Banned ip)
  then show ?thesis using assms perm.inv_ban [of s ip] BanIp_loaded [of s ip]
    by (simp add: barred_def bar_step_def ban_step_def store_ok_def other_list games_left_def fun_eq_iff)
next
  case (TempBanned d ip)
  then have m: "most + uint d < 2 ^ 31" using assms(3) by simp
  note e = TempBanIP_entries [OF assms(1) m]
  have p: "0 \<le> most" "0 < uint d" "\<And>k n. map_of (tempBans s) k = Some n \<Longrightarrow> 1 \<le> n \<and> n \<le> most"
    using assms(1,2) TempBanned by (auto simp: store_ok_def)
  then have "0 \<le> games_left s ip \<and> games_left s ip \<le> most"
    by (auto simp: games_left_def split: option.splits dest: p(3))
  with p have "\<forall>k n. map_of (tempBans (TempBanIP d ip s)) k = Some n \<longrightarrow> 1 \<le> n \<and> n \<le> most + uint d"
    unfolding e by (auto split: if_splits dest!: p(3))
  moreover have "distinct (map fst (tempBans (TempBanIP d ip s)))"
    using assms(1) distinct_temp_add by (simp add: TempBanIP_def store_ok_def)
  moreover have "games_left (TempBanIP d ip s) = (games_left s)(ip := games_left s ip + uint d)"
    by (rule ext) (simp add: games_left_def [of "TempBanIP d ip s"] e, simp add: games_left_def)
  ultimately show ?thesis using TempBanned assms(1) LoadDefaultBanList_cong [OF other_list(1)] p(1,2)
    by (simp add: ban_step_def barred_def bar_step_def store_ok_def bans_ok_def)
next
  case (Unbanned ip)
  then show ?thesis using assms perm.inv_unban [of s ip] UnbanIp_loaded [of s ip]
    by (simp add: barred_def bar_step_def ban_step_def store_ok_def other_list games_left_def fun_eq_iff)
next
  case GameOver
  let ?s = "s\<lparr>tempBans := decrementDuration (tempBans s)\<rparr>"
  have d: "distinct (map fst (tempBans s))"
    and v: "\<And>k n. map_of (tempBans s) k = Some n \<Longrightarrow> 1 \<le> n \<and> n \<le> most" using assms(1) by (auto simp: store_ok_def)
  have "LoadDefaultBanList ?s = LoadDefaultBanList s" by (rule LoadDefaultBanList_cong) simp
  moreover have "games_left ?s ip = max 0 (games_left s ip - 1)" for ip
    using v [of ip] by (auto simp: games_left_def map_of_decrement [OF d] split: option.splits)
  moreover have "1 \<le> n \<and> n \<le> most" if "map_of (decrementDuration (tempBans s)) k = Some n" for k n
    using that v [of k] by (auto simp: map_of_decrement [OF d] split: option.splits if_splits)
  ultimately show ?thesis using GameOver assms(1) distinct_decrement [OF d]
    by (simp add: ban_step_def barred_def bar_step_def store_ok_def bans_ok_def fun_eq_iff)
qed

lemma ban_steps_barred:
  assumes "store_ok most s" "\<forall>a \<in> set steps. step_ok a" "most + sum_list (map games_added steps) < 2 ^ 31"
  shows "barred (foldl ban_step s steps) = foldl bar_step (barred s) steps
    \<and> store_ok (most + sum_list (map games_added steps)) (foldl ban_step s steps)"
  using assms
proof (induction steps arbitrary: s most)
  case (Cons a steps)
  have "most + games_added a < 2 ^ 31" using Cons.prems(3) games_added_pos(2) [of steps] by simp
  with ban_step_barred [of most s a] Cons.prems
  have "barred (ban_step s a) = bar_step (barred s) a" "store_ok (most + games_added a) (ban_step s a)" by auto
  with Cons.IH [of "most + games_added a" "ban_step s a"] Cons.prems show ?case by (simp add: add.assoc)
qed simp

text \<open>C8. The server refuses exactly the banned addresses. Whatever sequence of permanent bans, bans for a
  number of games, unbans and ended games the server has gone through, the next join request is
  refused when its IPv4 address is banned for good or still has games to sit out, and handed to the game
  otherwise; the port does not matter. Unbanning lifts the permanent ban only. Permanent bans go through the text file,
  so the banned texts must survive it, temporary bans are for at least one game, and all their games
  together fit in an \<open>int\<close>.\<close>

theorem banned_address_is_refused:
  assumes "store_ok most s" "\<forall>a \<in> set steps. step_ok a" "most + sum_list (map games_added steps) < 2 ^ 31"
    and "foldl bar_step (barred s) steps = (perm, left)"
  shows "handle_join_request (foldl ban_step s steps) b =
    (if AddressToString b \<in> perm \<or> 0 < left (AddressToString b) then JoinRefused (AddressToString b)
     else JoinContinued b)
    \<and> (AddressToString b = AddressToString c \<longleftrightarrow> IPv4 b = IPv4 c)"
proof -
  let ?s = "foldl ban_step s steps"
  have b: "barred ?s = (perm, left)" and ok: "store_ok (most + sum_list (map games_added steps)) ?s"
    using ban_steps_barred [OF assms(1-3)] assms(4) by auto
  have "TempContainsIp (tempBans ?s) ip \<longleftrightarrow> 0 < left ip" for ip
  proof -
    have "left ip = games_left ?s ip" using b by (simp add: barred_def fun_eq_iff)
    moreover have "0 < n" if "map_of (tempBans ?s) ip = Some n" for n
      using ok that unfolding store_ok_def by (metis zero_less_one order_less_le_trans)
    ultimately show ?thesis
      by (cases "map_of (tempBans ?s) ip") (simp_all only: TempContainsIp_def games_left_def option.case, simp_all)
  qed
  moreover have "ContainsIp (LoadDefaultBanList ?s) ip \<longleftrightarrow> ip \<in> perm" for ip
    using b by (auto simp: ContainsIp_def barred_def)
  ultimately show ?thesis
    by (simp add: handle_join_request_def Let_def AddressToString_def inet_ntop_inject ToInAddr_inject)
qed

definition no_bans :: ServerBans where "no_bans = \<lparr>banFile = None, tempBans = []\<rparr>"

lemma no_bans_ok: "store_ok 0 no_bans" "barred no_bans = ({}, \<lambda>_. 0)"
  by (simp_all add: store_ok_def no_bans_def bans_ok_def LoadDefaultBanList_def empty_bans_def barred_def games_left_def fun_eq_iff)

theorem banned_address_is_refused_witness:
  "handle_join_request (foldl ban_step no_bans
      [TempBanned 2 (AddressToString loopback_address), Banned (AddressToString (FromInAddr 0x0100000A 11774)), GameOver]) (loopback_address\<lparr>Port := 1\<rparr>)
      = JoinRefused (AddressToString loopback_address)
   \<and> handle_join_request (foldl ban_step no_bans
      [TempBanned 2 (AddressToString loopback_address), Banned (AddressToString (FromInAddr 0x0100000A 11774)), GameOver, GameOver]) (loopback_address\<lparr>Port := 1\<rparr>)
      = JoinContinued (loopback_address\<lparr>Port := 1\<rparr>)"
proof -
  let ?other = "AddressToString (FromInAddr 0x0100000A 11774)"
  let ?one = "[TempBanned 2 (AddressToString loopback_address), Banned ?other, GameOver]"
  have p: "AddressToString (loopback_address\<lparr>Port := 1\<rparr>) = AddressToString loopback_address"
    by (simp add: AddressToString_def ToInAddr_def)
  have "IPv4 loopback_address \<noteq> IPv4 (FromInAddr 0x0100000A 11774)"
    by (simp add: loopback_address_value FromInAddr_def byteswap_ulong_def)
  then have n: "AddressToString loopback_address \<noteq> AddressToString (FromInAddr 0x0100000A 11774)"
    by (simp add: AddressToString_def inet_ntop_inject ToInAddr_inject)
  have t: "ban_text ?other" by (simp add: AddressToString_def ban_text_inet_ntop)
  have one: "foldl bar_step (barred no_bans) ?one = ({?other}, (\<lambda>_. 0)(AddressToString loopback_address := 1))"
    by (auto simp: no_bans_ok(2) bar_step_def)
  then have two: "foldl bar_step (barred no_bans) (?one @ [GameOver]) = ({?other}, \<lambda>_. 0)"
    by (auto simp: bar_step_def)
  show ?thesis
    using banned_address_is_refused [OF no_bans_ok(1) _ _ one, of "loopback_address\<lparr>Port := 1\<rparr>" b]
      banned_address_is_refused [OF no_bans_ok(1) _ _ two, of "loopback_address\<lparr>Port := 1\<rparr>" b] t n
    by (simp add: p)
qed

end
