(* ===== verification/BitStream.thy ===== *)
theory BitStream
  imports Strings
begin

text \<open>
  \<open>Utils/Bits.hpp\<close>, \<open>Blam/BitStream.hpp\<close> and \<open>.cpp\<close>: writing and reading numbers and strings as
  bits, most significant bit first. The program's own part is the write window and the routines for
  ranges and strings; what the engine does at fixed addresses (flushing the window, reading, copying
  blocks) is a record of parameters with the laws the code relies on. The round trips hold for every
  engine that satisfies the laws; a stream kept as a list of bits is one.
\<close>

subsection \<open>Bits\<close>

fun CountBits :: "nat \<Rightarrow> nat" where
  "CountBits val = (if val = 0 then 0 else Suc (CountBits (val div 2)))"

declare CountBits.simps [simp del]

definition to_bits :: "nat \<Rightarrow> u64 \<Rightarrow> bool list" where
  "to_bits n v = map (bit v) (rev [0..<n])"

definition of_bits :: "bool list \<Rightarrow> u64" where
  "of_bits bs = horner_sum of_bool 2 (rev bs)"

lemma length_to_bits [simp]: "length (to_bits n v) = n"
  by (simp add: to_bits_def)

lemma of_bits_to_bits: "of_bits (to_bits n v) = take_bit n v"
  by (simp add: of_bits_def to_bits_def rev_map horner_sum_bit_eq_take_bit)

lemma less_CountBits: "n \<le> m \<Longrightarrow> n < 2 ^ CountBits m"
proof (induction m arbitrary: n rule: CountBits.induct)
  case (1 m)
  show ?case
  proof (cases "m = 0")
    case False
    have "n div 2 < 2 ^ CountBits (m div 2)" using 1 False by (simp add: div_le_mono)
    then show ?thesis using False by (subst CountBits.simps) simp
  qed (use 1 in \<open>simp add: CountBits.simps\<close>)
qed

lemma CountBits_le: "m < 2 ^ k \<Longrightarrow> CountBits m \<le> k"
proof (induction m arbitrary: k rule: CountBits.induct)
  case (1 m)
  show ?case
  proof (cases "m = 0")
    case False
    then obtain j where k: "k = Suc j" using 1(2) by (cases k) auto
    have "CountBits (m div 2) \<le> j" using 1 False k by simp
    then show ?thesis using False k by (subst CountBits.simps) simp
  qed (simp add: CountBits.simps)
qed

lemma take_bit_CountBits:
  assumes "unat v \<le> m" "m < 2 ^ 64"
  shows "take_bit (CountBits m) (v::u64) = v"
proof (rule word_unat_eq_iff [THEN iffD2])
  have "unat v < 2 ^ CountBits m" using assms(1) by (rule less_CountBits)
  then show "unat (take_bit (CountBits m) v) = unat v"
    by (simp add: unsigned_take_bit_eq take_bit_nat_eq_self)
qed

subsection \<open>The stream and the engine\<close>

record 'e BitStream =
  position :: u32
  window :: u64
  windowBitsUsed :: nat
  engine :: 'e

record ('e, 'r) StreamOps =
  EngineWriteBits :: "'e BitStream \<Rightarrow> u64 \<Rightarrow> nat \<Rightarrow> 'e BitStream"
  EngineWriteBlock :: "'e BitStream \<Rightarrow> u8 list \<Rightarrow> nat \<Rightarrow> 'e BitStream"
  EngineReadBit :: "'r \<Rightarrow> bool \<times> 'r"
  EngineReadBits32 :: "'r \<Rightarrow> nat \<Rightarrow> u32 \<times> 'r"
  EngineReadBits64 :: "'r \<Rightarrow> nat \<Rightarrow> u64 \<times> 'r"
  EngineReadBlock :: "'r \<Rightarrow> nat \<Rightarrow> u8 list \<times> 'r"

definition GetAvailableBits :: "'e BitStream \<Rightarrow> nat" where
  "GetAvailableBits s = 64 - windowBitsUsed s"

definition BitsAvailable :: "'e BitStream \<Rightarrow> nat \<Rightarrow> bool" where
  "BitsAvailable s bits \<longleftrightarrow> bits \<le> GetAvailableBits s"

text \<open>A shift by the full width of 64 gives 0, as the compiler's helper for 64-bit shifts does.\<close>

definition WriteBits :: "('e, 'r) StreamOps \<Rightarrow> 'e BitStream \<Rightarrow> u64 \<Rightarrow> nat \<Rightarrow> 'e BitStream" where
  "WriteBits E s val bits =
     (if BitsAvailable s bits then
        s\<lparr>position := position s + of_nat bits, windowBitsUsed := windowBitsUsed s + bits,
          window := push_bit bits (window s) OR (val AND drop_bit (64 - bits) 0xFFFFFFFFFFFFFFFF)\<rparr>
      else EngineWriteBits E s val bits)"

definition ReadBits :: "('e, 'r) StreamOps \<Rightarrow> 'r \<Rightarrow> nat \<Rightarrow> u64 \<times> 'r" where
  "ReadBits E r bits =
     (if bits \<le> 32 then (let (v, r') = EngineReadBits32 E r bits in (ucast v, r'))
      else EngineReadBits64 E r bits)"

definition ReadBool :: "('e, 'r) StreamOps \<Rightarrow> 'r \<Rightarrow> bool \<times> 'r" where
  "ReadBool E r = EngineReadBit E r"

definition WriteBool :: "('e, 'r) StreamOps \<Rightarrow> 'e BitStream \<Rightarrow> bool \<Rightarrow> 'e BitStream" where
  "WriteBool E s b = WriteBits E s (of_bool b) 1"

definition WriteUnsigned :: "('e, 'r) StreamOps \<Rightarrow> 'e BitStream \<Rightarrow> 'a::len word \<Rightarrow> nat \<Rightarrow> 'e BitStream" where
  "WriteUnsigned E s val bits = WriteBits E s (ucast val) bits"

definition WriteRange :: "('e, 'r) StreamOps \<Rightarrow> 'e BitStream \<Rightarrow> 'a::len word \<Rightarrow> 'a word \<Rightarrow> 'a word \<Rightarrow> 'e BitStream" where
  "WriteRange E s val minValue maxValue =
     WriteUnsigned E s (val - minValue) (CountBits (unat (maxValue - minValue)))"

definition ReadUnsigned :: "('e, 'r) StreamOps \<Rightarrow> 'r \<Rightarrow> nat \<Rightarrow> 'a::len word \<times> 'r" where
  "ReadUnsigned E r bits = (let (v, r') = ReadBits E r bits in (ucast v, r'))"

definition ReadRange :: "('e, 'r) StreamOps \<Rightarrow> 'r \<Rightarrow> 'a::len word \<Rightarrow> 'a word \<Rightarrow> 'a word \<times> 'r" where
  "ReadRange E r minValue maxValue = ReadUnsigned E r (CountBits (unat (maxValue - minValue)))"

definition WriteBlock :: "('e, 'r) StreamOps \<Rightarrow> 'e BitStream \<Rightarrow> nat \<Rightarrow> u8 list \<Rightarrow> 'e BitStream" where
  "WriteBlock E s bits bytes = EngineWriteBlock E s bytes bits"

definition ReadBlock :: "('e, 'r) StreamOps \<Rightarrow> 'r \<Rightarrow> nat \<Rightarrow> u8 list \<times> 'r" where
  "ReadBlock E r bits = EngineReadBlock E r bits"

text \<open>Strings: a character array is represented by its text, what precedes the first NUL. The
  counting loop stops at the NUL or one cell before the end of the array.\<close>

fun string_length :: "string \<Rightarrow> nat \<Rightarrow> nat" where
  "string_length [] n = 0"
| "string_length (c # cs) 0 = 0"
| "string_length (c # cs) (Suc n) = (if c = NUL then 0 else Suc (string_length cs n))"

definition WriteString :: "('e, 'r) StreamOps \<Rightarrow> 'e BitStream \<Rightarrow> nat \<Rightarrow> string \<Rightarrow> 'e BitStream" where
  "WriteString E s MaxSize str =
     (let len = string_length str (MaxSize - 1);
          s1 = WriteRange E s (of_nat len :: u64) 0 (of_nat (MaxSize - 1)) in
      WriteBlock E s1 (len * 1 * 8) (map char_byte (take len str)))"

definition ReadString :: "('e, 'r) StreamOps \<Rightarrow> 'r \<Rightarrow> nat \<Rightarrow> string option \<times> 'r" where
  "ReadString E r MaxSize =
     (let (len, r1) = ReadRange E r (0::u32) (of_nat (MaxSize - 1)) in
      if MaxSize \<le> unat len then (None, r1)
      else (let (bytes, r2) = ReadBlock E r1 (unat len * 1 * 8) in
            (Some (c_str (map (\<lambda>b. char_of (unat b)) bytes)), r2)))"

subsection \<open>The laws of the engine\<close>

definition window_bits :: "'e BitStream \<Rightarrow> bool list" where
  "window_bits s = to_bits (windowBitsUsed s) (window s)"

definition stream_ok :: "'e BitStream \<Rightarrow> bool" where
  "stream_ok s \<longleftrightarrow> windowBitsUsed s \<le> 64"

text \<open>Everything written so far: what the engine has flushed, then the window.\<close>

definition written :: "('e \<Rightarrow> bool list) \<Rightarrow> 'e BitStream \<Rightarrow> bool list" where
  "written flushed s = flushed (engine s) @ window_bits s"

definition byte_bits_of :: "u8 list \<Rightarrow> bool list" where
  "byte_bits_of bytes = concat (map (\<lambda>b. to_bits 8 (ucast b)) bytes)"

definition stream_laws :: "('e, 'r) StreamOps \<Rightarrow> ('e \<Rightarrow> bool list) \<Rightarrow> ('r \<Rightarrow> bool list) \<Rightarrow> bool" where
  "stream_laws E flushed remaining \<longleftrightarrow>
     (\<forall>s v n. stream_ok s \<and> n \<le> 64 \<longrightarrow>
        stream_ok (EngineWriteBits E s v n)
        \<and> written flushed (EngineWriteBits E s v n) = written flushed s @ to_bits n v)
   \<and> (\<forall>s bytes. stream_ok s \<longrightarrow>
        stream_ok (EngineWriteBlock E s bytes (8 * length bytes))
        \<and> written flushed (EngineWriteBlock E s bytes (8 * length bytes))
            = written flushed s @ byte_bits_of bytes)
   \<and> (\<forall>r b rest. remaining r = b # rest \<longrightarrow>
        (\<exists>r'. EngineReadBit E r = (b, r') \<and> remaining r' = rest))
   \<and> (\<forall>r bs rest. remaining r = bs @ rest \<and> length bs \<le> 32 \<longrightarrow>
        (\<exists>r'. EngineReadBits32 E r (length bs) = (ucast (of_bits bs), r') \<and> remaining r' = rest))
   \<and> (\<forall>r bs rest. remaining r = bs @ rest \<and> length bs \<le> 64 \<longrightarrow>
        (\<exists>r'. EngineReadBits64 E r (length bs) = (of_bits bs, r') \<and> remaining r' = rest))
   \<and> (\<forall>r bytes rest. remaining r = byte_bits_of bytes @ rest \<longrightarrow>
        (\<exists>r'. EngineReadBlock E r (8 * length bytes) = (bytes, r') \<and> remaining r' = rest))"

subsection \<open>Writing\<close>

lemma to_bits_append:
  assumes "n \<le> 64" "m + n \<le> 64"
  shows "to_bits (m + n) (push_bit n w OR (v AND drop_bit (64 - n) 0xFFFFFFFFFFFFFFFF))
       = to_bits m w @ to_bits n (v::u64)"
proof -
  have mask: "drop_bit (64 - n) (0xFFFFFFFFFFFFFFFF::u64) = mask n"
  proof (rule bit_word_eqI)
    fix k assume "k < LENGTH(64)"
    have "(0xFFFFFFFFFFFFFFFF::u64) = mask 64" by (simp add: mask_eq_exp_minus_1)
    then have "bit (drop_bit (64 - n) (0xFFFFFFFFFFFFFFFF::u64)) k = bit (mask 64 :: u64) (64 - n + k)"
      by (simp only: bit_drop_bit_eq o_def)
    also have "\<dots> = (k < n)" using assms(1) \<open>k < LENGTH(64)\<close> by (simp only: bit_mask_iff) auto
    finally show "bit (drop_bit (64 - n) (0xFFFFFFFFFFFFFFFF::u64)) k = bit (mask n :: u64) k"
      using \<open>k < LENGTH(64)\<close> assms(1) by (simp add: bit_mask_iff)
  qed
  have "to_bits (m + n) (push_bit n w OR (v AND mask n))
      = map (bit (push_bit n w OR (v AND mask n))) (rev [n..<m + n])
        @ map (bit (push_bit n w OR (v AND mask n))) (rev [0..<n])"
    unfolding to_bits_def by (metis add.commute le_add1 le_iff_add map_append rev_append upt_add_eq_append zero_le)
  also have "map (bit (push_bit n w OR (v AND mask n))) (rev [n..<m + n]) = to_bits m w"
  proof -
    have "[n..<m + n] = map (\<lambda>i. i + n) [0..<m]" by (simp add: map_add_upt add.commute)
    then show ?thesis
      using assms by (auto simp: to_bits_def rev_map bit_simps)
  qed
  also have "map (bit (push_bit n w OR (v AND mask n))) (rev [0..<n]) = to_bits n v"
    using assms by (auto simp: to_bits_def bit_simps)
  finally show ?thesis by (simp add: mask)
qed

lemma WriteBits_spec:
  assumes "stream_laws E flushed remaining" "stream_ok s" "n \<le> 64"
  shows "stream_ok (WriteBits E s v n)"
    and "written flushed (WriteBits E s v n) = written flushed s @ to_bits n v"
proof -
  have "stream_ok (WriteBits E s v n)
    \<and> written flushed (WriteBits E s v n) = written flushed s @ to_bits n v"
  proof (cases "BitsAvailable s n")
    case True
    then have "windowBitsUsed s + n \<le> 64"
      using assms(2) by (simp add: BitsAvailable_def GetAvailableBits_def stream_ok_def)
    then show ?thesis
      using True to_bits_append [OF assms(3), of "windowBitsUsed s" "window s" v]
      by (simp add: WriteBits_def stream_ok_def written_def window_bits_def)
  next
    case False
    then show ?thesis using assms by (simp add: WriteBits_def stream_laws_def)
  qed
  then show "stream_ok (WriteBits E s v n)"
    "written flushed (WriteBits E s v n) = written flushed s @ to_bits n v" by auto
qed

text \<open>The widths of ranges and the values written in them.\<close>

lemma WriteRange_spec:
  fixes v :: "'a::len word"
  assumes "stream_laws E flushed remaining" "stream_ok s"
    and "LENGTH('a) \<le> 64"
  shows "stream_ok (WriteRange E s v lo hi)"
    and "written flushed (WriteRange E s v lo hi)
       = written flushed s @ to_bits (CountBits (unat (hi - lo))) (ucast (v - lo))"
proof -
  have "unat (hi - lo) < 2 ^ LENGTH('a)" by (rule unsigned_less)
  then have "CountBits (unat (hi - lo)) \<le> LENGTH('a)" by (rule CountBits_le)
  then have "CountBits (unat (hi - lo)) \<le> 64" using assms(3) by simp
  from WriteBits_spec [OF assms(1,2) this]
  show "stream_ok (WriteRange E s v lo hi)"
    "written flushed (WriteRange E s v lo hi)
       = written flushed s @ to_bits (CountBits (unat (hi - lo))) (ucast (v - lo))"
    by (simp_all add: WriteRange_def WriteUnsigned_def)
qed

lemma WriteBlock_spec:
  assumes "stream_laws E flushed remaining" "stream_ok s"
  shows "stream_ok (WriteBlock E s (8 * length bytes) bytes)"
    and "written flushed (WriteBlock E s (8 * length bytes) bytes) = written flushed s @ byte_bits_of bytes"
  using assms by (simp_all add: WriteBlock_def stream_laws_def)

lemma string_length_eq: "string_length s n = min n (length (c_str s))"
  by (induction s n rule: string_length.induct) (simp_all add: c_str_def)

text \<open>The bits of a number in a range and of a string.\<close>

definition range_bits :: "nat \<Rightarrow> u64 \<Rightarrow> bool list" where
  "range_bits m v = to_bits (CountBits m) v"

definition string_bits :: "nat \<Rightarrow> string \<Rightarrow> bool list" where
  "string_bits MaxSize str =
     range_bits (MaxSize - 1) (of_nat (length str)) @ byte_bits_of (map char_byte str)"

definition string_fits :: "nat \<Rightarrow> string \<Rightarrow> bool" where
  "string_fits MaxSize str \<longleftrightarrow> length str < MaxSize \<and> MaxSize < 2 ^ 16 \<and> NUL \<notin> set str"

lemma unat_small:
  "n < 65536 \<Longrightarrow> unat (of_nat n :: u64) = n" "n < 65536 \<Longrightarrow> unat (of_nat n :: u32) = n"
  by (simp_all add: unat_of_nat take_bit_nat_eq_self)

lemma WriteString_spec:
  assumes "stream_laws E flushed remaining" "stream_ok s" "string_fits MaxSize str"
  shows "stream_ok (WriteString E s MaxSize str)"
    and "written flushed (WriteString E s MaxSize str) = written flushed s @ string_bits MaxSize str"
proof -
  have len: "string_length str (MaxSize - 1) = length str"
    using assms(3) by (auto simp: string_length_eq string_fits_def c_str_id)
  have m: "unat (of_nat (MaxSize - 1) :: u64) = MaxSize - 1"
    using assms(3) by (intro unat_small) (auto simp: string_fits_def)
  let ?s1 = "WriteRange E s (of_nat (length str) :: u64) 0 (of_nat (MaxSize - 1))"
  have l: "LENGTH(64) \<le> 64" by simp
  note w = WriteRange_spec [OF assms(1,2) l, of "of_nat (length str) :: u64" 0 "of_nat (MaxSize - 1)",
      unfolded diff_zero m ucast_id]
  have s1: "stream_ok ?s1" by (rule w(1))
  have s2: "written flushed ?s1 = written flushed s @ range_bits (MaxSize - 1) (of_nat (length str))"
    unfolding range_bits_def by (rule w(2))
  have e: "WriteString E s MaxSize str = WriteBlock E ?s1 (8 * length (map char_byte str)) (map char_byte str)"
    unfolding WriteString_def len Let_def
    by (simp only: length_map take_all order_refl mult_1_right mult.commute [of "length str" 8])
  show "stream_ok (WriteString E s MaxSize str)"
    "written flushed (WriteString E s MaxSize str) = written flushed s @ string_bits MaxSize str"
    unfolding e using WriteBlock_spec [OF assms(1) s1, of "map char_byte str"]
    by (simp_all only: string_bits_def s2 append.assoc)
qed

subsection \<open>Reading\<close>

lemma ReadBits_spec:
  assumes "stream_laws E flushed remaining" "remaining r = to_bits n v @ rest" "n \<le> 64"
  shows "\<exists>r'. ReadBits E r n = (take_bit n v, r') \<and> remaining r' = rest"
proof (cases "n \<le> 32")
  case True
  then obtain r' where "EngineReadBits32 E r n = (ucast (of_bits (to_bits n v)), r')" "remaining r' = rest"
    using assms unfolding stream_laws_def by (metis length_to_bits)
  moreover have "ucast (ucast (take_bit n v) :: u32) = take_bit n v"
    using True by (auto intro!: bit_word_eqI simp: bit_simps)
  ultimately show ?thesis using True by (simp add: ReadBits_def of_bits_to_bits)
next
  case False
  obtain r' where "EngineReadBits64 E r n = (of_bits (to_bits n v), r')" "remaining r' = rest"
    using assms unfolding stream_laws_def by (metis length_to_bits)
  then show ?thesis using False by (simp add: ReadBits_def of_bits_to_bits)
qed

lemma ReadUnsigned_spec:
  assumes "stream_laws E flushed remaining" "remaining r = to_bits n (ucast v) @ rest" "n \<le> 64"
  shows "\<exists>r'. ReadUnsigned E r n = (ucast (take_bit n (ucast (v::'a::len word) :: u64)) :: 'a word, r')
    \<and> remaining r' = rest"
  using ReadBits_spec [OF assms(1,2,3)] by (auto simp: ReadUnsigned_def)

text \<open>A number between 0 and a bound.\<close>

lemma ReadRange_spec:
  fixes v :: "'a::len word"
  assumes "stream_laws E flushed remaining" "LENGTH('a) \<le> 64" "v \<le> hi"
    and "remaining r = range_bits (unat hi) (ucast v) @ rest"
  shows "\<exists>r'. ReadRange E r 0 hi = (v, r') \<and> remaining r' = rest"
proof -
  have hi: "unat hi < 2 ^ LENGTH('a)" by (rule unsigned_less)
  then have n: "CountBits (unat hi) \<le> 64" using CountBits_le [OF hi] assms(2) by simp
  have "(2::nat) ^ LENGTH('a) \<le> 2 ^ 64" using assms(2) by (rule power_increasing) simp
  with hi have hi64: "unat hi < 2 ^ 64" by (rule order_less_le_trans)
  have "unat v < 2 ^ LENGTH('a)" by (rule unsigned_less)
  with \<open>2 ^ LENGTH('a) \<le> 2 ^ 64\<close> have "unat v < 2 ^ 64" by (blast intro: order_less_le_trans)
  then have v: "unat (ucast v :: u64) = unat v"
    by (simp add: unsigned_ucast_eq take_bit_nat_eq_self)
  have "take_bit (CountBits (unat hi)) (ucast v :: u64) = ucast v"
    using assms(3) hi64 by (intro take_bit_CountBits) (simp_all add: v word_le_nat_alt)
  moreover have "ucast (ucast v :: u64) = v"
    using assms(2) by (auto intro!: bit_word_eqI simp: bit_simps)
  ultimately show ?thesis
    using ReadUnsigned_spec [OF assms(1) assms(4) [unfolded range_bits_def] n]
    by (simp add: ReadRange_def)
qed

lemma char_of_char_byte: "char_of (unat (char_byte c)) = c"
  by (simp add: unat_char_byte)

lemma ReadBlock_spec:
  assumes "stream_laws E flushed remaining" "remaining r = byte_bits_of bytes @ rest"
  shows "\<exists>r'. ReadBlock E r (8 * length bytes) = (bytes, r') \<and> remaining r' = rest"
  using assms by (simp add: ReadBlock_def stream_laws_def)

lemma ReadString_spec:
  assumes "stream_laws E flushed remaining" "string_fits MaxSize str"
    and "remaining r = string_bits MaxSize str @ rest"
  shows "\<exists>r'. ReadString E r MaxSize = (Some str, r') \<and> remaining r' = rest"
proof -
  have small: "length str < 65536" "MaxSize - 1 < 65536"
    using assms(2) by (auto simp: string_fits_def)
  have len: "unat (of_nat (length str) :: u32) = length str" by (rule unat_small(2) [OF small(1)])
  have len2: "unat (of_nat (MaxSize - 1) :: u32) = MaxSize - 1" by (rule unat_small(2) [OF small(2)])
  have u: "(of_nat (length str) :: u64) = ucast (of_nat (length str) :: u32)"
  proof -
    have "(of_nat (unat (of_nat (length str) :: u32)) :: u64) = ucast (of_nat (length str) :: u32)" by simp
    then show ?thesis by (simp only: len)
  qed
  have "remaining r = range_bits (unat (of_nat (MaxSize - 1) :: u32)) (ucast (of_nat (length str) :: u32))
      @ byte_bits_of (map char_byte str) @ rest"
    using assms(3) by (simp only: string_bits_def u len2 append.assoc)
  moreover have "(of_nat (length str) :: u32) \<le> of_nat (MaxSize - 1)"
    using assms(2) unfolding word_le_nat_alt len len2 by (auto simp: string_fits_def)
  ultimately obtain r1 where r1: "ReadRange E r 0 (of_nat (MaxSize - 1)) = (of_nat (length str) :: u32, r1)"
    "remaining r1 = byte_bits_of (map char_byte str) @ rest"
    using ReadRange_spec [OF assms(1), of "of_nat (length str) :: u32" "of_nat (MaxSize - 1)" r] by auto
  obtain r2 where "ReadBlock E r1 (8 * length (map char_byte str)) = (map char_byte str, r2)" "remaining r2 = rest"
    using ReadBlock_spec [OF assms(1) r1(2)] by blast
  moreover have "map (\<lambda>b. char_of (unat b)) (map char_byte str) = str"
    by (simp add: o_def char_of_char_byte)
  ultimately show ?thesis
    using assms(2) unfolding ReadString_def r1 Let_def prod.case len
    by (simp add: string_fits_def c_str_id mult.commute)
qed

text \<open>A number that is read back with \<open>ReadUnsigned(minValue, maxValue)\<close> comes back without its
  minimum: \<open>WriteUnsigned\<close> subtracts it, but the reader does not add it again. For the ranges that
  start at 0, the only ones the packets use, the two routines are inverse to each other.\<close>

theorem ReadRange_WriteRange:
  fixes v :: "'a::len word"
  assumes "stream_laws E flushed remaining" "LENGTH('a) \<le> 64" "lo \<le> v" "v \<le> hi"
    and "stream_ok s" "written flushed s = []"
    and "remaining r = written flushed (WriteRange E s v lo hi) @ rest"
  shows "\<exists>r'. ReadRange E r lo hi = (v - lo, r') \<and> remaining r' = rest"
proof -
  have "v - lo \<le> hi - lo"
    using assms(3,4) by (simp add: word_le_nat_alt unat_sub diff_le_mono order_trans)
  moreover have "remaining r = range_bits (unat (hi - lo)) (ucast (v - lo)) @ rest"
    using assms(7) WriteRange_spec(2) [OF assms(1,5,2)] by (simp add: assms(6) range_bits_def)
  ultimately have "\<exists>r'. ReadRange E r 0 (hi - lo) = (v - lo, r') \<and> remaining r' = rest"
    by (rule ReadRange_spec [OF assms(1,2)])
  then show ?thesis by (simp add: ReadRange_def)
qed

subsection \<open>A stream kept as a list of bits\<close>

definition put_bits :: "bool list \<Rightarrow> bool list BitStream \<Rightarrow> bool list BitStream" where
  "put_bits bs s = s\<lparr>engine := engine s @ window_bits s @ bs, window := 0, windowBitsUsed := 0\<rparr>"

fun bits_bytes :: "bool list \<Rightarrow> nat \<Rightarrow> u8 list" where
  "bits_bytes bs 0 = []"
| "bits_bytes bs (Suc n) = ucast (of_bits (take 8 bs)) # bits_bytes (drop 8 bs) n"

definition list_ops :: "(bool list, bool list) StreamOps" where
  "list_ops = \<lparr>EngineWriteBits = (\<lambda>s v n. put_bits (to_bits n v) s),
     EngineWriteBlock = (\<lambda>s bytes n. put_bits (byte_bits_of bytes) s),
     EngineReadBit = (\<lambda>r. (hd r, tl r)),
     EngineReadBits32 = (\<lambda>r n. (ucast (of_bits (take n r)), drop n r)),
     EngineReadBits64 = (\<lambda>r n. (of_bits (take n r), drop n r)),
     EngineReadBlock = (\<lambda>r n. (bits_bytes r (n div 8), drop n r))\<rparr>"

definition empty_stream :: "bool list BitStream" where
  "empty_stream = \<lparr>position = 0, window = 0, windowBitsUsed = 0, engine = []\<rparr>"

lemma written_put_bits: "written id (put_bits bs s) = written id s @ bs" "stream_ok (put_bits bs s)"
  by (simp_all add: written_def put_bits_def window_bits_def stream_ok_def to_bits_def)

lemma byte_bits_of_Cons: "byte_bits_of (b # bytes) = to_bits 8 (ucast b) @ byte_bits_of bytes"
  by (simp add: byte_bits_of_def)

lemma length_byte_bits_of [simp]: "length (byte_bits_of bytes) = 8 * length bytes"
  by (induction bytes) (simp_all add: byte_bits_of_def)

lemma bits_bytes_byte_bits: "bits_bytes (byte_bits_of bytes @ rest) (length bytes) = bytes"
proof (induction bytes)
  case (Cons b bytes)
  have "ucast (take_bit 8 (ucast b :: u64)) = b"
    by (auto intro!: bit_word_eqI simp: bit_simps)
  with Cons show ?case by (simp add: byte_bits_of_Cons of_bits_to_bits)
qed simp

lemma list_stream_laws: "stream_laws list_ops id id"
  unfolding stream_laws_def list_ops_def
  by (auto simp: written_put_bits bits_bytes_byte_bits)

lemma empty_stream_facts [simp]: "stream_ok empty_stream" "written id empty_stream = []"
  by (simp_all add: stream_ok_def written_def empty_stream_def window_bits_def to_bits_def)

theorem ReadRange_WriteRange_witness:
  "\<exists>r'. ReadRange list_ops (written id (WriteRange list_ops empty_stream (9::u8) 5 20)) 5 20 = (4::u8, r')
     \<and> id r' = []"
  using ReadRange_WriteRange [OF list_stream_laws, where v = "9::u8" and lo = 5 and hi = 20
      and s = empty_stream and rest = "[]"] by simp

subsection \<open>Chaining writes\<close>

definition writes :: "('e \<Rightarrow> bool list) \<Rightarrow> 'e BitStream \<Rightarrow> bool list \<Rightarrow> 'e BitStream \<Rightarrow> bool" where
  "writes flushed s bs s' \<longleftrightarrow> stream_ok s' \<and> written flushed s' = written flushed s @ bs"

lemma writes_ok: "writes flushed s bs s' \<Longrightarrow> stream_ok s'"
  by (simp add: writes_def)

lemma writes_refl: "stream_ok s \<Longrightarrow> writes flushed s [] s"
  by (simp add: writes_def)

lemma writes_trans: "writes flushed s bs s1 \<Longrightarrow> writes flushed s1 cs s2 \<Longrightarrow> writes flushed s (bs @ cs) s2"
  by (simp add: writes_def)

lemma writes_if:
  "(P \<Longrightarrow> writes flushed s bs s') \<Longrightarrow> stream_ok s \<Longrightarrow>
     writes flushed s (if P then bs else []) (if P then s' else s)"
  by (simp add: writes_refl)

lemma byte_widths: "LENGTH(32) \<le> 64" "LENGTH(16) \<le> 64" "LENGTH(8) \<le> 64"
  by simp_all

lemma writes_range:
  fixes v :: "'a::len word"
  assumes "stream_laws E flushed remaining" "stream_ok s" "LENGTH('a) \<le> 64"
  shows "writes flushed s (range_bits (unat hi) (ucast v)) (WriteRange E s v 0 hi)"
  using WriteRange_spec [OF assms, of v 0 hi] by (simp add: writes_def range_bits_def)

lemma writes_string:
  assumes "stream_laws E flushed remaining" "stream_ok s" "string_fits MaxSize str"
  shows "writes flushed s (string_bits MaxSize str) (WriteString E s MaxSize str)"
  using WriteString_spec [OF assms] by (simp add: writes_def)

lemma writes_bool:
  assumes "stream_laws E flushed remaining" "stream_ok s"
  shows "writes flushed s [b] (WriteBool E s b)"
proof -
  have "(1::nat) \<le> 64" by simp
  from WriteBits_spec [OF assms this, of "of_bool b"] show ?thesis
    by (simp add: writes_def WriteBool_def to_bits_def)
qed

lemma writes_unsigned:
  assumes "stream_laws E flushed remaining" "stream_ok s" "n \<le> 64"
  shows "writes flushed s (to_bits n (ucast v)) (WriteUnsigned E s v n)"
  using WriteBits_spec [OF assms] by (simp add: writes_def WriteUnsigned_def)

lemma ReadBool_spec:
  assumes "stream_laws E flushed remaining" "remaining r = [b] @ rest"
  shows "\<exists>r'. ReadBool E r = (b, r') \<and> remaining r' = rest"
  using assms by (simp add: ReadBool_def stream_laws_def)

subsection \<open>The contract of a packet format\<close>

text \<open>A packet handler writes its data as some bits and reads the same data back from a stream that
  starts with them, consuming exactly those bits.\<close>

locale packet_codec =
  fixes ser :: "('e, 'r) StreamOps \<Rightarrow> 'e BitStream \<Rightarrow> 'm \<Rightarrow> 'e BitStream"
    and deser :: "('e, 'r) StreamOps \<Rightarrow> 'r \<Rightarrow> 'm option \<times> 'r"
    and enc :: "'m \<Rightarrow> bool list"
    and wf :: "'m \<Rightarrow> bool"
  assumes ser_spec: "stream_laws E flushed remaining \<Longrightarrow> stream_ok s \<Longrightarrow> wf m \<Longrightarrow>
      stream_ok (ser E s m) \<and> written flushed (ser E s m) = written flushed s @ enc m"
    and deser_spec: "stream_laws E flushed remaining \<Longrightarrow> wf m \<Longrightarrow> remaining r = enc m @ rest \<Longrightarrow>
      \<exists>r'. deser E r = (Some m, r') \<and> remaining r' = rest"
begin

lemma packet_roundtrip:
  assumes "stream_laws E flushed remaining" "stream_ok s" "written flushed s = []" "wf m"
    and "remaining r = written flushed (ser E s m) @ rest"
  shows "\<exists>r'. deser E r = (Some m, r') \<and> remaining r' = rest"
  using deser_spec [OF assms(1,4)] ser_spec [OF assms(1,2,4)] assms(3,5) by simp

primrec read_packets :: "('e, 'r) StreamOps \<Rightarrow> nat \<Rightarrow> 'r \<Rightarrow> 'm list option" where
  "read_packets E 0 r = Some []"
| "read_packets E (Suc n) r = (case deser E r of
     (None, _) \<Rightarrow> None
   | (Some m, r') \<Rightarrow> map_option ((#) m) (read_packets E n r'))"

lemma ser_all_spec:
  assumes "stream_laws E flushed remaining" "stream_ok s" "\<forall>m \<in> set ms. wf m"
  shows "stream_ok (foldl (ser E) s ms)
    \<and> written flushed (foldl (ser E) s ms) = written flushed s @ concat (map enc ms)"
  using assms(2,3)
proof (induction ms arbitrary: s)
  case (Cons m ms)
  with ser_spec [OF assms(1) Cons.prems(1), of m] show ?case by simp
qed simp

lemma read_packets_enc:
  assumes "stream_laws E flushed remaining" "\<forall>m \<in> set ms. wf m"
    and "remaining r = concat (map enc ms) @ rest"
  shows "read_packets E (length ms) r = Some ms"
  using assms(2,3)
proof (induction ms arbitrary: r)
  case (Cons m ms)
  then obtain r' where "deser E r = (Some m, r')" "remaining r' = concat (map enc ms) @ rest"
    using deser_spec [OF assms(1), of m r "concat (map enc ms) @ rest"] by auto
  with Cons show ?case by simp
qed simp

text \<open>A sequence of packets written to one stream is read back packet by packet.\<close>

lemma packets_roundtrip:
  assumes "stream_laws E flushed remaining" "stream_ok s" "written flushed s = []"
    and "\<forall>m \<in> set ms. wf m" "remaining r = written flushed (foldl (ser E) s ms)"
  shows "read_packets E (length ms) r = Some ms"
  using read_packets_enc [OF assms(1,4), of r "[]"] ser_all_spec [OF assms(1,2,4)] assms(3,5) by simp

end

end
