(* ===== verification/CustomPackets.thy ===== *)
theory CustomPackets
  imports BitStream Session Registry
begin

text \<open>
  \<open>Patches/CustomPackets.hpp\<close> and \<open>.cpp\<close>: packets of the program's own, multiplexed over one packet
  type of the engine by the GUID of their type. The table maps a GUID to a name and a handler; a
  handler knows the packet sizes it accepts and how to write and read the data. The hash that gives a
  name its GUID is computed by OpenSSL and is a parameter; the initialisation of the header by the
  engine is too (a packet carries its 16 header bytes as they are).
\<close>

subsection \<open>Data\<close>

type_synonym PacketGuid = u32

definition CustomPacketId :: int where "CustomPacketId = 0x27"

record 'd Packet =
  Header :: "u8 list"
  TypeGuid :: PacketGuid
  Data :: 'd

definition sizeof_Header :: nat where "sizeof_Header = 16"

definition sizeof_PacketBase :: int where "sizeof_PacketBase = 20"

record ('e, 'r, 'd) RawPacketHandler =
  GetMinRawPacketSize :: int
  GetMaxRawPacketSize :: int
  SerializeRawPacket :: "('e, 'r) StreamOps \<Rightarrow> 'e BitStream \<Rightarrow> int \<Rightarrow> 'd \<Rightarrow> 'e BitStream"
  DeserializeRawPacket :: "('e, 'r) StreamOps \<Rightarrow> 'r \<Rightarrow> int \<Rightarrow> 'd option \<times> 'r"

record ('e, 'r, 'd) CustomPacket =
  PacketName :: string
  Handler :: "('e, 'r, 'd) RawPacketHandler"

type_synonym ('e, 'r, 'd) PacketTable = "PacketGuid \<rightharpoonup> ('e, 'r, 'd) CustomPacket"

subsection \<open>Registration and sending\<close>

definition LookUpPacketType :: "('e, 'r, 'd) PacketTable \<Rightarrow> PacketGuid \<Rightarrow> ('e, 'r, 'd) CustomPacket option" where
  "LookUpPacketType customPackets guid = customPackets guid"

definition RegisterPacketImpl :: "(string \<Rightarrow> PacketGuid option) \<Rightarrow> ('e, 'r, 'd) PacketTable \<Rightarrow> string
    \<Rightarrow> ('e, 'r, 'd) RawPacketHandler \<Rightarrow> (('e, 'r, 'd) PacketTable \<times> PacketGuid) res" where
  "RegisterPacketImpl hash32 customPackets n handler =
     (case hash32 n of
        None \<Rightarrow> Inl (RuntimeError ''Failed to generate packet GUID'')
      | Some guid \<Rightarrow>
          if LookUpPacketType customPackets guid \<noteq> None
          then Inl (RuntimeError ''Duplicate packet GUID'')
          else Inr (customPackets(guid \<mapsto> \<lparr>PacketName = n, Handler = handler\<rparr>), guid))"

text \<open>\<open>SendPacket\<close>: the channel the packet is handed to, if any.\<close>

definition SendPacket :: "Session option \<Rightarrow> int \<Rightarrow> int option res" where
  "SendPacket session targetPeer = (case session of
     None \<Rightarrow> Inr None
   | Some s \<Rightarrow> rbind (array_at (PeerChannelIndex s) targetPeer) (\<lambda>channelIndex.
       if channelIndex = - 1 then Inr None else Inr (Some channelIndex)))"

subsection \<open>The master packet\<close>

definition SerializeCustomPacket :: "('e, 'r) StreamOps \<Rightarrow> ('e, 'r, 'd) PacketTable \<Rightarrow> 'e BitStream \<Rightarrow> int
    \<Rightarrow> 'd Packet \<Rightarrow> 'e BitStream" where
  "SerializeCustomPacket E customPackets stream packetSize packet =
     (let s1 = WriteBlock E stream (sizeof_Header * 8) (Header packet);
          s2 = WriteUnsigned E s1 (TypeGuid packet) 32 in
      case LookUpPacketType customPackets (TypeGuid packet) of
        None \<Rightarrow> s2
      | Some type \<Rightarrow>
          if packetSize < GetMinRawPacketSize (Handler type) \<or> GetMaxRawPacketSize (Handler type) < packetSize
          then s2
          else SerializeRawPacket (Handler type) E s2 packetSize (Data packet))"

definition DeserializeCustomPacket :: "('e, 'r) StreamOps \<Rightarrow> ('e, 'r, 'd) PacketTable \<Rightarrow> 'r \<Rightarrow> int
    \<Rightarrow> 'd Packet option \<times> 'r" where
  "DeserializeCustomPacket E customPackets stream packetSize =
     (if packetSize < sizeof_PacketBase then (None, stream)
      else
        (let (header, r1) = ReadBlock E stream (sizeof_Header * 8);
             (guid, r2) = ReadUnsigned E r1 32 in
         case LookUpPacketType customPackets guid of
           None \<Rightarrow> (None, r2)
         | Some type \<Rightarrow>
             if packetSize < GetMinRawPacketSize (Handler type) \<or> GetMaxRawPacketSize (Handler type) < packetSize
             then (None, r2)
             else (let (d, r3) = DeserializeRawPacket (Handler type) E r2 packetSize in
                   (map_option (\<lambda>d. \<lparr>Header = header, TypeGuid = guid, Data = d\<rparr>) d, r3))))"

text \<open>\<open>HandleCustomPacket\<close>: whether the packet is ours, and the type whose handler receives it.\<close>

definition HandleCustomPacket :: "('e, 'r, 'd) PacketTable \<Rightarrow> int \<Rightarrow> 'd Packet \<Rightarrow> ('e, 'r, 'd) CustomPacket option" where
  "HandleCustomPacket customPackets pid packet =
     (if pid \<noteq> CustomPacketId then None else LookUpPacketType customPackets (TypeGuid packet))"

subsection \<open>Fixed-size packets\<close>

definition fixed_handler :: "int \<Rightarrow> (('e, 'r) StreamOps \<Rightarrow> 'e BitStream \<Rightarrow> 'd \<Rightarrow> 'e BitStream)
    \<Rightarrow> (('e, 'r) StreamOps \<Rightarrow> 'r \<Rightarrow> 'd option \<times> 'r) \<Rightarrow> ('e, 'r, 'd) RawPacketHandler" where
  "fixed_handler sizeof_Packet ser deser =
     \<lparr>GetMinRawPacketSize = sizeof_Packet, GetMaxRawPacketSize = sizeof_Packet,
      SerializeRawPacket = (\<lambda>E s packetSize d. if packetSize \<noteq> sizeof_Packet then s else ser E s d),
      DeserializeRawPacket = (\<lambda>E r packetSize. if packetSize \<noteq> sizeof_Packet then (None, r) else deser E r)\<rparr>"

subsection \<open>Variable-size packets\<close>

text \<open>\<open>CalculateSize\<close> adds in \<open>size_t\<close> and returns an \<open>int\<close>.\<close>

definition CalculateSize :: "u32 \<Rightarrow> u32 \<Rightarrow> int \<Rightarrow> int" where
  "CalculateSize offsetof_ExtraData sizeof_Extra extraDataCount =
     sint (offsetof_ExtraData + of_int extraDataCount * sizeof_Extra)"

definition CalculateExtraDataCount :: "u32 \<Rightarrow> u32 \<Rightarrow> int \<Rightarrow> int" where
  "CalculateExtraDataCount offsetof_ExtraData sizeof_Extra packetSize =
     (let rest = packetSize - CalculateSize offsetof_ExtraData sizeof_Extra 0 in
      if rest < 0 then - 1
      else if rest mod uint sizeof_Extra \<noteq> 0 then - 1
      else rest div uint sizeof_Extra)"

definition variadic_handler :: "u32 \<Rightarrow> u32 \<Rightarrow> int \<Rightarrow> int
    \<Rightarrow> (('e, 'r) StreamOps \<Rightarrow> 'e BitStream \<Rightarrow> 't \<Rightarrow> 'x list \<Rightarrow> 'e BitStream)
    \<Rightarrow> (('e, 'r) StreamOps \<Rightarrow> 'r \<Rightarrow> int \<Rightarrow> ('t \<times> 'x list) option \<times> 'r)
    \<Rightarrow> ('e, 'r, 't \<times> 'x list) RawPacketHandler" where
  "variadic_handler offs elem minPacketSize maxPacketSize ser deser =
     \<lparr>GetMinRawPacketSize = minPacketSize, GetMaxRawPacketSize = maxPacketSize,
      SerializeRawPacket = (\<lambda>E s packetSize (d, extra).
        if packetSize < minPacketSize \<or> maxPacketSize < packetSize then s
        else if CalculateExtraDataCount offs elem packetSize \<noteq> int (length extra) then s
        else ser E (WriteUnsigned E s (of_nat (length extra) :: u32) 32) d extra),
      DeserializeRawPacket = (\<lambda>E r packetSize.
        if packetSize < minPacketSize \<or> maxPacketSize < packetSize then (None, r)
        else (let calculated = CalculateExtraDataCount offs elem packetSize in
          if calculated < 0 then (None, r)
          else (let (n, r1) = ReadUnsigned E r 32; extraDataCount = sint (n :: u32) in
            if extraDataCount \<noteq> calculated then (None, r1) else deser E r1 extraDataCount)))\<rparr>"

text \<open>The two constructors of a variable-size handler.\<close>

definition variadic_min :: "u32 \<Rightarrow> u32 \<Rightarrow> int \<Rightarrow> int \<times> int" where
  "variadic_min offs elem extraDataMin = (CalculateSize offs elem extraDataMin, 2 ^ 31 - 1)"

definition variadic_min_max :: "u32 \<Rightarrow> u32 \<Rightarrow> int \<Rightarrow> int \<Rightarrow> int \<times> int" where
  "variadic_min_max offs elem extraDataMin extraDataMax =
     (CalculateSize offs elem extraDataMin, CalculateSize offs elem extraDataMax)"

subsection \<open>The table as a registry\<close>

definition find_packet :: "('e, 'r, 'd) PacketTable \<Rightarrow> PacketGuid \<Rightarrow> (PacketGuid \<times> ('e, 'r, 'd) CustomPacket) option" where
  "find_packet t g = map_option (Pair g) (LookUpPacketType t g)"

text \<open>Registration once the name is hashed.\<close>

definition add_packet :: "('e, 'r, 'd) PacketTable \<Rightarrow> PacketGuid \<times> ('e, 'r, 'd) CustomPacket
    \<Rightarrow> ('e, 'r, 'd) PacketTable option" where
  "add_packet t gp =
     (case RegisterPacketImpl (\<lambda>_. Some (fst gp)) t (PacketName (snd gp)) (Handler (snd gp)) of
        Inl _ \<Rightarrow> None | Inr (t', _) \<Rightarrow> Some t')"

interpretation packets: registry find_packet add_packet "\<lambda>gp. {fst gp}" "\<lambda>_. True" "\<lambda>_. True"
  by unfold_locales
    (auto simp: find_packet_def add_packet_def RegisterPacketImpl_def LookUpPacketType_def split: if_splits)

lemma RegisterPacketImpl_find:
  assumes "RegisterPacketImpl h t n handler = Inr (t', g)"
  shows "h n = Some g \<and> t g = None \<and> t' = t(g \<mapsto> \<lparr>PacketName = n, Handler = handler\<rparr>)"
  using assms by (auto simp: RegisterPacketImpl_def LookUpPacketType_def split: option.splits if_splits)

definition register_all :: "('e, 'r, 'd) PacketTable \<Rightarrow> (PacketGuid \<times> ('e, 'r, 'd) CustomPacket) list
    \<Rightarrow> ('e, 'r, 'd) PacketTable" where
  "register_all t gps = foldl (\<lambda>t gp. case add_packet t gp of None \<Rightarrow> t | Some t' \<Rightarrow> t') t gps"

lemma register_all_each: "register_all t gps = packets.add_each t gps"
  unfolding register_all_def by (induction gps arbitrary: t) simp_all

lemma registered_packet_found:
  assumes "RegisterPacketImpl h t n handler = Inr (t', g)"
  shows "find_packet (register_all t' later) g = Some (g, \<lparr>PacketName = n, Handler = handler\<rparr>)"
proof -
  have "find_packet t' g = Some (g, \<lparr>PacketName = n, Handler = handler\<rparr>)"
    using RegisterPacketImpl_find [OF assms] by (simp add: find_packet_def LookUpPacketType_def)
  then show ?thesis unfolding register_all_each by (intro packets.add_each_keeps) auto
qed

subsection \<open>Dispatch\<close>

lemma WriteUnsigned_spec:
  assumes "stream_laws E flushed remaining" "stream_ok s" "n \<le> 64"
  shows "stream_ok (WriteUnsigned E s v n)"
    "written flushed (WriteUnsigned E s v n) = written flushed s @ to_bits n (ucast v)"
  using WriteBits_spec [OF assms] by (simp_all add: WriteUnsigned_def)

lemma ReadUnsigned32_spec:
  assumes "stream_laws E flushed remaining" "remaining r = to_bits 32 (ucast (v::u32)) @ rest"
  shows "\<exists>r'. ReadUnsigned E r 32 = (v, r') \<and> remaining r' = rest"
proof -
  have "ucast (take_bit 32 (ucast v :: u64)) = v"
    by (auto intro!: bit_word_eqI simp: bit_simps)
  then show ?thesis using ReadUnsigned_spec [OF assms] by simp
qed

text \<open>What a handler promises for data of a given packet size.\<close>

definition handler_codec :: "('e, 'r, 'd) RawPacketHandler \<Rightarrow> ('d \<Rightarrow> bool list) \<Rightarrow> int \<Rightarrow> 'd \<Rightarrow> bool" where
  "handler_codec h enc n d \<longleftrightarrow>
     GetMinRawPacketSize h \<le> n \<and> n \<le> GetMaxRawPacketSize h
   \<and> (\<forall>E flushed remaining s. stream_laws E flushed remaining \<and> stream_ok s \<longrightarrow>
        stream_ok (SerializeRawPacket h E s n d)
        \<and> written flushed (SerializeRawPacket h E s n d) = written flushed s @ enc d)
   \<and> (\<forall>E flushed remaining r rest. stream_laws E flushed remaining \<and> remaining r = enc d @ rest \<longrightarrow>
        (\<exists>r'. DeserializeRawPacket h E r n = (Some d, r') \<and> remaining r' = rest))"

lemma handler_codecD:
  assumes "handler_codec h enc n d" "stream_laws E flushed remaining"
  shows "GetMinRawPacketSize h \<le> n" "n \<le> GetMaxRawPacketSize h"
    "stream_ok s \<Longrightarrow> stream_ok (SerializeRawPacket h E s n d)"
    "stream_ok s \<Longrightarrow> written flushed (SerializeRawPacket h E s n d) = written flushed s @ enc d"
    "remaining r = enc d @ rest \<Longrightarrow> \<exists>r'. DeserializeRawPacket h E r n = (Some d, r') \<and> remaining r' = rest"
  using assms unfolding handler_codec_def by blast+

lemma SerializeCustomPacket_spec:
  assumes "stream_laws E flushed remaining" "stream_ok s" "length (Header p) = 16"
    and "t (TypeGuid p) = Some c" "handler_codec (Handler c) enc n (Data p)"
  shows "written flushed (SerializeCustomPacket E t s n p)
    = written flushed s @ byte_bits_of (Header p) @ to_bits 32 (ucast (TypeGuid p)) @ enc (Data p)"
proof -
  let ?s1 = "WriteBlock E s (8 * length (Header p)) (Header p)"
  let ?s2 = "WriteUnsigned E ?s1 (TypeGuid p) 32"
  note w1 = WriteBlock_spec [OF assms(1,2), of "Header p"]
  have "(32::nat) \<le> 64" by simp
  note w2 = WriteUnsigned_spec [OF assms(1) w1(1) this, of "TypeGuid p"]
  note h = handler_codecD [OF assms(5,1)]
  have "SerializeCustomPacket E t s n p = SerializeRawPacket (Handler c) E ?s2 n (Data p)"
    using assms(3,4) h(1,2) by (simp add: SerializeCustomPacket_def LookUpPacketType_def sizeof_Header_def)
  then show ?thesis using h(4) [OF w2(1)] w1 w2 by simp
qed

lemma DeserializeCustomPacket_spec:
  assumes "stream_laws E flushed remaining" "length (Header p) = 16" "t (TypeGuid p) = Some c"
    and "handler_codec (Handler c) enc n (Data p)" "sizeof_PacketBase \<le> n"
    and r: "remaining r = byte_bits_of (Header p) @ to_bits 32 (ucast (TypeGuid p)) @ enc (Data p) @ rest"
  shows "\<exists>r'. DeserializeCustomPacket E t r n = (Some p, r') \<and> remaining r' = rest"
proof -
  obtain r1 where r1: "ReadBlock E r (8 * length (Header p)) = (Header p, r1)"
    "remaining r1 = to_bits 32 (ucast (TypeGuid p)) @ enc (Data p) @ rest"
    using ReadBlock_spec [OF assms(1) r] by blast
  obtain r2 where r2: "ReadUnsigned E r1 32 = (TypeGuid p, r2)" "remaining r2 = enc (Data p) @ rest"
    using ReadUnsigned32_spec [OF assms(1) r1(2)] by blast
  note h = handler_codecD [OF assms(4,1)]
  obtain r3 where "DeserializeRawPacket (Handler c) E r2 n = (Some (Data p), r3)" "remaining r3 = rest"
    using h(5) [OF r2(2)] by blast
  then show ?thesis
    using r1(1) r2(1) assms(2,3,5) h(1,2)
    by (simp add: DeserializeCustomPacket_def LookUpPacketType_def sizeof_Header_def)
qed

text \<open>C10. A custom packet whose type is registered arrives as it was sent: header, type and data, with
  nothing of the stream left over or taken too much, whenever the handler reads back what it writes.\<close>

theorem custom_packet_roundtrip:
  assumes "stream_laws E flushed remaining" "stream_ok s" "written flushed s = []"
    and "length (Header p) = 16" "t (TypeGuid p) = Some c"
    and "handler_codec (Handler c) enc n (Data p)" "sizeof_PacketBase \<le> n"
    and "remaining r = written flushed (SerializeCustomPacket E t s n p) @ rest"
  shows "\<exists>r'. DeserializeCustomPacket E t r n = (Some p, r') \<and> remaining r' = rest"
proof -
  have r: "remaining r = byte_bits_of (Header p) @ to_bits 32 (ucast (TypeGuid p)) @ enc (Data p) @ rest"
    using assms(8) SerializeCustomPacket_spec [of E flushed remaining s p t c enc n] assms(1-6) by simp
  show ?thesis using DeserializeCustomPacket_spec [where p = p and c = c and t = t and enc = enc] assms r by blast
qed

text \<open>A packet of an unregistered type, or of a size its handler does not accept, is discarded.\<close>

lemma DeserializeCustomPacket_rejects:
  assumes "DeserializeCustomPacket E t r n = (Some p, r')"
  shows "\<exists>c. t (TypeGuid p) = Some c \<and> sizeof_PacketBase \<le> n
    \<and> GetMinRawPacketSize (Handler c) \<le> n \<and> n \<le> GetMaxRawPacketSize (Handler c)"
  using assms unfolding DeserializeCustomPacket_def LookUpPacketType_def
  by (auto simp: Let_def split: if_splits prod.splits option.splits)

text \<open>A packet format gives a fixed-size handler that keeps the handler's promise.\<close>

context packet_codec
begin

lemma fixed_handler_codec:
  assumes "wf m"
  shows "handler_codec (fixed_handler n ser deser) enc n m"
proof -
  have "stream_ok (ser E s m) \<and> written flushed (ser E s m) = written flushed s @ enc m"
    if "stream_laws E flushed remaining \<and> stream_ok s" for E flushed remaining s
    using ser_spec assms that by blast
  moreover have "\<exists>r'. deser E r = (Some m, r') \<and> remaining r' = rest"
    if "stream_laws E flushed remaining \<and> remaining r = enc m @ rest" for E flushed remaining r rest
    using deser_spec assms that by blast
  ultimately show ?thesis by (simp add: handler_codec_def fixed_handler_def) blast
qed

end

subsection \<open>Packet sizes\<close>

lemma sint_eq_uint_small:
  assumes "uint (w::u32) < 2 ^ 31"
  shows "sint w = uint w"
proof -
  have "- (2 ^ 31) \<le> uint w" by (rule order_trans [of _ 0]) simp_all
  with assms show ?thesis by (simp add: sint_uint signed_take_bit_int_eq_self)
qed

lemma uint_of_small: "0 \<le> k \<Longrightarrow> k < 2 ^ 31 \<Longrightarrow> uint (word_of_int k :: u32) = k"
  by (simp add: unsigned_of_int take_bit_int_eq_self)

lemma CalculateSize_exact:
  assumes "0 \<le> n" "uint offs + n * uint elem < 2 ^ 31"
  shows "CalculateSize offs elem n = uint offs + n * uint elem"
proof -
  have pos: "0 \<le> uint offs + n * uint elem" using assms(1) by simp
  have "uint (offs + of_int n * elem) = uint offs + n * uint elem"
  proof -
    have "offs + of_int n * elem = word_of_int (uint offs + n * uint elem)" by simp
    with uint_of_small [OF pos assms(2)] show ?thesis by metis
  qed
  with assms(2) show ?thesis by (simp add: CalculateSize_def sint_eq_uint_small)
qed

lemma CalculateExtraDataCount_of_size:
  assumes "0 \<le> n" "uint offs + n * uint elem < 2 ^ 31" "0 < uint elem"
  shows "CalculateExtraDataCount offs elem (CalculateSize offs elem n) = n"
proof -
  have pos: "0 \<le> n * uint elem" using assms(1) by simp
  then have "uint offs < 2 ^ 31" using assms(2) by linarith
  then have "CalculateSize offs elem 0 = uint offs" using CalculateSize_exact [of 0 offs elem] by simp
  with assms pos show ?thesis by (simp add: CalculateExtraDataCount_def CalculateSize_exact Let_def not_less)
qed

text \<open>The number of extra elements computed from a packet size is the one the size was computed
  from; and whenever a count is accepted for a size, the elements fill the packet exactly, so a
  handler that reads that many elements stays inside the buffer it was given.\<close>

theorem CalculateExtraDataCount_exact:
  assumes "uint offs < 2 ^ 31" "0 < uint elem"
  shows "CalculateExtraDataCount offs elem psize = (if \<exists>n \<ge> 0. psize = uint offs + n * uint elem
      then (psize - uint offs) div uint elem else - 1)"
proof -
  have base: "CalculateSize offs elem 0 = uint offs"
    using CalculateSize_exact [of 0 offs elem] assms(1) by simp
  show ?thesis
  proof (cases "\<exists>n \<ge> 0. psize = uint offs + n * uint elem")
    case True
    then obtain n where "0 \<le> n" "psize = uint offs + n * uint elem" by blast
    then show ?thesis using assms(2) True by (simp add: CalculateExtraDataCount_def base Let_def not_less)
  next
    case False
    have "psize - uint offs < 0 \<or> (psize - uint offs) mod uint elem \<noteq> 0"
    proof (rule ccontr)
      assume "\<not> ?thesis"
      then have "0 \<le> (psize - uint offs) div uint elem"
        "psize = uint offs + ((psize - uint offs) div uint elem) * uint elem"
        using assms(2) by (auto simp: pos_imp_zdiv_nonneg_iff)
      with False show False by blast
    qed
    with False show ?thesis by (auto simp: CalculateExtraDataCount_def base Let_def)
  qed
qed

theorem CalculateExtraDataCount_exact_witness:
  "CalculateExtraDataCount 24 8 48 = (if \<exists>n \<ge> 0. 48 = uint (24::u32) + n * uint (8::u32)
     then (48 - uint (24::u32)) div uint (8::u32) else - 1)"
  by (rule CalculateExtraDataCount_exact) simp_all

text \<open>The reader of a variable-size packet passes on only counts that fit the packet.\<close>

lemma variadic_deserialize_fits:
  assumes "uint offs < 2 ^ 31" "0 < uint elem"
    and "DeserializeRawPacket (variadic_handler offs elem lo hi ser deser) E r n = (Some d, r')"
  shows "\<exists>k r1. 0 \<le> k \<and> n = uint offs + k * uint elem \<and> deser E r1 k = (Some d, r')"
proof -
  have base: "CalculateSize offs elem 0 = uint offs"
    using CalculateSize_exact [of 0 offs elem] assms(1) by simp
  let ?k = "CalculateExtraDataCount offs elem n"
  from assms(3) obtain r1 where k: "0 \<le> ?k" "deser E r1 ?k = (Some d, r')"
    by (auto simp: variadic_handler_def Let_def split: if_splits prod.splits)
  then have "?k = (n - uint offs) div uint elem" "(n - uint offs) mod uint elem = 0"
    by (auto simp: CalculateExtraDataCount_def base Let_def split: if_splits)
  then have "n = uint offs + ?k * uint elem"
    using div_mult_mod_eq [of "n - uint offs" "uint elem"] by simp
  with k show ?thesis by blast
qed

text \<open>A format for the data and the elements gives a variable-size handler that keeps the handler's
  promise.\<close>

lemma variadic_handler_codec:
  fixes ser :: "('e, 'r) StreamOps \<Rightarrow> 'e BitStream \<Rightarrow> 'd \<Rightarrow> 'x list \<Rightarrow> 'e BitStream"
  assumes "uint offs + int (length xs) * uint elem < 2 ^ 31" "0 < uint elem" "length xs < 2 ^ 31"
    and ofs: "n = CalculateSize offs elem (int (length xs))" and lohi: "lo \<le> n" "n \<le> hi"
    and ser: "\<And>E flushed remaining s. stream_laws E flushed remaining \<Longrightarrow> stream_ok s \<Longrightarrow>
      writes flushed s (enc xs) (ser E s d xs)"
    and deser: "\<And>E flushed remaining r rest. stream_laws E flushed remaining \<Longrightarrow> remaining r = enc xs @ rest \<Longrightarrow>
      \<exists>r'. deser E r (int (length xs)) = (Some (d, xs), r') \<and> remaining r' = rest"
  shows "handler_codec (variadic_handler offs elem lo hi ser deser)
    (\<lambda>(d, xs). to_bits 32 (of_nat (length xs)) @ enc xs) n (d, xs)"
proof -
  let ?h = "variadic_handler offs elem lo hi ser deser"
  have count: "CalculateExtraDataCount offs elem n = int (length xs)"
    using assms(1,2) ofs by (simp add: CalculateExtraDataCount_of_size)
  have small: "uint (of_nat (length xs) :: u32) = int (length xs)"
    using uint_of_small [of "int (length xs)"] assms(3) by simp
  then have len: "sint (of_nat (length xs) :: u32) = int (length xs)"
    using assms(3) by (simp add: sint_eq_uint_small)
  have "(of_nat (unat (of_nat (length xs) :: u32)) :: u64) = ucast (of_nat (length xs) :: u32)" by simp
  moreover have "unat (of_nat (length xs) :: u32) = length xs" using small by (metis nat_int nat_uint_eq)
  ultimately have u: "ucast (of_nat (length xs) :: u32) = (of_nat (length xs) :: u64)" by simp
  show ?thesis
    unfolding handler_codec_def
  proof (intro conjI allI impI)
    fix E :: "('e, 'r) StreamOps" and flushed remaining and s :: "'e BitStream"
    assume a: "stream_laws E flushed remaining \<and> stream_ok s"
    let ?s1 = "WriteUnsigned E s (of_nat (length xs) :: u32) 32"
    have w1: "writes flushed s (to_bits 32 (of_nat (length xs))) ?s1"
      using writes_unsigned [of E flushed remaining s 32 "of_nat (length xs) :: u32"] a by (simp add: u)
    have "writes flushed s (to_bits 32 (of_nat (length xs)) @ enc xs) (ser E ?s1 d xs)"
      using writes_trans [OF w1 ser] a writes_ok [OF w1] by blast
    then show "stream_ok (SerializeRawPacket ?h E s n (d, xs))"
      "written flushed (SerializeRawPacket ?h E s n (d, xs)) = written flushed s
        @ (case (d, xs) of (d, xs) \<Rightarrow> to_bits 32 (of_nat (length xs)) @ enc xs)"
      using lohi count by (simp_all add: variadic_handler_def writes_def)
  next
    fix E :: "('e, 'r) StreamOps" and flushed remaining r rest
    assume a: "stream_laws E flushed remaining
      \<and> remaining r = (case (d, xs) of (d, xs) \<Rightarrow> to_bits 32 (of_nat (length xs)) @ enc xs) @ rest"
    then obtain r1 where "ReadUnsigned E r 32 = (of_nat (length xs) :: u32, r1)" "remaining r1 = enc xs @ rest"
      using ReadUnsigned32_spec [of E flushed remaining r "of_nat (length xs)" "enc xs @ rest"] by (auto simp: u)
    with deser [of E flushed remaining r1 rest] a count len lohi
    show "\<exists>r'. DeserializeRawPacket ?h E r n = (Some (d, xs), r') \<and> remaining r' = rest"
      by (simp add: variadic_handler_def Let_def)
  qed (use lohi in \<open>simp_all add: variadic_handler_def\<close>)
qed

end
