(* ===== verification/ServerChat.thy ===== *)
theory ServerChat
  imports CustomPackets StdNum
begin

text \<open>
  \<open>Server/ServerChat.hpp\<close> and \<open>.cpp\<close>: text chat. The packet format, the routing of messages from the
  host to the peers, the flood filter with its per-address scores and escalating timeouts, and the
  tick that lets them decay. What a routine makes visible outside is a list of effects, in order. The
  registered message handlers and the interception of chat commands are parameters; signed 32-bit
  counters are words read with \<open>sint\<close>.
\<close>

subsection \<open>Messages\<close>

datatype ChatMessageType = ChatGlobal | ChatTeam | ChatWhisper | ChatServer

definition type_code :: "ChatMessageType \<Rightarrow> u32" where
  "type_code t = (case t of ChatGlobal \<Rightarrow> 0 | ChatTeam \<Rightarrow> 1 | ChatWhisper \<Rightarrow> 2 | ChatServer \<Rightarrow> 3)"

definition type_count :: u32 where "type_count = 4"

definition code_type :: "u32 \<Rightarrow> ChatMessageType" where
  "code_type w = (if w = 0 then ChatGlobal else if w = 1 then ChatTeam
     else if w = 2 then ChatWhisper else ChatServer)"

definition MaxMessageLength :: nat where "MaxMessageLength = 128"

record ChatMessage =
  MessageType :: ChatMessageType
  SenderPlayer :: u8
  TargetPlayer :: u8
  Body :: string

definition new_message :: "ChatMessageType \<Rightarrow> string \<Rightarrow> ChatMessage" where
  "new_message t body = \<lparr>MessageType = t, SenderPlayer = 0, TargetPlayer = 0,
     Body = trunc_copy (MaxMessageLength + 1) body\<rparr>"

definition ChatSerialize :: "('e, 'r) StreamOps \<Rightarrow> 'e BitStream \<Rightarrow> ChatMessage \<Rightarrow> 'e BitStream" where
  "ChatSerialize E stream d =
     (let s1 = WriteRange E stream (type_code (MessageType d)) 0 type_count;
          s2 = WriteString E s1 (MaxMessageLength + 1) (Body d);
          s3 = (if MessageType d \<noteq> ChatServer
                then WriteRange E s2 (SenderPlayer d) 0 (of_nat (MaxPlayers - 1)) else s2)
      in if MessageType d = ChatWhisper
         then WriteRange E s3 (TargetPlayer d) 0 (of_nat (MaxPlayers - 1)) else s3)"

definition ChatDeserialize :: "('e, 'r) StreamOps \<Rightarrow> 'r \<Rightarrow> ChatMessage option \<times> 'r" where
  "ChatDeserialize E stream =
     (let (code, r1) = ReadRange E stream 0 type_count in
      if type_count \<le> code then (None, r1)
      else (let t = code_type code; (body, r2) = ReadString E r1 (MaxMessageLength + 1) in
        case body of
          None \<Rightarrow> (None, r2)
        | Some text \<Rightarrow>
            (let (sender, r3) = (if t \<noteq> ChatServer then ReadRange E r2 0 (of_nat (MaxPlayers - 1)) else (0, r2));
                 (target, r4) = (if t = ChatWhisper then ReadRange E r3 0 (of_nat (MaxPlayers - 1)) else (0, r3))
             in (Some \<lparr>MessageType = t, SenderPlayer = sender, TargetPlayer = target, Body = text\<rparr>, r4))))"

subsection \<open>State and effects\<close>

type_synonym s32 = u32

record ClientSpamStats =
  SpamScore :: s32
  TimeoutSeconds :: s32
  NextTimeoutSeconds :: s32
  TimeoutResetSeconds :: s32

definition new_stats :: ClientSpamStats where
  "new_stats = \<lparr>SpamScore = 0, TimeoutSeconds = 0, NextTimeoutSeconds = 0, TimeoutResetSeconds = 0\<rparr>"

text \<open>The server variables the chat reads, and its statics.\<close>

record ChatConfig =
  FloodFilterEnabled :: u32
  FloodMessageScoreShort :: u32
  FloodMessageScoreLong :: u32
  FloodTimeoutScore :: u32
  FloodTimeoutSeconds :: u32
  FloodTimeoutResetSeconds :: u32
  ChatLogEnabled :: u32

record ChatState =
  Config :: ChatConfig
  SpamStats :: "u32 \<rightharpoonup> ClientSpamStats"
  LastTimeMs :: u32
  SpamUpdateMs :: u32

datatype ChatEffect =
    SentPacket int ChatMessage
  | ReceivedLocally ChatMessage
  | Logged string u64 u32 string

type_synonym PeerBitSet = "nat \<Rightarrow> bool"

type_synonym MessageHandler = "int \<Rightarrow> ChatMessage \<times> bool \<Rightarrow> ChatMessage \<times> bool"

definition all_peers :: PeerBitSet where "all_peers = (\<lambda>p. p < MaxPeers)"

definition no_peers :: PeerBitSet where "no_peers = (\<lambda>_. False)"

text \<open>\<open>std::bitset::set\<close> checks its index.\<close>

definition set_peer :: "PeerBitSet \<Rightarrow> int \<Rightarrow> PeerBitSet res" where
  "set_peer peers peer =
     (if 0 \<le> peer \<and> peer < int MaxPeers then Inr (peers(nat peer := True)) else Inl OutOfRange)"

subsection \<open>Routing\<close>

definition SendMessagePacket :: "int \<Rightarrow> ChatMessage \<Rightarrow> bool \<times> ChatEffect list" where
  "SendMessagePacket peer message = (if peer < 0 then (False, []) else (True, [SentPacket peer message]))"

text \<open>The loop over the connected peers.\<close>

fun broadcast_loop :: "int \<Rightarrow> ChatMessage \<Rightarrow> PeerBitSet \<Rightarrow> nat list \<Rightarrow> bool \<times> ChatEffect list" where
  "broadcast_loop localPeer message peers [] = (True, [])"
| "broadcast_loop localPeer message peers (peer # rest) =
     (if \<not> peers peer then broadcast_loop localPeer message peers rest
      else if int peer = localPeer then
        (let (ok, es) = broadcast_loop localPeer message peers rest in (ok, ReceivedLocally message # es))
      else
        (let (sent, e) = SendMessagePacket (int peer) message in
         if \<not> sent then (False, e)
         else (let (ok, es) = broadcast_loop localPeer message peers rest in (ok, e @ es))))"

definition run_handlers :: "MessageHandler list \<Rightarrow> int \<Rightarrow> ChatMessage \<Rightarrow> ChatMessage \<times> bool" where
  "run_handlers handlers senderPeer message = foldl (\<lambda>m h. h senderPeer m) (message, False) handlers"

definition BroadcastMessage :: "MessageHandler list \<Rightarrow> Session \<Rightarrow> int \<Rightarrow> ChatMessage \<Rightarrow> PeerBitSet
    \<Rightarrow> bool \<times> ChatEffect list" where
  "BroadcastMessage handlers session senderPeer message peers =
     (if senderPeer < 0 then (False, [])
      else (let (message', ignore) = run_handlers handlers senderPeer message in
        if ignore then (True, [])
        else broadcast_loop (LocalPeerIndex session) message' peers (connected_peers session)))"

fun team_peers_loop :: "Session \<Rightarrow> int \<Rightarrow> nat list \<Rightarrow> PeerBitSet \<Rightarrow> PeerBitSet res" where
  "team_peers_loop session senderTeam [] result = Inr result"
| "team_peers_loop session senderTeam (peer # rest) result =
     rbind (GetPeerTeam session (int peer)) (\<lambda>team.
     rbind (if team = senderTeam then set_peer result (int peer) else Inr result) (\<lambda>result'.
       team_peers_loop session senderTeam rest result'))"

definition GetTeamPeers :: "Session \<Rightarrow> int \<Rightarrow> (bool \<times> PeerBitSet) res" where
  "GetTeamPeers session senderPeer =
     (if \<not> HasTeams session then Inr (False, no_peers)
      else rbind (GetPeerTeam session senderPeer) (\<lambda>senderTeam.
        if senderTeam < 0 then Inr (False, no_peers)
        else rbind (team_peers_loop session senderTeam (connected_peers session) no_peers) (\<lambda>result.
          Inr (True, result))))"

definition GetMessagePeers :: "Session \<Rightarrow> int \<Rightarrow> ChatMessage \<Rightarrow> PeerBitSet option res" where
  "GetMessagePeers session senderPeer message = (case MessageType message of
     ChatGlobal \<Rightarrow> Inr (Some all_peers)
   | ChatTeam \<Rightarrow> rbind (GetTeamPeers session senderPeer) (\<lambda>(_, result). Inr (Some result))
   | _ \<Rightarrow> Inr None)"

definition GetSenderName :: "Session \<Rightarrow> ChatMessage \<Rightarrow> string" where
  "GetSenderName session message =
     (if MessageType message = ChatServer \<or> MaxPlayers \<le> unat (SenderPlayer message) then ''SERVER''
      else DisplayName (PlayerSessions session ! unat (SenderPlayer message)))"

text \<open>The three ways to send a server message share their guard.\<close>

definition SendServerMessageTo :: "MessageHandler list \<Rightarrow> Session option \<Rightarrow> string \<Rightarrow> PeerBitSet
    \<Rightarrow> bool \<times> ChatEffect list" where
  "SendServerMessageTo handlers active body peers = (case active of
     None \<Rightarrow> (False, [])
   | Some session \<Rightarrow>
       if \<not> IsEstablished session \<or> \<not> IsHost session then (False, [])
       else BroadcastMessage handlers session (LocalPeerIndex session) (new_message ChatServer body) peers)"

definition SendServerMessage :: "MessageHandler list \<Rightarrow> Session option \<Rightarrow> string \<Rightarrow> bool \<times> ChatEffect list" where
  "SendServerMessage handlers active body = SendServerMessageTo handlers active body all_peers"

definition SendServerMessageToPeer :: "MessageHandler list \<Rightarrow> Session option \<Rightarrow> string \<Rightarrow> int
    \<Rightarrow> (bool \<times> ChatEffect list) res" where
  "SendServerMessageToPeer handlers active body peer = (case active of
     None \<Rightarrow> Inr (False, [])
   | Some session \<Rightarrow>
       if \<not> IsEstablished session \<or> \<not> IsHost session then Inr (False, [])
       else rbind (set_peer no_peers peer) (\<lambda>peers. Inr (SendServerMessageTo handlers active body peers)))"

subsection \<open>The flood filter\<close>

definition CalculateSpamScore :: "ChatConfig \<Rightarrow> ChatMessage \<Rightarrow> s32" where
  "CalculateSpamScore cfg message =
     (let shortScore = FloodMessageScoreShort cfg; longScore = FloodMessageScoreLong cfg in
      shortScore + (of_nat (length (c_str (Body message))) * (longScore + 1 - shortScore))
        div (of_nat MaxMessageLength + 1))"

text \<open>The first half of \<open>FloodFilterMessage\<close>: the score, and a timeout when it is reached.\<close>

definition score_message :: "ChatConfig \<Rightarrow> ChatMessage \<Rightarrow> ClientSpamStats \<Rightarrow> ClientSpamStats" where
  "score_message cfg message st =
     (if sint (TimeoutSeconds st) \<le> 0 then
        (let st1 = st\<lparr>SpamScore := SpamScore st + CalculateSpamScore cfg message\<rparr> in
         if sint (FloodTimeoutScore cfg) \<le> sint (SpamScore st1) then
           (let next = (if 0 < sint (NextTimeoutSeconds st1) then NextTimeoutSeconds st1 * 2
                        else FloodTimeoutSeconds cfg) in
            st1\<lparr>NextTimeoutSeconds := next, TimeoutSeconds := next,
                TimeoutResetSeconds := FloodTimeoutResetSeconds cfg\<rparr>)
         else st1)
      else st)"

definition timeout_text :: "ClientSpamStats \<Rightarrow> string" where
  "timeout_text st = ''You have exceeded the server's spam limit. You can chat again in ''
     @ dec_int (sint (TimeoutSeconds st)) @ '' second(s).''"

definition FloodFilterMessage :: "MessageHandler list \<Rightarrow> Session \<Rightarrow> int \<Rightarrow> ChatMessage
    \<Rightarrow> 'm ChatState_scheme \<Rightarrow> (bool \<times> ChatEffect list \<times> 'm ChatState_scheme) res" where
  "FloodFilterMessage handlers session peer message cs =
     rbind (GetPeerAddress session peer) (\<lambda>address.
       let ip = IPv4 address;
           st = score_message (Config cs) message (case SpamStats cs ip of None \<Rightarrow> new_stats | Some st \<Rightarrow> st);
           cs' = cs\<lparr>SpamStats := (SpamStats cs)(ip \<mapsto> st)\<rparr> in
       if 0 < sint (TimeoutSeconds st) then
         rbind (set_peer no_peers peer) (\<lambda>peers.
           Inr (True, snd (SendServerMessageTo handlers (Some session) (timeout_text st) peers), cs'))
       else Inr (False, [], cs'))"

definition LogMessage :: "Session \<Rightarrow> int \<Rightarrow> ChatMessage \<Rightarrow> ChatConfig \<Rightarrow> ChatEffect list res" where
  "LogMessage session peer message cfg =
     (if ChatLogEnabled cfg = 0 then Inr []
      else rbind (GetPeerAddress session peer) (\<lambda>address.
        rbind (GetPeerPlayer session peer) (\<lambda>playerIndex.
          let uid = (if 0 \<le> playerIndex then Uid (PlayerSessions session ! nat playerIndex) else 0) in
          Inr [Logged (GetSenderName session message) uid (IPv4 address) (Body message)])))"

subsection \<open>Receiving\<close>

type_synonym 'm interceptor =
  "ChatMessage \<Rightarrow> int \<Rightarrow> 'm ChatState_scheme \<Rightarrow> (bool \<times> ChatEffect list \<times> 'm ChatState_scheme) res"

definition HostReceivedMessage :: "MessageHandler list \<Rightarrow> 'm interceptor \<Rightarrow> Session \<Rightarrow> int \<Rightarrow> ChatMessage
    \<Rightarrow> 'm ChatState_scheme \<Rightarrow> (bool \<times> ChatEffect list \<times> 'm ChatState_scheme) res" where
  "HostReceivedMessage handlers intercept session peer message cs =
     (if peer < 0 \<or> c_str (Body message) = [] \<or> MessageType message = ChatServer then Inr (False, [], cs)
      else rbind (GetPeerPlayer session peer) (\<lambda>player.
      if player < 0 then Inr (False, [], cs)
      else (let broadcastMessage = message\<lparr>SenderPlayer := of_int player\<rparr> in
      rbind (if peer \<noteq> LocalPeerIndex session \<and> FloodFilterEnabled (Config cs) \<noteq> 0
             then FloodFilterMessage handlers session peer broadcastMessage cs
             else Inr (False, [], cs)) (\<lambda>(thrown, es, cs1).
      if thrown then Inr (True, es, cs1)
      else rbind (LogMessage session peer broadcastMessage (Config cs1)) (\<lambda>logged.
      rbind (if MessageType message \<noteq> ChatTeam then intercept message peer cs1 else Inr (False, [], cs1))
        (\<lambda>(handled, es2, cs2).
      if handled then Inr (True, es @ logged @ es2, cs2)
      else rbind (GetMessagePeers session peer message) (\<lambda>targetPeers.
        case targetPeers of
          None \<Rightarrow> Inr (False, es @ logged @ es2, cs2)
        | Some peers \<Rightarrow>
            (let (sent, es3) = BroadcastMessage handlers session peer broadcastMessage peers in
             Inr (sent, es @ logged @ es2 @ es3, cs2)))))))))"

definition SendClientMessage :: "MessageHandler list \<Rightarrow> 'm interceptor \<Rightarrow> Session \<Rightarrow> ChatMessage
    \<Rightarrow> 'm ChatState_scheme \<Rightarrow> (bool \<times> ChatEffect list \<times> 'm ChatState_scheme) res" where
  "SendClientMessage handlers intercept session message cs =
     (if IsHost session
      then HostReceivedMessage handlers intercept session (LocalPeerIndex session) message cs
      else (let (sent, es) = SendMessagePacket (HostPeerIndex session) message in Inr (sent, es, cs)))"

definition SendGlobalMessage :: "MessageHandler list \<Rightarrow> 'm interceptor \<Rightarrow> Session option \<Rightarrow> string
    \<Rightarrow> 'm ChatState_scheme \<Rightarrow> (bool \<times> ChatEffect list \<times> 'm ChatState_scheme) res" where
  "SendGlobalMessage handlers intercept active body cs = (case active of
     None \<Rightarrow> Inr (False, [], cs)
   | Some session \<Rightarrow> if \<not> IsEstablished session then Inr (False, [], cs)
       else SendClientMessage handlers intercept session (new_message ChatGlobal body) cs)"

definition SendTeamMessage :: "MessageHandler list \<Rightarrow> 'm interceptor \<Rightarrow> Session option \<Rightarrow> string
    \<Rightarrow> 'm ChatState_scheme \<Rightarrow> (bool \<times> ChatEffect list \<times> 'm ChatState_scheme) res" where
  "SendTeamMessage handlers intercept active body cs = (case active of
     None \<Rightarrow> Inr (False, [], cs)
   | Some session \<Rightarrow> if \<not> IsEstablished session \<or> \<not> HasTeams session then Inr (False, [], cs)
       else SendClientMessage handlers intercept session (new_message ChatTeam body) cs)"

text \<open>\<open>HandlePacket\<close>: the host treats the message as a request, a client accepts it from the host only.\<close>

definition ChatHandlePacket :: "MessageHandler list \<Rightarrow> 'm interceptor \<Rightarrow> Session option \<Rightarrow> nat \<Rightarrow> ChatMessage
    \<Rightarrow> 'm ChatState_scheme \<Rightarrow> (ChatEffect list \<times> 'm ChatState_scheme) res" where
  "ChatHandlePacket handlers intercept active sender message cs = (case active of
     None \<Rightarrow> Inr ([], cs)
   | Some session \<Rightarrow>
       (let peer = GetChannelPeer session sender in
        if peer < 0 then Inr ([], cs)
        else if IsHost session then
          rbind (HostReceivedMessage handlers intercept session peer message cs) (\<lambda>(_, es, cs'). Inr (es, cs'))
        else if peer = HostPeerIndex session then Inr ([ReceivedLocally message], cs)
        else Inr ([], cs)))"

subsection \<open>The tick\<close>

definition spam_second_entry :: "ClientSpamStats \<Rightarrow> ClientSpamStats option" where
  "spam_second_entry st =
     (let st1 = (if 0 < sint (SpamScore st) then st\<lparr>SpamScore := SpamScore st - 1\<rparr> else st);
          st2 = (if 0 < sint (TimeoutSeconds st1) then st1\<lparr>TimeoutSeconds := TimeoutSeconds st1 - 1\<rparr>
                 else if 0 < sint (TimeoutResetSeconds st1)
                 then st1\<lparr>TimeoutResetSeconds := TimeoutResetSeconds st1 - 1\<rparr> else st1);
          st3 = (if TimeoutResetSeconds st2 = 0 then st2\<lparr>NextTimeoutSeconds := 0\<rparr> else st2)
      in if sint (TimeoutSeconds st3) \<le> 0 \<and> sint (SpamScore st3) \<le> 0 \<and> sint (TimeoutResetSeconds st3) \<le> 0
         then None else Some st3)"

definition spam_second :: "(u32 \<rightharpoonup> ClientSpamStats) \<Rightarrow> (u32 \<rightharpoonup> ClientSpamStats)" where
  "spam_second stats = (\<lambda>ip. Option.bind (stats ip) spam_second_entry)"

function spam_loop :: "u32 \<Rightarrow> (u32 \<rightharpoonup> ClientSpamStats) \<Rightarrow> u32 \<times> (u32 \<rightharpoonup> ClientSpamStats)" where
  "spam_loop ms stats = (if 1000 \<le> ms then spam_loop (ms - 1000) (spam_second stats) else (ms, stats))"
  by auto
termination
  by (relation "measure (\<lambda>(ms, _). unat ms)") (auto simp: word_le_nat_alt unat_sub)

declare spam_loop.simps [simp del]

definition ChatTick :: "u32 \<Rightarrow> 'm ChatState_scheme \<Rightarrow> 'm ChatState_scheme" where
  "ChatTick currentTimeMs cs =
     (let timeDeltaMs = currentTimeMs - LastTimeMs cs;
          (ms, stats) = spam_loop (SpamUpdateMs cs + timeDeltaMs) (SpamStats cs) in
      cs\<lparr>LastTimeMs := currentTimeMs, SpamUpdateMs := ms, SpamStats := stats\<rparr>)"

subsection \<open>The packet format\<close>

definition chat_message_ok :: "ChatMessage \<Rightarrow> bool" where
  "chat_message_ok m \<longleftrightarrow>
     string_fits (MaxMessageLength + 1) (Body m)
   \<and> (if MessageType m \<noteq> ChatServer then SenderPlayer m \<le> 15 else SenderPlayer m = 0)
   \<and> (if MessageType m = ChatWhisper then TargetPlayer m \<le> 15 else TargetPlayer m = 0)"

definition chat_bits :: "ChatMessage \<Rightarrow> bool list" where
  "chat_bits m = range_bits 4 (ucast (type_code (MessageType m))) @ string_bits (MaxMessageLength + 1) (Body m)
     @ (if MessageType m \<noteq> ChatServer then range_bits 15 (ucast (SenderPlayer m)) else [])
     @ (if MessageType m = ChatWhisper then range_bits 15 (ucast (TargetPlayer m)) else [])"

lemma type_code_facts: "code_type (type_code t) = t" "type_code t < 4"
  by (cases t; simp add: type_code_def code_type_def)+

lemma ChatSerialize_writes:
  assumes "stream_laws E flushed remaining" "stream_ok s" "chat_message_ok m"
  shows "writes flushed s (chat_bits m) (ChatSerialize E s m)"
proof -
  have len: "LENGTH(32) \<le> 64" "LENGTH(8) \<le> 64" by simp_all
  let ?s1 = "WriteRange E s (type_code (MessageType m)) 0 type_count"
  let ?s2 = "WriteString E ?s1 (MaxMessageLength + 1) (Body m)"
  let ?s3 = "if MessageType m \<noteq> ChatServer then WriteRange E ?s2 (SenderPlayer m) 0 15 else ?s2"
  have w1: "writes flushed s (range_bits 4 (ucast (type_code (MessageType m)))) ?s1"
    using writes_range [OF assms(1,2) len(1), of 4] by (simp add: type_count_def)
  have w2: "writes flushed ?s1 (string_bits (MaxMessageLength + 1) (Body m)) ?s2"
    using assms(3) by (intro writes_string [OF assms(1) writes_ok [OF w1]]) (simp add: chat_message_ok_def)
  have w3: "writes flushed ?s2
      (if MessageType m \<noteq> ChatServer then range_bits 15 (ucast (SenderPlayer m)) else []) ?s3"
    using writes_range [OF assms(1) writes_ok [OF w2] len(2), of 15]
    by (intro writes_if writes_ok [OF w2]) simp
  have w4: "writes flushed ?s3
      (if MessageType m = ChatWhisper then range_bits 15 (ucast (TargetPlayer m)) else [])
      (if MessageType m = ChatWhisper then WriteRange E ?s3 (TargetPlayer m) 0 15 else ?s3)"
    using writes_range [OF assms(1) writes_ok [OF w3] len(2), of 15]
    by (intro writes_if writes_ok [OF w3]) simp
  show ?thesis
    using writes_trans [OF w1 writes_trans [OF w2 writes_trans [OF w3 w4]]]
    by (simp add: chat_bits_def ChatSerialize_def Let_def split del: if_split cong: if_cong)
qed

lemma ChatDeserialize_reads:
  assumes "stream_laws E flushed remaining" "chat_message_ok m" "remaining r = chat_bits m @ rest"
  shows "\<exists>r'. ChatDeserialize E r = (Some m, r') \<and> remaining r' = rest"
proof -
  have len: "LENGTH(32) \<le> 64" "LENGTH(8) \<le> 64" by simp_all
  let ?t = "MessageType m"
  let ?sender = "if ?t \<noteq> ChatServer then range_bits 15 (ucast (SenderPlayer m)) else []"
  let ?target = "if ?t = ChatWhisper then range_bits 15 (ucast (TargetPlayer m)) else []"
  have "type_code ?t \<le> type_count" using type_code_facts(2) [of ?t] by (simp add: type_count_def)
  then obtain r1 where r1: "ReadRange E r 0 type_count = (type_code ?t, r1)"
    "remaining r1 = string_bits (MaxMessageLength + 1) (Body m) @ ?sender @ ?target @ rest"
    using ReadRange_spec [OF assms(1) len(1), of "type_code ?t" type_count r] assms(3)
    by (auto simp: chat_bits_def type_count_def)
  obtain r2 where r2: "ReadString E r1 (MaxMessageLength + 1) = (Some (Body m), r2)"
    "remaining r2 = ?sender @ ?target @ rest"
    using ReadString_spec [OF assms(1) _ r1(2)] assms(2) by (auto simp: chat_message_ok_def)
  obtain r3 where r3: "(if ?t \<noteq> ChatServer then ReadRange E r2 0 15 else (0, r2)) = (SenderPlayer m, r3)"
    "remaining r3 = ?target @ rest"
    using ReadRange_spec [OF assms(1) len(2), of "SenderPlayer m" 15 r2] assms(2) r2(2)
    by (auto simp: chat_message_ok_def split: if_splits)
  obtain r4 where r4: "(if ?t = ChatWhisper then ReadRange E r3 0 15 else (0, r3)) = (TargetPlayer m, r4)"
    "remaining r4 = rest"
    using ReadRange_spec [OF assms(1) len(2), of "TargetPlayer m" 15 r3] assms(2) r3(2)
    by (auto simp: chat_message_ok_def split: if_splits)
  have "\<not> type_count \<le> type_code ?t"
    using type_code_facts(2) [of ?t] by (simp add: type_count_def not_le)
  then show ?thesis
    using r1(1) r2(1) r3(1) r4
    by (simp add: ChatDeserialize_def type_code_facts(1) Let_def split del: if_split cong: if_cong)
qed

interpretation chat: packet_codec ChatSerialize ChatDeserialize chat_bits chat_message_ok
proof (unfold_locales, goal_cases)
  case 1
  then show ?case using ChatSerialize_writes [OF 1] by (simp add: writes_def)
next
  case 2
  then show ?case by (rule ChatDeserialize_reads)
qed

text \<open>Chat messages survive the network: any sequence of well-formed messages written to a stream
  one after the other is read back as the same sequence.\<close>

theorem chat_messages_roundtrip:
  assumes "stream_laws E flushed remaining" "stream_ok s" "written flushed s = []"
    and "\<forall>m \<in> set ms. chat_message_ok m"
    and "remaining r = written flushed (foldl (ChatSerialize E) s ms)"
  shows "chat.read_packets E (length ms) r = Some ms"
  using assms by (rule chat.packets_roundtrip)

lemma new_message_ok: "chat_message_ok (new_message t body)"
  using trunc_copy_length [of "MaxMessageLength + 1" body]
  by (simp add: chat_message_ok_def new_message_def string_fits_def trunc_copy_no_nul MaxMessageLength_def)

definition demo_message :: ChatMessage where
  "demo_message = \<lparr>MessageType = ChatGlobal, SenderPlayer = 0, TargetPlayer = 0, Body = ''hello''\<rparr>"

lemma demo_message_ok: "chat_message_ok demo_message"
  by (simp add: chat_message_ok_def demo_message_def string_fits_def MaxMessageLength_def NUL_def)

theorem chat_messages_roundtrip_witness:
  "chat.read_packets list_ops (length [demo_message, new_message ChatServer ''bye''])
     (written id (foldl (ChatSerialize list_ops) empty_stream [demo_message, new_message ChatServer ''bye'']))
   = Some [demo_message, new_message ChatServer ''bye'']"
  by (rule chat_messages_roundtrip [OF list_stream_laws, where s = empty_stream])
    (simp_all add: demo_message_ok new_message_ok)

text \<open>The chat handler in the packet table, and the witness of the packet round trip.\<close>

definition chat_handler :: "(bool list, bool list, ChatMessage) RawPacketHandler" where
  "chat_handler = fixed_handler 160 ChatSerialize ChatDeserialize"

definition demo_table :: "(bool list, bool list, ChatMessage) PacketTable" where
  "demo_table = [7 \<mapsto> \<lparr>PacketName = ''eldewrito-text-chat'', Handler = chat_handler\<rparr>]"

lemma chat_handler_codec: "chat_message_ok m \<Longrightarrow> handler_codec chat_handler chat_bits 160 m"
  unfolding chat_handler_def by (rule chat.fixed_handler_codec)

theorem custom_packet_roundtrip_witness:
  "\<exists>r'. DeserializeCustomPacket list_ops demo_table
       (written id (SerializeCustomPacket list_ops demo_table empty_stream 160
          \<lparr>Header = replicate 16 0, TypeGuid = 7, Data = demo_message\<rparr>)) 160
     = (Some \<lparr>Header = replicate 16 0, TypeGuid = 7, Data = demo_message\<rparr>, r') \<and> id r' = []"
  by (rule custom_packet_roundtrip [OF list_stream_laws, where enc = chat_bits and s = empty_stream
        and c = "\<lparr>PacketName = ''eldewrito-text-chat'', Handler = chat_handler\<rparr>"])
    (simp_all add: demo_table_def chat_handler_codec demo_message_ok sizeof_PacketBase_def)

subsection \<open>Routing\<close>

definition delivery :: "int \<Rightarrow> ChatMessage \<Rightarrow> nat \<Rightarrow> ChatEffect" where
  "delivery localPeer m p = (if int p = localPeer then ReceivedLocally m else SentPacket (int p) m)"

lemma broadcast_loop_spec:
  "broadcast_loop localPeer m peers ps = (True, map (delivery localPeer m) (filter peers ps))"
  by (induction ps) (simp_all add: delivery_def SendMessagePacket_def)

definition honest_handler :: "MessageHandler \<Rightarrow> bool" where
  "honest_handler h \<longleftrightarrow> (\<forall>peer m i. SenderPlayer (fst (h peer (m, i))) = SenderPlayer m
     \<and> MessageType (fst (h peer (m, i))) = MessageType m)"

lemma run_handlers_honest:
  assumes "\<forall>h \<in> set handlers. honest_handler h" "run_handlers handlers peer m = (m', ign)"
  shows "SenderPlayer m' = SenderPlayer m \<and> MessageType m' = MessageType m"
proof -
  have "SenderPlayer (fst (foldl (\<lambda>m h. h peer m) (m, i) handlers)) = SenderPlayer m
      \<and> MessageType (fst (foldl (\<lambda>m h. h peer m) (m, i) handlers)) = MessageType m" for i
    using assms(1)
  proof (induction handlers arbitrary: m i)
    case (Cons h hs)
    obtain m1 i1 where h: "h peer (m, i) = (m1, i1)" by (cases "h peer (m, i)") auto
    have "SenderPlayer m1 = SenderPlayer m \<and> MessageType m1 = MessageType m"
      using Cons.prems h unfolding honest_handler_def by (metis fst_conv list.set_intros(1))
    with Cons h show ?case by simp
  qed simp
  from this [of False] assms(2) show ?thesis by (simp add: run_handlers_def)
qed

text \<open>Where the effects of a broadcast go, and what they carry.\<close>

definition targets :: "int \<Rightarrow> (int \<Rightarrow> bool) \<Rightarrow> (ChatMessage \<Rightarrow> bool) \<Rightarrow> ChatEffect list \<Rightarrow> bool" where
  "targets localPeer to what es \<longleftrightarrow> (\<forall>e \<in> set es. case e of
     SentPacket p m \<Rightarrow> to p \<and> what m | ReceivedLocally m \<Rightarrow> to localPeer \<and> what m | Logged _ _ _ _ \<Rightarrow> True)"

lemma targets_simps [simp]:
  "targets here to what []"
  "targets here to what (es @ fs) \<longleftrightarrow> targets here to what es \<and> targets here to what fs"
  by (auto simp: targets_def)

lemma targets_mono:
  "targets here to what es \<Longrightarrow> (\<And>p. to p \<Longrightarrow> to' p) \<Longrightarrow> (\<And>m. what m \<Longrightarrow> what' m)
    \<Longrightarrow> targets here to' what' es"
  unfolding targets_def by (auto split: ChatEffect.splits)

lemma targets_nobody: "targets here to what es \<Longrightarrow> \<forall>p. \<not> to p \<Longrightarrow> targets here to' what' es"
  unfolding targets_def by (auto split: ChatEffect.splits)

lemma BroadcastMessage_targets:
  assumes "\<forall>h \<in> set handlers. honest_handler h"
  shows "targets (LocalPeerIndex session) (\<lambda>p. 0 \<le> p \<and> peers (nat p) \<and> nat p \<in> set (connected_peers session))
    (\<lambda>m'. SenderPlayer m' = SenderPlayer m \<and> MessageType m' = MessageType m)
    (snd (BroadcastMessage handlers session peer m peers))"
proof -
  have "e = ReceivedLocally x \<Longrightarrow> delivery (LocalPeerIndex session) m1 p = e \<Longrightarrow> nat (LocalPeerIndex session) = p
      \<and> 0 \<le> LocalPeerIndex session \<and> x = m1" for e x m1 p
    by (auto simp: delivery_def split: if_splits)
  then show ?thesis
    using run_handlers_honest [OF assms]
    by (fastforce simp: BroadcastMessage_def broadcast_loop_spec targets_def delivery_def
        split: prod.splits if_splits ChatEffect.splits)
qed

lemma SendServerMessageTo_targets:
  assumes "\<forall>h \<in> set handlers. honest_handler h"
  shows "targets (LocalPeerIndex session) (\<lambda>p. 0 \<le> p \<and> peers (nat p)) (\<lambda>m. MessageType m = ChatServer)
    (snd (SendServerMessageTo handlers (Some session) body peers))"
  using BroadcastMessage_targets [OF assms, where peers = peers and session = session
    and m = "new_message ChatServer body" and peer = "LocalPeerIndex session"]
  by (auto simp: SendServerMessageTo_def new_message_def elim: targets_mono)

lemma set_peer_Inr: "set_peer peers peer = Inr q \<Longrightarrow> 0 \<le> peer \<and> q = peers(nat peer := True)"
  by (auto simp: set_peer_def split: if_splits)

lemma FloodFilterMessage_targets:
  assumes "\<forall>h \<in> set handlers. honest_handler h"
    and "FloodFilterMessage handlers session peer m cs = Inr (thrown, es, cs')"
  shows "targets (LocalPeerIndex session) (\<lambda>p. p = peer) (\<lambda>m. MessageType m = ChatServer) es"
proof (cases thrown)
  case True
  with assms(2) obtain st q where q: "set_peer no_peers peer = Inr q"
    and es: "es = snd (SendServerMessageTo handlers (Some session) (timeout_text st) q)"
    by (auto simp: FloodFilterMessage_def rbind_Inr_iff Let_def split: if_splits)
  have "0 \<le> p \<and> q (nat p) \<Longrightarrow> p = peer" for p
    using set_peer_Inr [OF q] by (auto simp: no_peers_def split: if_splits)
  then show ?thesis
    unfolding es by (rule targets_mono [OF SendServerMessageTo_targets [OF assms(1)]])
next
  case False
  with assms(2) show ?thesis
    by (auto simp: FloodFilterMessage_def rbind_Inr_iff Let_def split: if_splits)
qed

lemma flood_targets:
  assumes "\<forall>h \<in> set handlers. honest_handler h"
    and "FloodFilterMessage handlers session peer m cs = Inr (thrown, es, cs')"
    and "to peer" "\<And>m. MessageType m = ChatServer \<Longrightarrow> what m"
  shows "targets (LocalPeerIndex session) to what es"
  by (rule targets_mono [OF FloodFilterMessage_targets [OF assms(1,2)]]) (use assms(3,4) in auto)

lemma LogMessage_targets: "LogMessage session peer m cfg = Inr es \<Longrightarrow> targets here to what es"
  by (auto simp: LogMessage_def rbind_Inr_iff Let_def targets_def split: if_splits)

text \<open>What the host does with a message, effect by effect.\<close>

lemma HostReceivedMessage_cases:
  assumes "HostReceivedMessage handlers intercept session peer message cs = Inr (b, es, cs')"
  obtains (rejected) "es = []" "cs' = cs"
  | (thrown) player where "GetPeerPlayer session peer = Inr player" "0 \<le> player"
      "FloodFilterMessage handlers session peer (message\<lparr>SenderPlayer := of_int player\<rparr>) cs = Inr (True, es, cs')"
  | (passed) player ef lg ei eb cs1 where
      "GetPeerPlayer session peer = Inr player" "0 \<le> player" "MessageType message \<noteq> ChatServer"
      "ef = [] \<and> cs1 = cs
       \<or> FloodFilterMessage handlers session peer (message\<lparr>SenderPlayer := of_int player\<rparr>) cs = Inr (False, ef, cs1)"
      "LogMessage session peer (message\<lparr>SenderPlayer := of_int player\<rparr>) (Config cs1) = Inr lg"
      "MessageType message = ChatTeam \<and> ei = [] \<and> cs' = cs1
       \<or> MessageType message \<noteq> ChatTeam \<and> (\<exists>h. intercept message peer cs1 = Inr (h, ei, cs'))"
      "eb = [] \<or> (\<exists>peers. GetMessagePeers session peer message = Inr (Some peers)
         \<and> eb = snd (BroadcastMessage handlers session peer (message\<lparr>SenderPlayer := of_int player\<rparr>) peers))"
      "es = ef @ lg @ ei @ eb"
proof (cases "peer < 0 \<or> c_str (Body message) = [] \<or> MessageType message = ChatServer")
  case True
  with assms rejected show ?thesis by (simp add: HostReceivedMessage_def)
next
  case False
  with assms obtain player where player: "GetPeerPlayer session peer = Inr player"
    by (auto simp: HostReceivedMessage_def rbind_Inr_iff)
  show ?thesis
  proof (cases "player < 0")
    case True
    with assms False player rejected show ?thesis by (simp add: HostReceivedMessage_def)
  next
    case pos: False
    let ?m = "message\<lparr>SenderPlayer := of_int player\<rparr>"
    let ?ff = "if peer \<noteq> LocalPeerIndex session \<and> FloodFilterEnabled (Config cs) \<noteq> 0
             then FloodFilterMessage handlers session peer ?m cs else Inr (False, [], cs)"
    obtain t ef cs1 where ff: "?ff = Inr (t, ef, cs1)"
      and rest: "(if t then Inr (True, ef, cs1)
        else rbind (LogMessage session peer ?m (Config cs1)) (\<lambda>logged.
        rbind (if MessageType message \<noteq> ChatTeam then intercept message peer cs1 else Inr (False, [], cs1))
          (\<lambda>(handled, es2, cs2).
        if handled then Inr (True, ef @ logged @ es2, cs2)
        else rbind (GetMessagePeers session peer message) (\<lambda>targetPeers.
          case targetPeers of
            None \<Rightarrow> Inr (False, ef @ logged @ es2, cs2)
          | Some peers \<Rightarrow>
              (let (sent, es3) = BroadcastMessage handlers session peer ?m peers in
               Inr (sent, ef @ logged @ es2 @ es3, cs2)))))) = Inr (b, es, cs')"
      using assms False player pos by (auto simp: HostReceivedMessage_def rbind_Inr_iff Let_def)
    show ?thesis
    proof (cases t)
      case True
      with ff rest player pos thrown [of player] show ?thesis by (auto split: if_splits)
    next
      case nt: False
      with rest obtain lg h ei cs2 where lg: "LogMessage session peer ?m (Config cs1) = Inr lg"
        and ic: "(if MessageType message \<noteq> ChatTeam then intercept message peer cs1 else Inr (False, [], cs1))
            = Inr (h, ei, cs2)"
        and tl: "(if h then Inr (True, ef @ lg @ ei, cs2)
          else rbind (GetMessagePeers session peer message) (\<lambda>targetPeers.
            case targetPeers of
              None \<Rightarrow> Inr (False, ef @ lg @ ei, cs2)
            | Some peers \<Rightarrow>
                (let (sent, es3) = BroadcastMessage handlers session peer ?m peers in
                 Inr (sent, ef @ lg @ ei @ es3, cs2)))) = Inr (b, es, cs')"
        by (auto simp: rbind_Inr_iff)
      have "\<exists>eb. es = ef @ lg @ ei @ eb \<and> cs' = cs2 \<and>
        (eb = [] \<or> (\<exists>peers. GetMessagePeers session peer message = Inr (Some peers)
           \<and> eb = snd (BroadcastMessage handlers session peer ?m peers)))"
      proof (cases h)
        case True
        with tl show ?thesis by (intro exI [of _ "[]"]) auto
      next
        case False
        with tl obtain tp where tp: "GetMessagePeers session peer message = Inr tp"
          by (auto simp: rbind_Inr_iff)
        show ?thesis
        proof (cases tp)
          case None
          with tl False tp show ?thesis by (intro exI [of _ "[]"]) auto
        next
          case (Some peers)
          obtain sent es3 where "BroadcastMessage handlers session peer ?m peers = (sent, es3)"
            by (cases "BroadcastMessage handlers session peer ?m peers") auto
          with tl False tp Some show ?thesis by (intro exI [of _ es3]) auto
        qed
      qed
      then obtain eb where eb: "es = ef @ lg @ ei @ eb" "cs' = cs2"
        "eb = [] \<or> (\<exists>peers. GetMessagePeers session peer message = Inr (Some peers)
           \<and> eb = snd (BroadcastMessage handlers session peer ?m peers))" by blast
      have "ef = [] \<and> cs1 = cs \<or> FloodFilterMessage handlers session peer ?m cs = Inr (False, ef, cs1)"
        using ff nt by (auto split: if_splits)
      moreover have "MessageType message = ChatTeam \<and> ei = [] \<and> cs' = cs1
        \<or> MessageType message \<noteq> ChatTeam \<and> (\<exists>h. intercept message peer cs1 = Inr (h, ei, cs'))"
        using ic eb(2) by (auto split: if_splits)
      ultimately show ?thesis
        using False player pos lg eb(1,3) by (intro passed [of player ef cs1 lg ei eb]) auto
    qed
  qed
qed

text \<open>C3. The host does not trust the sender field of a message: whatever a peer puts there, every
  player message the host sends out or shows because of it carries the player that belongs to the
  peer. What else is sent is marked as a server message.\<close>

theorem host_overwrites_sender:
  assumes "\<forall>h \<in> set handlers. honest_handler h"
    and "\<And>m p c h e c'. intercept m p c = Inr (h, e, c') \<Longrightarrow> targets (LocalPeerIndex session) (\<lambda>_. True) (\<lambda>m. MessageType m = ChatServer) e"
    and "HostReceivedMessage handlers intercept session peer message cs = Inr (b, es, cs')"
    and "GetPeerPlayer session peer = Inr player"
  shows "targets (LocalPeerIndex session) (\<lambda>_. True) (\<lambda>m. MessageType m = ChatServer \<or> SenderPlayer m = of_int player) es"
  using assms(3)
proof (cases rule: HostReceivedMessage_cases)
  case (thrown pl)
  show ?thesis by (rule flood_targets [OF assms(1) thrown(3)]) auto
next
  case (passed pl ef lg ei eb cs1)
  have "targets (LocalPeerIndex session) (\<lambda>_. True) (\<lambda>m. MessageType m = ChatServer) ef"
    using passed(4) flood_targets [OF assms(1)] by fastforce
  moreover have "targets (LocalPeerIndex session) (\<lambda>_. True) (\<lambda>m. MessageType m = ChatServer) ei"
    using passed(6) assms(2) by auto
  moreover have "targets (LocalPeerIndex session) (\<lambda>_. True) (\<lambda>m. SenderPlayer m = of_int player) eb"
    using passed(7)
  proof (elim disjE exE conjE)
    fix peers
    assume eb: "eb = snd (BroadcastMessage handlers session peer (message\<lparr>SenderPlayer := of_int pl\<rparr>) peers)"
    show ?thesis
      unfolding eb by (rule targets_mono [OF BroadcastMessage_targets [OF assms(1)]])
        (use passed(1) assms(4) in auto)
  qed simp
  ultimately show ?thesis
    unfolding passed(8) targets_simps using LogMessage_targets [OF passed(5)]
    by (blast intro: targets_mono)
qed simp

subsection \<open>Team messages\<close>

lemma team_peers_loop_spec:
  assumes "team_peers_loop session t ps acc = Inr result" "result p"
  shows "acc p \<or> (p \<in> set ps \<and> GetPeerTeam session (int p) = Inr t)"
  using assms(1)
proof (induction ps arbitrary: acc)
  case Nil
  then show ?case using assms(2) by simp
next
  case (Cons q qs)
  then obtain team acc' where t: "GetPeerTeam session (int q) = Inr team"
    and a: "(if team = t then set_peer acc (int q) else Inr acc) = Inr acc'"
    and r: "team_peers_loop session t qs acc' = Inr result"
    by (auto simp: rbind_Inr_iff)
  from a have "acc' p \<Longrightarrow> acc p \<or> (p = q \<and> team = t)"
    by (auto simp: set_peer_def split: if_splits)
  with Cons.IH [OF r] t show ?case by auto
qed

lemma GetTeamPeers_spec:
  assumes "GetTeamPeers session peer = Inr (ok, result)" "result p"
  shows "GetPeerTeam session (int p) = GetPeerTeam session peer"
  using assms team_peers_loop_spec [of session _ "connected_peers session" no_peers result p]
  by (auto simp: GetTeamPeers_def rbind_Inr_iff no_peers_def split: if_splits)

text \<open>C5. A team message stays in the team: every peer the host sends it to is on the sender's team, and so is
  the host when it shows the message on its own screen. Without teams nobody gets the message; a peer is
  only told that it has been timed out.\<close>

theorem team_message_stays_in_team:
  assumes "\<forall>h \<in> set handlers. honest_handler h" "MessageType message = ChatTeam"
    and "HostReceivedMessage handlers intercept session peer message cs = Inr (b, es, cs')"
  shows "targets (LocalPeerIndex session) (\<lambda>p. GetPeerTeam session p = GetPeerTeam session peer) (\<lambda>_. True) es
    \<and> (\<not> HasTeams session \<longrightarrow>
         targets (LocalPeerIndex session) (\<lambda>p. p = peer) (\<lambda>m. MessageType m = ChatServer) es)"
  using assms(3)
proof (cases rule: HostReceivedMessage_cases)
  case (thrown pl)
  show ?thesis by (intro conjI impI flood_targets [OF assms(1) thrown(3)]) auto
next
  case (passed pl ef lg ei eb cs1)
  have ef: "targets (LocalPeerIndex session) (\<lambda>p. p = peer) (\<lambda>m. MessageType m = ChatServer) ef"
    using passed(4) flood_targets [OF assms(1)] by fastforce
  then have "targets (LocalPeerIndex session) (\<lambda>p. GetPeerTeam session p = GetPeerTeam session peer) (\<lambda>_. True) ef"
    by (rule targets_mono) auto
  moreover have ei: "ei = []" using passed(6) assms(2) by auto
  moreover have eb: "targets (LocalPeerIndex session)
      (\<lambda>p. HasTeams session \<and> GetPeerTeam session p = GetPeerTeam session peer) (\<lambda>_. True) eb"
    using passed(7)
  proof (elim disjE exE conjE)
    fix peers
    assume "GetMessagePeers session peer message = Inr (Some peers)"
    then obtain ok where t: "GetTeamPeers session peer = Inr (ok, peers)"
      using assms(2) by (auto simp: GetMessagePeers_def rbind_Inr_iff)
    have "0 \<le> p \<and> peers (nat p) \<Longrightarrow> HasTeams session \<and> GetPeerTeam session p = GetPeerTeam session peer" for p
      using GetTeamPeers_spec [OF t, of "nat p"] t
      by (auto simp: GetTeamPeers_def no_peers_def split: if_splits)
    moreover assume eb: "eb = snd (BroadcastMessage handlers session peer (message\<lparr>SenderPlayer := of_int pl\<rparr>) peers)"
    ultimately show ?thesis
      unfolding eb by (intro targets_mono [OF BroadcastMessage_targets [OF assms(1)]]) auto
  qed simp
  moreover have "targets (LocalPeerIndex session) (\<lambda>p. p = peer) (\<lambda>m. MessageType m = ChatServer) eb"
    if "\<not> HasTeams session" by (rule targets_nobody [OF eb]) (use that in simp)
  ultimately show ?thesis
    unfolding passed(8) using LogMessage_targets [OF passed(5)] ef
    by (auto elim: targets_mono)
qed simp

definition pass_all :: "unit interceptor" where
  "pass_all m p cs = Inr (False, [], cs)"

definition demo_config :: ChatConfig where
  "demo_config = \<lparr>FloodFilterEnabled = 1, FloodMessageScoreShort = 2, FloodMessageScoreLong = 5,
     FloodTimeoutScore = 10, FloodTimeoutSeconds = 120, FloodTimeoutResetSeconds = 1800, ChatLogEnabled = 0\<rparr>"

definition demo_chat :: "unit ChatState_scheme" where
  "demo_chat = ChatState.extend
     \<lparr>Config = demo_config, SpamStats = Map.empty, LastTimeMs = 0, SpamUpdateMs = 0\<rparr> ()"

lemma demo_chat_simps [simp]:
  "Config demo_chat = demo_config" "SpamStats demo_chat = Map.empty" "FloodFilterEnabled demo_config = 1"
  "ChatLogEnabled demo_config = 0"
  by (simp_all add: demo_chat_def demo_config_def ChatState.defs)

lemma demo_session_members [simp]:
  "length (Peers demo_session) = 17" "length (PeerChannelIndex demo_session) = 17"
  "length (PlayerSessions demo_session) = 16" "PeerChannelIndex demo_session ! 0 = - 1"
  by (simp_all add: demo_session_def)

lemma demo_local_send:
  "HostReceivedMessage [] pass_all demo_session 0 (new_message t ''gg'') demo_chat =
     (if t = ChatGlobal \<or> t = ChatTeam then
        Inr (True, map (delivery 0 (new_message t ''gg''))
          (filter (\<lambda>p. t = ChatGlobal \<or> p = 0) [0, 1]), demo_chat)
      else Inr (False, [], demo_chat))"
proof -
  have m: "new_message t ''gg'' = \<lparr>MessageType = t, SenderPlayer = 0, TargetPlayer = 0, Body = ''gg''\<rparr>" for t
    by (simp add: new_message_def trunc_copy_def c_str_def NUL_def MaxMessageLength_def)
  have p: "GetPeerPlayer demo_session 0 = Inr 0"
    by (simp add: GetPeerPlayer_def array_at_def)
  have team: "GetPeerTeam demo_session 0 = Inr 0" "GetPeerTeam demo_session 1 = Inr 1"
    by (simp_all add: GetPeerTeam_def GetPeerPlayer_def array_at_def, simp_all add: demo_session_def demo_player_def)
  show ?thesis
    by (cases t)
      (simp_all add: HostReceivedMessage_def p m c_str_def NUL_def LogMessage_def pass_all_def
        GetMessagePeers_def BroadcastMessage_def run_handlers_def broadcast_loop_spec all_peers_def
        GetTeamPeers_def team no_peers_def set_peer_def Let_def)
qed

theorem host_overwrites_sender_witness:
  "targets (LocalPeerIndex demo_session) (\<lambda>_. True) (\<lambda>m. MessageType m = ChatServer \<or> SenderPlayer m = of_int 0)
     (map (delivery 0 (new_message ChatGlobal ''gg'')) [0, 1])"
proof (rule host_overwrites_sender [where handlers = "[]" and intercept = pass_all])
  show "HostReceivedMessage [] pass_all demo_session 0 (new_message ChatGlobal ''gg'') demo_chat
    = Inr (True, map (delivery 0 (new_message ChatGlobal ''gg'')) [0, 1], demo_chat)"
    by (simp add: demo_local_send)
  show "GetPeerPlayer demo_session 0 = Inr 0" by (simp add: GetPeerPlayer_def array_at_def)
qed (auto simp: pass_all_def)

text \<open>Two players of one team, and the host in the other.\<close>

definition demo_team_session :: Session where
  "demo_team_session = demo_session
     \<lparr>PlayerSessions := [demo_player 0 ''Host'', demo_player 1 ''Guest'', (demo_player 3 ''Mate'')\<lparr>PeerIndex := 2\<rparr>]
        @ replicate 13 (demo_player (- 1) ''''),
      connected_peers := [0, 1, 2], connected_players := [0, 1, 2],
      peer_player := (\<lambda>p. if p < 3 then int p else - 1)\<rparr>"

definition quiet_chat :: "unit ChatState_scheme" where
  "quiet_chat = demo_chat\<lparr>Config := demo_config\<lparr>FloodFilterEnabled := 0\<rparr>\<rparr>"

definition demo_team_message :: ChatMessage where
  "demo_team_message = \<lparr>MessageType = ChatTeam, SenderPlayer = 0, TargetPlayer = 0, Body = ''gg''\<rparr>"

lemma demo_team_send:
  "HostReceivedMessage [] pass_all demo_team_session 1 demo_team_message quiet_chat
    = Inr (True, [SentPacket 1 (demo_team_message\<lparr>SenderPlayer := 1\<rparr>),
        SentPacket 2 (demo_team_message\<lparr>SenderPlayer := 1\<rparr>)], quiet_chat)"
proof -
  have f: "length (Peers demo_team_session) = 17" "length (PlayerSessions demo_team_session) = 16"
    "peer_player demo_team_session = (\<lambda>p. if p < 3 then int p else - 1)" "connected_peers demo_team_session = [0, 1, 2]"
    "LocalPeerIndex demo_team_session = 0" "HasTeams demo_team_session"
    by (simp_all add: demo_team_session_def demo_session_def HasTeams_def)
  have q: "FloodFilterEnabled (Config quiet_chat) = 0" "ChatLogEnabled (Config quiet_chat) = 0"
    by (simp_all add: quiet_chat_def)
  have p: "GetPeerPlayer demo_team_session 1 = Inr 1" by (simp add: GetPeerPlayer_def array_at_def f)
  have team: "GetPeerTeam demo_team_session 0 = Inr 0" "GetPeerTeam demo_team_session 1 = Inr 1"
    "GetPeerTeam demo_team_session 2 = Inr 1"
    by (simp_all add: GetPeerTeam_def GetPeerPlayer_def array_at_def f)
      (simp_all add: demo_team_session_def demo_player_def)
  show ?thesis
    by (simp add: HostReceivedMessage_def p f q demo_team_message_def c_str_def NUL_def LogMessage_def
        GetMessagePeers_def BroadcastMessage_def run_handlers_def broadcast_loop_spec
        GetTeamPeers_def team no_peers_def set_peer_def Let_def delivery_def)
qed

theorem team_message_stays_in_team_witness:
  "\<exists>es. HostReceivedMessage [] pass_all demo_team_session 1 demo_team_message quiet_chat = Inr (True, es, quiet_chat)
     \<and> SentPacket 2 (demo_team_message\<lparr>SenderPlayer := 1\<rparr>) \<in> set es
     \<and> targets 0 (\<lambda>p. GetPeerTeam demo_team_session p = GetPeerTeam demo_team_session 1) (\<lambda>_. True) es"
proof -
  have "\<forall>h \<in> set []. honest_handler h" "MessageType demo_team_message = ChatTeam" "LocalPeerIndex demo_team_session = 0"
    by (simp_all add: demo_team_message_def demo_team_session_def)
  with team_message_stays_in_team [OF _ _ demo_team_send] demo_team_send show ?thesis by auto
qed

subsection \<open>The flood filter over time\<close>

lemma spam_loop_spec:
  "spam_loop ms stats = (ms mod 1000, (spam_second ^^ (unat ms div 1000)) stats)"
proof (induction ms stats rule: spam_loop.induct)
  case (1 ms stats)
  show ?case
  proof (cases "1000 \<le> ms")
    case True
    then have u: "unat (ms - 1000) = unat ms - 1000" "1000 \<le> unat ms"
      by (simp_all add: word_le_nat_alt unat_sub)
    have d: "unat ms div 1000 = Suc ((unat ms - 1000) div 1000)"
      using u(2) by (simp add: le_div_geq)
    have m: "(ms - 1000) mod 1000 = ms mod 1000"
      using u by (simp add: word_unat_eq_iff unat_mod_distrib le_mod_geq)
    have "spam_loop ms stats = spam_loop (ms - 1000) (spam_second stats)"
      using True by (simp add: spam_loop.simps)
    also have "\<dots> = ((ms - 1000) mod 1000, (spam_second ^^ (unat (ms - 1000) div 1000)) (spam_second stats))"
      by (rule 1 [OF True])
    finally show ?thesis by (simp add: m d u(1) funpow_swap1)
  next
    case False
    then have "unat ms < 1000" by (simp add: word_le_nat_alt)
    then show ?thesis using False
      by (simp add: spam_loop.simps [of ms] word_unat_eq_iff unat_mod_distrib)
  qed
qed

text \<open>A sequence of ticks, given by the milliseconds between them.\<close>

definition tick_after :: "u32 \<Rightarrow> 'm ChatState_scheme \<Rightarrow> 'm ChatState_scheme" where
  "tick_after delta cs = ChatTick (LastTimeMs cs + delta) cs"

lemma tick_after_fields:
  "SpamUpdateMs (tick_after d cs) = (SpamUpdateMs cs + d) mod 1000"
  "SpamStats (tick_after d cs) = (spam_second ^^ (unat (SpamUpdateMs cs + d) div 1000)) (SpamStats cs)"
  by (simp_all add: tick_after_def ChatTick_def spam_loop_spec)

lemma div_carry: "(a + b) div 1000 = (a mod 1000 + b) div 1000 + a div (1000::nat)"
proof -
  have "a + b = (a mod 1000 + b) + (a div 1000) * 1000"
    using div_mult_mod_eq [of a 1000] by linarith
  then have "(a + b) div 1000 = ((a mod 1000 + b) + (a div 1000) * 1000) div 1000" by simp
  also have "\<dots> = a div 1000 + (a mod 1000 + b) div 1000" by (rule div_mult_self1) simp
  finally show ?thesis by simp
qed



lemma sint_decrement:
  assumes "0 < sint (w::s32)"
  shows "sint (w - 1) = sint w - 1"
proof -
  have "sint w < 2 ^ 31" using sint_lt [of w] by simp
  moreover have "sint (w - 1) = signed_take_bit 31 (sint w - sint (1::s32))"
    using sint_word_ariths(2) [of w 1] by simp
  ultimately show ?thesis using assms by (simp add: signed_take_bit_int_eq_self)
qed

lemma spam_second_entry_timeout:
  assumes "0 < sint (TimeoutSeconds st)"
  shows "(case spam_second_entry st of
      None \<Rightarrow> sint (TimeoutSeconds st) = 1
    | Some st' \<Rightarrow> sint (TimeoutSeconds st') = sint (TimeoutSeconds st) - 1)"
  using assms sint_decrement [OF assms]
  by (auto simp: spam_second_entry_def Let_def split: if_splits)

lemma spam_second_entry_no_timeout:
  assumes "sint (TimeoutSeconds st) \<le> 0" "spam_second_entry st = Some st'"
  shows "TimeoutSeconds st' = TimeoutSeconds st"
  using assms by (auto simp: spam_second_entry_def Let_def split: if_splits)

lemma spam_second_at: "spam_second stats ip = Option.bind (stats ip) spam_second_entry"
  by (simp add: spam_second_def)

lemma timeout_countdown:
  assumes "stats ip = Some st" "0 \<le> sint (TimeoutSeconds st)"
  shows "case (spam_second ^^ n) stats ip of
      None \<Rightarrow> sint (TimeoutSeconds st) \<le> int n
    | Some st' \<Rightarrow> sint (TimeoutSeconds st') = max 0 (sint (TimeoutSeconds st) - int n)"
proof (induction n)
  case 0
  with assms show ?case by simp
next
  case (Suc n)
  show ?case
  proof (cases "(spam_second ^^ n) stats ip")
    case None
    then have "(spam_second ^^ Suc n) stats ip = None"
      by (simp add: spam_second_at)
    with Suc None show ?thesis by simp
  next
    case (Some st')
    then have t: "sint (TimeoutSeconds st') = max 0 (sint (TimeoutSeconds st) - int n)" using Suc by simp
    have step: "(spam_second ^^ Suc n) stats ip = spam_second_entry st'"
      using Some by (simp add: spam_second_at)
    show ?thesis
    proof (cases "0 < sint (TimeoutSeconds st')")
      case True
      then have "sint (TimeoutSeconds st') = sint (TimeoutSeconds st) - int n" using t by linarith
      with spam_second_entry_timeout [OF True] True show ?thesis unfolding step
        by (cases "spam_second_entry st'") simp_all
    next
      case False
      then have "sint (TimeoutSeconds st) - int n \<le> 0" "sint (TimeoutSeconds st') = 0"
        using t by linarith+
      with spam_second_entry_no_timeout [of st'] show ?thesis unfolding step
        by (cases "spam_second_entry st'") simp_all
    qed
  qed
qed


definition demo_stats :: ClientSpamStats where
  "demo_stats = \<lparr>SpamScore = 10, TimeoutSeconds = 3, NextTimeoutSeconds = 3, TimeoutResetSeconds = 60\<rparr>"


end
