(* ===== verification/VotingPackets.thy ===== *)
theory VotingPackets
  imports CustomPackets
begin

text \<open>
  \<open>Server/VotingPackets.hpp\<close> and \<open>.cpp\<close>: the messages of the map vote, their packet format, and who
  handles what. A vote that reaches the host is handed to the voting system with the display name of
  the voter; every other message goes to the registered message handlers.
\<close>

subsection \<open>Messages\<close>

datatype VotingMessageType = MsgVote | MsgVotingOptions | MsgVoteTally | MsgWinner

definition voting_type_code :: "VotingMessageType \<Rightarrow> u32" where
  "voting_type_code t = (case t of MsgVote \<Rightarrow> 0 | MsgVotingOptions \<Rightarrow> 1 | MsgVoteTally \<Rightarrow> 2 | MsgWinner \<Rightarrow> 3)"

definition voting_type_count :: u32 where "voting_type_count = 4"

definition voting_code_type :: "u32 \<Rightarrow> VotingMessageType" where
  "voting_code_type w = (if w = 0 then MsgVote else if w = 1 then MsgVotingOptions
     else if w = 2 then MsgVoteTally else MsgWinner)"

record VotingOption =
  vo_mapName :: string
  vo_typeName :: string
  vo_mapId :: int

definition blank_option :: VotingOption where
  "blank_option = \<lparr>vo_mapName = [], vo_typeName = [], vo_mapId = 0\<rparr>"

record VotingMessage =
  VType :: VotingMessageType
  votingOptions :: "VotingOption list"
  voteTime :: int
  votes :: "int list"
  Vote :: int
  winner :: int

text \<open>The constructor clears the whole structure.\<close>

definition new_voting_message :: "VotingMessageType \<Rightarrow> VotingMessage" where
  "new_voting_message t = \<lparr>VType = t, votingOptions = replicate 5 blank_option, voteTime = 0,
     votes = replicate 5 0, Vote = 0, winner = 0\<rparr>"

subsection \<open>The packet format\<close>

definition write_option :: "('e, 'r) StreamOps \<Rightarrow> 'e BitStream \<Rightarrow> VotingOption \<Rightarrow> 'e BitStream" where
  "write_option E s o1 =
     WriteRange E (WriteString E (WriteString E s 16 (vo_mapName o1)) 16 (vo_typeName o1))
       (of_int (vo_mapId o1) :: u16) 0 10000"

definition write_votes :: "('e, 'r) StreamOps \<Rightarrow> 'e BitStream \<Rightarrow> int \<Rightarrow> 'e BitStream" where
  "write_votes E s v = WriteRange E s (of_int v :: u8) 0 (of_nat MaxPlayers)"

definition VotingSerialize :: "('e, 'r) StreamOps \<Rightarrow> 'e BitStream \<Rightarrow> VotingMessage \<Rightarrow> 'e BitStream" where
  "VotingSerialize E stream d =
     (let s1 = WriteRange E stream (voting_type_code (VType d)) 0 voting_type_count in
      case VType d of
        MsgVotingOptions \<Rightarrow>
          WriteRange E (foldl (write_option E) s1 (map (\<lambda>i. votingOptions d ! i) [0..<5]))
            (of_int (voteTime d) :: u8) 0 120
      | MsgVote \<Rightarrow> WriteRange E s1 (of_int (Vote d) :: u8) 0 5
      | MsgVoteTally \<Rightarrow> foldl (write_votes E) s1 (map (\<lambda>i. votes d ! i) [0..<5])
      | MsgWinner \<Rightarrow> WriteRange E s1 (of_int (winner d) :: u8) 0 5)"

text \<open>The result of \<open>ReadString\<close> is not looked at; a string that cannot be read leaves the cleared
  array.\<close>

definition read_option :: "('e, 'r) StreamOps \<Rightarrow> 'r \<Rightarrow> VotingOption \<times> 'r" where
  "read_option E r =
     (let (m, r1) = ReadString E r 16;
          (t, r2) = ReadString E r1 16;
          (i, r3) = ReadRange E r2 (0::u16) 10000
      in (\<lparr>vo_mapName = (case m of None \<Rightarrow> [] | Some x \<Rightarrow> x),
           vo_typeName = (case t of None \<Rightarrow> [] | Some x \<Rightarrow> x), vo_mapId = uint i\<rparr>, r3))"

fun read_list :: "('r \<Rightarrow> 'a \<times> 'r) \<Rightarrow> nat \<Rightarrow> 'r \<Rightarrow> 'a list \<times> 'r" where
  "read_list rd 0 r = ([], r)"
| "read_list rd (Suc n) r = (let (x, r1) = rd r; (xs, r2) = read_list rd n r1 in (x # xs, r2))"

definition read_u8 :: "('e, 'r) StreamOps \<Rightarrow> u8 \<Rightarrow> 'r \<Rightarrow> int \<times> 'r" where
  "read_u8 E maxValue r = (let (v, r1) = ReadRange E r (0::u8) maxValue in (uint v, r1))"

definition VotingDeserialize :: "('e, 'r) StreamOps \<Rightarrow> 'r \<Rightarrow> VotingMessage option \<times> 'r" where
  "VotingDeserialize E stream =
     (let (code, r1) = ReadRange E stream 0 voting_type_count in
      if voting_type_count \<le> code then (None, r1)
      else (let t = voting_code_type code; d = new_voting_message t in
        case t of
          MsgVotingOptions \<Rightarrow>
            (let (os, r2) = read_list (read_option E) 5 r1; (time, r3) = read_u8 E 120 r2
             in (Some (d\<lparr>votingOptions := os, voteTime := time\<rparr>), r3))
        | MsgVote \<Rightarrow> (let (v, r2) = read_u8 E 5 r1 in (Some (d\<lparr>Vote := v\<rparr>), r2))
        | MsgVoteTally \<Rightarrow>
            (let (vs, r2) = read_list (read_u8 E (of_nat MaxPlayers)) 5 r1 in (Some (d\<lparr>votes := vs\<rparr>), r2))
        | MsgWinner \<Rightarrow> (let (v, r2) = read_u8 E 5 r1 in (Some (d\<lparr>winner := v\<rparr>), r2))))"

subsection \<open>Sending and receiving\<close>

datatype VotingDelivery =
    VPacket int VotingMessage
  | VHandlers VotingMessage
  | VLogVote VotingMessage string

definition ReceivedVotingMessage :: "Session \<Rightarrow> int \<Rightarrow> VotingMessage \<Rightarrow> VotingDelivery list res" where
  "ReceivedVotingMessage session peer message =
     (if VType message = MsgVote then
        rbind (GetPeerPlayer session peer) (\<lambda>player.
        rbind (array_at (PlayerSessions session) player) (\<lambda>p.
          Inr [VLogVote message (DisplayName p)]))
      else Inr [VHandlers message])"

definition SendVotingMessagePacket :: "Session \<Rightarrow> int \<Rightarrow> VotingMessage \<Rightarrow> (bool \<times> VotingDelivery list) res" where
  "SendVotingMessagePacket session peer message =
     (if peer < 0 then Inr (False, [])
      else if peer = LocalPeerIndex session then
        rbind (ReceivedVotingMessage session peer message) (\<lambda>es. Inr (True, es))
      else Inr (True, [VPacket peer message]))"

fun voting_broadcast_loop :: "Session \<Rightarrow> VotingMessage \<Rightarrow> nat list \<Rightarrow> (bool \<times> VotingDelivery list) res" where
  "voting_broadcast_loop session message [] = Inr (True, [])"
| "voting_broadcast_loop session message (peer # rest) =
     rbind (SendVotingMessagePacket session (int peer) message) (\<lambda>(sent, es).
       if \<not> sent then Inr (False, es)
       else rbind (voting_broadcast_loop session message rest) (\<lambda>(ok, fs). Inr (ok, es @ fs)))"

text \<open>Neither of the two sending routines checks that there is a session.\<close>

definition BroadcastVotingMessage :: "Session option \<Rightarrow> VotingMessage \<Rightarrow> (bool \<times> VotingDelivery list) res" where
  "BroadcastVotingMessage active message = (case active of
     None \<Rightarrow> Inl Undefined
   | Some session \<Rightarrow> voting_broadcast_loop session message (connected_peers session))"

definition SendVotingMessageToPeer :: "Session option \<Rightarrow> VotingMessage \<Rightarrow> int \<Rightarrow> (bool \<times> VotingDelivery list) res" where
  "SendVotingMessageToPeer active message peer = (case active of
     None \<Rightarrow> Inl Undefined
   | Some session \<Rightarrow> SendVotingMessagePacket session peer message)"

definition SendVoteToHost :: "Session option \<Rightarrow> int \<Rightarrow> (bool \<times> VotingDelivery list) res" where
  "SendVoteToHost active vote = (case active of
     None \<Rightarrow> Inr (False, [])
   | Some session \<Rightarrow>
       SendVotingMessagePacket session (HostPeerIndex session) ((new_voting_message MsgVote)\<lparr>Vote := vote\<rparr>))"

definition VotingHandlePacket :: "Session option \<Rightarrow> nat \<Rightarrow> VotingMessage \<Rightarrow> VotingDelivery list res" where
  "VotingHandlePacket active sender message = (case active of
     None \<Rightarrow> Inr []
   | Some session \<Rightarrow>
       (let peer = GetChannelPeer session sender in
        if peer < 0 then Inr [] else ReceivedVotingMessage session peer message))"

subsection \<open>Round trip\<close>

definition voting_option_ok :: "VotingOption \<Rightarrow> bool" where
  "voting_option_ok o1 \<longleftrightarrow> string_fits 16 (vo_mapName o1) \<and> string_fits 16 (vo_typeName o1)
     \<and> 0 \<le> vo_mapId o1 \<and> vo_mapId o1 \<le> 10000"

text \<open>A message carries only the fields of its type, inside their ranges.\<close>

definition voting_message_ok :: "VotingMessage \<Rightarrow> bool" where
  "voting_message_ok m \<longleftrightarrow> (let d = new_voting_message (VType m) in case VType m of
     MsgVotingOptions \<Rightarrow>
       m = d\<lparr>votingOptions := votingOptions m, voteTime := voteTime m\<rparr>
       \<and> length (votingOptions m) = 5 \<and> (\<forall>o1 \<in> set (votingOptions m). voting_option_ok o1)
       \<and> 0 \<le> voteTime m \<and> voteTime m \<le> 120
   | MsgVote \<Rightarrow> m = d\<lparr>Vote := Vote m\<rparr> \<and> 0 \<le> Vote m \<and> Vote m \<le> 5
   | MsgVoteTally \<Rightarrow>
       m = d\<lparr>votes := votes m\<rparr> \<and> length (votes m) = 5 \<and> (\<forall>v \<in> set (votes m). 0 \<le> v \<and> v \<le> int MaxPlayers)
   | MsgWinner \<Rightarrow> m = d\<lparr>winner := winner m\<rparr> \<and> 0 \<le> winner m \<and> winner m \<le> 5)"

definition u8_bits :: "nat \<Rightarrow> int \<Rightarrow> bool list" where
  "u8_bits m v = range_bits m (ucast (of_int v :: u8))"

definition option_bits :: "VotingOption \<Rightarrow> bool list" where
  "option_bits o1 = string_bits 16 (vo_mapName o1) @ string_bits 16 (vo_typeName o1)
     @ range_bits 10000 (ucast (of_int (vo_mapId o1) :: u16))"

definition voting_bits :: "VotingMessage \<Rightarrow> bool list" where
  "voting_bits m = range_bits 4 (ucast (voting_type_code (VType m))) @ (case VType m of
     MsgVotingOptions \<Rightarrow> concat (map option_bits (votingOptions m)) @ u8_bits 120 (voteTime m)
   | MsgVote \<Rightarrow> u8_bits 5 (Vote m)
   | MsgVoteTally \<Rightarrow> concat (map (u8_bits 16) (votes m))
   | MsgWinner \<Rightarrow> u8_bits 5 (winner m))"

lemma voting_type_code_facts: "voting_code_type (voting_type_code t) = t" "voting_type_code t < 4"
  by (cases t; simp add: voting_type_code_def voting_code_type_def)+

lemma writes_u8:
  assumes "stream_laws E flushed remaining" "stream_ok s" "unat hi = m"
  shows "writes flushed s (u8_bits m v) (WriteRange E s (of_int v :: u8) 0 hi)"
  using writes_range [OF assms(1,2) byte_widths(3), of hi "of_int v"] assms(3) by (simp add: u8_bits_def)

lemma read_u8_spec:
  assumes "stream_laws E flushed remaining" "0 \<le> v" "v \<le> int m" "m < 256" "unat hi = m"
    and "remaining r = u8_bits m v @ rest"
  shows "\<exists>r'. read_u8 E hi r = (v, r') \<and> remaining r' = rest"
proof -
  have u: "uint (of_int v :: u8) = v"
    using assms(2-4) by (simp add: unsigned_of_int take_bit_int_eq_self)
  then have "unat (of_int v :: u8) = nat v" by (metis nat_uint_eq)
  then have "(of_int v :: u8) \<le> hi" using assms(2,3,5) by (simp add: word_le_nat_alt)
  moreover have "remaining r = range_bits (unat hi) (ucast (of_int v :: u8)) @ rest"
    using assms(5,6) by (simp add: u8_bits_def)
  ultimately obtain r' where "ReadRange E r 0 hi = (of_int v :: u8, r')" "remaining r' = rest"
    using ReadRange_spec [OF assms(1) byte_widths(3)] by blast
  then show ?thesis by (simp add: read_u8_def u)
qed

lemma writes_foldl:
  assumes "stream_laws E flushed remaining" "stream_ok s"
    and "\<And>s x. x \<in> set xs \<Longrightarrow> stream_ok s \<Longrightarrow> writes flushed s (enc x) (wr s x)"
  shows "writes flushed s (concat (map enc xs)) (foldl wr s xs)"
  using assms(2,3)
proof (induction xs arbitrary: s)
  case (Cons x xs)
  have 1: "writes flushed s (enc x) (wr s x)" using Cons.prems by simp
  have "writes flushed (wr s x) (concat (map enc xs)) (foldl wr (wr s x) xs)"
    using Cons.IH [OF writes_ok [OF 1]] Cons.prems(2) by simp
  from writes_trans [OF 1 this] show ?case by simp
qed (simp add: writes_refl)

lemma read_list_spec:
  assumes "\<And>r x rest. x \<in> set xs \<Longrightarrow> remaining r = enc x @ rest \<Longrightarrow> \<exists>r'. rd r = (x, r') \<and> remaining r' = rest"
    and "remaining r = concat (map enc xs) @ rest"
  shows "\<exists>r'. read_list rd (length xs) r = (xs, r') \<and> remaining r' = rest"
  using assms
proof (induction xs arbitrary: r)
  case (Cons x xs)
  have "x \<in> set (x # xs)" "remaining r = enc x @ (concat (map enc xs) @ rest)"
    using Cons.prems(2) by simp_all
  from Cons.prems(1) [OF this] obtain r1 where r1: "rd r = (x, r1)"
    "remaining r1 = concat (map enc xs) @ rest" by blast
  have "\<exists>r'. read_list rd (length xs) r1 = (xs, r') \<and> remaining r' = rest"
    by (rule Cons.IH [OF _ r1(2)]) (rule Cons.prems(1), simp_all)
  with r1 show ?case by auto
qed simp

lemma writes_option:
  assumes "stream_laws E flushed remaining" "voting_option_ok o1" "stream_ok s"
  shows "writes flushed s (option_bits o1) (write_option E s o1)"
proof -
  have w1: "writes flushed s (string_bits 16 (vo_mapName o1)) (WriteString E s 16 (vo_mapName o1))"
    using assms by (intro writes_string [OF assms(1,3)]) (simp add: voting_option_ok_def)
  have w2: "writes flushed (WriteString E s 16 (vo_mapName o1)) (string_bits 16 (vo_typeName o1))
      (WriteString E (WriteString E s 16 (vo_mapName o1)) 16 (vo_typeName o1))"
    using assms by (intro writes_string [OF assms(1) writes_ok [OF w1]]) (simp add: voting_option_ok_def)
  show ?thesis
    using writes_trans [OF w1 writes_trans [OF w2 writes_range [OF assms(1) writes_ok [OF w2] byte_widths(2),
          of 10000 "of_int (vo_mapId o1)"]]]
    by (simp add: option_bits_def write_option_def)
qed

lemma read_option_spec:
  assumes "stream_laws E flushed remaining" "voting_option_ok o1" "remaining r = option_bits o1 @ rest"
  shows "\<exists>r'. read_option E r = (o1, r') \<and> remaining r' = rest"
proof -
  let ?id = "of_int (vo_mapId o1) :: u16"
  have r: "remaining r = string_bits 16 (vo_mapName o1) @ string_bits 16 (vo_typeName o1)
      @ range_bits 10000 (ucast ?id) @ rest"
    using assms(3) by (simp add: option_bits_def)
  obtain r1 where r1: "ReadString E r 16 = (Some (vo_mapName o1), r1)"
    "remaining r1 = string_bits 16 (vo_typeName o1) @ range_bits 10000 (ucast ?id) @ rest"
    using ReadString_spec [OF assms(1) _ r] assms(2) by (auto simp: voting_option_ok_def)
  obtain r2 where r2: "ReadString E r1 16 = (Some (vo_typeName o1), r2)"
    "remaining r2 = range_bits 10000 (ucast ?id) @ rest"
    using ReadString_spec [OF assms(1) _ r1(2)] assms(2) by (auto simp: voting_option_ok_def)
  have u: "uint ?id = vo_mapId o1"
    using assms(2) by (simp add: voting_option_ok_def unsigned_of_int take_bit_int_eq_self)
  then have "?id \<le> 10000" using assms(2) by (simp add: word_le_def voting_option_ok_def)
  then obtain r3 where "ReadRange E r2 0 10000 = (?id, r3)" "remaining r3 = rest"
    using ReadRange_spec [OF assms(1) byte_widths(2), of ?id 10000 r2 rest] r2(2) by auto
  with r1(1) r2(1) show ?thesis by (simp add: read_option_def u)
qed

lemma VotingSerialize_writes:
  assumes "stream_laws E flushed remaining" "stream_ok s" "voting_message_ok m"
  shows "writes flushed s (voting_bits m) (VotingSerialize E s m)"
proof -
  let ?s1 = "WriteRange E s (voting_type_code (VType m)) 0 voting_type_count"
  have w1: "writes flushed s (range_bits 4 (ucast (voting_type_code (VType m)))) ?s1"
    using writes_range [OF assms(1,2) byte_widths(1), of 4] by (simp add: voting_type_count_def)
  note ok1 = writes_ok [OF w1]
  have all: "map (\<lambda>i. xs ! i) [0..<5] = xs" if "length xs = 5" for xs :: "'z list"
    using that by (metis map_nth)
  show ?thesis
  proof (cases "VType m")
    case MsgVote
    from writes_trans [OF w1 writes_u8 [OF assms(1) ok1, of 5 5 "Vote m"]] MsgVote
    show ?thesis by (simp add: voting_bits_def VotingSerialize_def)
  next
    case MsgWinner
    from writes_trans [OF w1 writes_u8 [OF assms(1) ok1, of 5 5 "winner m"]] MsgWinner
    show ?thesis by (simp add: voting_bits_def VotingSerialize_def)
  next
    case MsgVoteTally
    then have len: "length (votes m) = 5" using assms(3) by (simp add: voting_message_ok_def)
    have "writes flushed ?s1 (concat (map (u8_bits 16) (votes m))) (foldl (write_votes E) ?s1 (votes m))"
      by (rule writes_foldl [OF assms(1) ok1]) (simp add: write_votes_def writes_u8 [OF assms(1)])
    from writes_trans [OF w1 this] MsgVoteTally all [OF len]
    show ?thesis by (simp add: voting_bits_def VotingSerialize_def)
  next
    case MsgVotingOptions
    then have len: "length (votingOptions m) = 5" "\<forall>o1 \<in> set (votingOptions m). voting_option_ok o1"
      using assms(3) by (simp_all add: voting_message_ok_def)
    let ?s2 = "foldl (write_option E) ?s1 (votingOptions m)"
    have w2: "writes flushed ?s1 (concat (map option_bits (votingOptions m))) ?s2"
      using len(2) by (intro writes_foldl [OF assms(1) ok1]) (simp add: writes_option [OF assms(1)])
    from writes_trans [OF w1 writes_trans [OF w2 writes_u8 [OF assms(1) writes_ok [OF w2], of 120 120 "voteTime m"]]]
      MsgVotingOptions all [OF len(1)]
    show ?thesis by (simp add: voting_bits_def VotingSerialize_def)
  qed
qed

lemma VotingDeserialize_reads:
  assumes "stream_laws E flushed remaining" "voting_message_ok m" "remaining r = voting_bits m @ rest"
  shows "\<exists>r'. VotingDeserialize E r = (Some m, r') \<and> remaining r' = rest"
proof -
  let ?t = "VType m"
  let ?body = "case ?t of
     MsgVotingOptions \<Rightarrow> concat (map option_bits (votingOptions m)) @ u8_bits 120 (voteTime m)
   | MsgVote \<Rightarrow> u8_bits 5 (Vote m)
   | MsgVoteTally \<Rightarrow> concat (map (u8_bits 16) (votes m))
   | MsgWinner \<Rightarrow> u8_bits 5 (winner m)"
  have "voting_type_code ?t \<le> voting_type_count"
    using voting_type_code_facts(2) [of ?t] by (simp add: voting_type_count_def)
  moreover have "remaining r = range_bits (unat voting_type_count) (ucast (voting_type_code ?t)) @ (?body @ rest)"
    using assms(3) by (simp add: voting_bits_def voting_type_count_def)
  ultimately obtain r1 where r1: "ReadRange E r 0 voting_type_count = (voting_type_code ?t, r1)"
    "remaining r1 = ?body @ rest"
    using ReadRange_spec [OF assms(1) byte_widths(1)] by blast
  have lt: "\<not> voting_type_count \<le> voting_type_code ?t"
    using voting_type_code_facts(2) [of ?t] by (simp add: voting_type_count_def not_le)
  show ?thesis
  proof (cases ?t)
    case MsgVote
    then have ok: "m = (new_voting_message MsgVote)\<lparr>Vote := Vote m\<rparr>" "0 \<le> Vote m" "Vote m \<le> int 5"
      using assms(2) by (simp_all add: voting_message_ok_def)
    obtain r2 where "read_u8 E 5 r1 = (Vote m, r2)" "remaining r2 = rest"
      using read_u8_spec [OF assms(1) ok(2,3), of 5 r1 rest] r1(2) MsgVote by auto
    with r1(1) lt MsgVote ok(1) show ?thesis
      by (simp add: VotingDeserialize_def voting_type_code_facts(1))
  next
    case MsgWinner
    then have ok: "m = (new_voting_message MsgWinner)\<lparr>winner := winner m\<rparr>" "0 \<le> winner m" "winner m \<le> int 5"
      using assms(2) by (simp_all add: voting_message_ok_def)
    obtain r2 where "read_u8 E 5 r1 = (winner m, r2)" "remaining r2 = rest"
      using read_u8_spec [OF assms(1) ok(2,3), of 5 r1 rest] r1(2) MsgWinner by auto
    with r1(1) lt MsgWinner ok(1) show ?thesis
      by (simp add: VotingDeserialize_def voting_type_code_facts(1))
  next
    case MsgVoteTally
    then have ok: "m = (new_voting_message MsgVoteTally)\<lparr>votes := votes m\<rparr>" "length (votes m) = 5"
      "\<forall>v \<in> set (votes m). 0 \<le> v \<and> v \<le> int 16"
      using assms(2) by (simp_all add: voting_message_ok_def)
    have "\<exists>r'. read_list (read_u8 E 16) (length (votes m)) r1 = (votes m, r') \<and> remaining r' = rest"
      using ok(3) r1(2) MsgVoteTally
      by (intro read_list_spec [where enc = "u8_bits 16"] read_u8_spec [OF assms(1)]) auto
    then obtain r2 where "read_list (read_u8 E 16) 5 r1 = (votes m, r2)" "remaining r2 = rest"
      using ok(2) by auto
    with r1(1) lt MsgVoteTally ok(1) show ?thesis
      by (simp add: VotingDeserialize_def voting_type_code_facts(1))
  next
    case MsgVotingOptions
    then have ok: "m = (new_voting_message MsgVotingOptions)\<lparr>votingOptions := votingOptions m, voteTime := voteTime m\<rparr>"
      "length (votingOptions m) = 5" "\<forall>o1 \<in> set (votingOptions m). voting_option_ok o1"
      "0 \<le> voteTime m" "voteTime m \<le> int 120"
      using assms(2) by (simp_all add: voting_message_ok_def)
    have "\<exists>r'. read_list (read_option E) (length (votingOptions m)) r1 = (votingOptions m, r')
        \<and> remaining r' = u8_bits 120 (voteTime m) @ rest"
      using ok(3) r1(2) MsgVotingOptions
      by (intro read_list_spec [where enc = option_bits] read_option_spec [OF assms(1)]) auto
    then obtain r2 where r2: "read_list (read_option E) 5 r1 = (votingOptions m, r2)"
      "remaining r2 = u8_bits 120 (voteTime m) @ rest"
      using ok(2) by auto
    obtain r3 where "read_u8 E 120 r2 = (voteTime m, r3)" "remaining r3 = rest"
      using read_u8_spec [OF assms(1) ok(4,5), of 120 r2 rest] r2(2) by auto
    with r1(1) r2(1) lt MsgVotingOptions ok(1) show ?thesis
      by (simp add: VotingDeserialize_def voting_type_code_facts(1))
  qed
qed

interpretation voting: packet_codec VotingSerialize VotingDeserialize voting_bits voting_message_ok
proof (unfold_locales, goal_cases)
  case 1
  then show ?case using VotingSerialize_writes [OF 1] by (simp add: writes_def)
next
  case 2
  then show ?case by (rule VotingDeserialize_reads)
qed

text \<open>The messages of the vote survive the network: any sequence of messages whose fields are in
  their ranges is read back as it was written.\<close>

theorem voting_messages_roundtrip:
  assumes "stream_laws E flushed remaining" "stream_ok s" "written flushed s = []"
    and "\<forall>m \<in> set ms. voting_message_ok m"
    and "remaining r = written flushed (foldl (VotingSerialize E) s ms)"
  shows "voting.read_packets E (length ms) r = Some ms"
  using assms by (rule voting.packets_roundtrip)

theorem voting_messages_roundtrip_witness:
  "voting.read_packets list_ops
     (length [(new_voting_message MsgVote)\<lparr>Vote := 3\<rparr>, (new_voting_message MsgVoteTally)\<lparr>votes := [1, 0, 16, 2, 0]\<rparr>])
     (written id (foldl (VotingSerialize list_ops) empty_stream
       [(new_voting_message MsgVote)\<lparr>Vote := 3\<rparr>, (new_voting_message MsgVoteTally)\<lparr>votes := [1, 0, 16, 2, 0]\<rparr>]))
   = Some [(new_voting_message MsgVote)\<lparr>Vote := 3\<rparr>, (new_voting_message MsgVoteTally)\<lparr>votes := [1, 0, 16, 2, 0]\<rparr>]"
  by (rule voting_messages_roundtrip [OF list_stream_laws, where s = empty_stream])
    (simp_all add: voting_message_ok_def new_voting_message_def)

subsection \<open>Who may vote\<close>

lemma ReceivedVotingMessage_vote:
  assumes "session_ok session" "0 \<le> peer" "peer < int MaxPeers" "VType message = MsgVote"
  shows "ReceivedVotingMessage session peer message =
    (if peer_player session (nat peer) < 0 then Inl Undefined
     else Inr [VLogVote message (DisplayName (PlayerSessions session ! nat (peer_player session (nat peer))))])"
proof -
  have "nat peer < MaxPeers" using assms(2,3) by simp
  note range = peer_player_range [OF assms(1) this]
  have "length (PlayerSessions session) = MaxPlayers" using assms(1) by (simp add: session_ok_def)
  then show ?thesis
    using range assms(4) by (auto simp: ReceivedVotingMessage_def GetPeerPlayer_ok [OF assms(1-3)] array_at_def)
qed

text \<open>A message that reaches the vote handler is well handled exactly when it is not a vote or the
  peer that sent it has a player: a vote from a connected peer that has no player (one that is still
  joining, or the host of a dedicated server) indexes the player table with -1.\<close>

theorem vote_needs_player:
  assumes "session_ok session" "0 \<le> GetChannelPeer session sender" "GetChannelPeer session sender < int MaxPeers"
  shows "is_ok (VotingHandlePacket (Some session) sender message)
    \<longleftrightarrow> VType message \<noteq> MsgVote \<or> 0 \<le> peer_player session (nat (GetChannelPeer session sender))"
proof (cases "VType message = MsgVote")
  case True
  then show ?thesis
    using assms(2) by (simp add: VotingHandlePacket_def Let_def ReceivedVotingMessage_vote [OF assms True])
next
  case False
  then show ?thesis using assms(2) by (simp add: VotingHandlePacket_def ReceivedVotingMessage_def)
qed

theorem vote_needs_player_witness:
  "\<not> is_ok (VotingHandlePacket (Some demo_session) 5 (new_voting_message MsgVote))
   \<and> is_ok (VotingHandlePacket (Some demo_session) 1 (new_voting_message MsgVote))"
  using vote_needs_player [of demo_session 5 "new_voting_message MsgVote"]
    vote_needs_player [of demo_session 1 "new_voting_message MsgVote"] demo_session_ok
  by (simp add: GetChannelPeer_def demo_session_def new_voting_message_def)

end
