(* ===== verification/Json.thy ===== *)
theory Json
  imports Prelude
begin

text \<open>
  The documents the program reads with the JSON library: the values it distinguishes, and the
  accessors it calls. An accessor applied to a value of another kind is undefined behaviour in the
  library (an assertion that release builds leave out). The parser itself is a parameter of the
  routines that use it.
\<close>

datatype Json =
    JNull
  | JBool bool
  | JInt int
  | JFraction
  | JString string
  | JArray "Json list"
  | JObject "(string \<times> Json) list"

text \<open>\<open>HasMember\<close> and \<open>operator[]\<close>: the first member of that name.\<close>

definition json_member :: "Json \<Rightarrow> string \<Rightarrow> Json option res" where
  "json_member v key = (case v of JObject kvs \<Rightarrow> Inr (map_of kvs key) | _ \<Rightarrow> Inl Undefined)"

definition json_string :: "Json \<Rightarrow> string res" where
  "json_string v = (case v of JString s \<Rightarrow> Inr (c_str s) | _ \<Rightarrow> Inl Undefined)"

definition json_int :: "Json \<Rightarrow> int res" where
  "json_int v = (case v of JInt i \<Rightarrow> if - (2 ^ 31) \<le> i \<and> i < 2 ^ 31 then Inr i else Inl Undefined | _ \<Rightarrow> Inl Undefined)"

definition json_items :: "Json \<Rightarrow> Json list res" where
  "json_items v = (case v of JArray xs \<Rightarrow> Inr xs | _ \<Rightarrow> Inl Undefined)"

definition is_string :: "Json \<Rightarrow> bool" where
  "is_string v = (case v of JString _ \<Rightarrow> True | _ \<Rightarrow> False)"

definition is_number :: "Json \<Rightarrow> bool" where
  "is_number v = (case v of JInt _ \<Rightarrow> True | JFraction \<Rightarrow> True | _ \<Rightarrow> False)"

definition is_object :: "Json \<Rightarrow> bool" where
  "is_object v = (case v of JObject _ \<Rightarrow> True | _ \<Rightarrow> False)"

end
