(* ===== verification/Voting.thy ===== *)
theory Voting
  imports VotingPackets Json "HOL-Library.AList" "HOL-Library.Multiset"
begin

text \<open>
  \<open>Server/VotingSystem.hpp\<close> and \<open>.cpp\<close>: the map vote of a dedicated lobby. The globals of the source
  are one record; the random number generator is a sequence of numbers and a position in it; the
  clock is an argument; \<open>std::sort\<close> is a parameter with its documented contract. A routine that may not
  return has type \<open>option\<close> (the loop that draws options again until one is new).
\<close>

subsection \<open>Data\<close>

record HaloMap =
  mapName :: string
  mapDisplayName :: string
  mapId :: int

record HaloType =
  specificMaps :: "HaloMap list"
  typeName :: string
  typeDisplayName :: string
  SprintEnabled :: string

definition new_type :: "string \<Rightarrow> string \<Rightarrow> HaloType" where
  "new_type t dn = \<lparr>specificMaps = [], typeName = t, typeDisplayName = dn, SprintEnabled = ''0''\<rparr>"

record MapAndType =
  haloMap :: HaloMap
  haloType :: HaloType
  Count :: int
  optIndex :: int
  isRevoteOption :: bool

definition new_option :: "HaloMap \<Rightarrow> HaloType \<Rightarrow> MapAndType" where
  "new_option m t = \<lparr>haloMap = m, haloType = t, Count = 0, optIndex = - 1, isRevoteOption = False\<rparr>"

record VotingConfig =
  VotingEnabled :: u32
  MapVotingTime :: u32
  NumberOfVotingOptions :: u32
  NumberOfRevotesAllowed :: u32
  VotingDuplicationLevel :: u32
  TimeBetweenVoteEndAndGameStart :: u32
  TeamShuffleEnabled :: u32

definition same_option :: "VotingConfig \<Rightarrow> MapAndType \<Rightarrow> MapAndType \<Rightarrow> bool" where
  "same_option cfg a b =
     (let same_map = (mapDisplayName (haloMap a) = mapDisplayName (haloMap b));
          same_type = (typeDisplayName (haloType a) = typeDisplayName (haloType b)) in
      if VotingDuplicationLevel cfg = 0 then same_map \<or> same_type
      else if VotingDuplicationLevel cfg = 1 then same_map \<and> same_type
      else False)"

record VotingState =
  voteStartedTime :: int
  winnerChosenTime :: int
  numberOfRevotesUsed :: u32
  revoteFlag :: bool
  idle :: bool
  currentVotingOptions :: "MapAndType list"
  mapVotes :: "(string \<times> int) list"
  gameTypes :: "HaloType list"
  haloMaps :: "HaloMap list"
  randPos :: nat

definition initial_voting :: VotingState where
  "initial_voting = \<lparr>voteStartedTime = 0, winnerChosenTime = 0, numberOfRevotesUsed = 0, revoteFlag = False,
     idle = False, currentVotingOptions = [], mapVotes = [], gameTypes = [], haloMaps = [], randPos = 0\<rparr>"

text \<open>What the routines take from the machine and from the runtime: the random numbers, the sort, the
  value an uninitialised \<open>mapId\<close> happens to have, the folders of maps and the files in them.\<close>
record VotingWorld =
  rand_at :: "nat \<Rightarrow> nat"
  sort_options :: "MapAndType list \<Rightarrow> MapAndType list"
  uninit_mapId :: int
  MapList :: "string list"
  CustomMapList :: "string list"
  getDefaultMapId :: "string \<Rightarrow> int"
  getCustomMapID :: "string \<Rightarrow> int"
  voting_json :: "string option"
  parse_json :: "string \<Rightarrow> Json option"

datatype VotingEffect = Deliver VotingDelivery | RunCommand string

type_synonym voting_result = "(VotingState \<times> VotingEffect list) res option"

subsection \<open>Maps and types\<close>

definition MapNames :: "(int \<times> string) list" where
  "MapNames = [(320, ''Guardian''), (340, ''Valhalla''), (705, ''Diamondback''), (703, ''Edge''),
     (700, ''Reactor''), (31, ''Icebox''), (390, ''The Pit''), (380, ''Narrows''), (310, ''High Ground''),
     (410, ''Standoff''), (400, ''Sandtrap''), (30, ''Last Resort'')]"

definition DefaultTypes :: "(string \<times> string) list" where
  "DefaultTypes = [(''slayer'', ''Slayer''), (''team_slayer'', ''Team Slayer''), (''team_swat'', ''Team Swat''),
     (''ctf'', ''CTF''), (''odd_ball'', ''Oddball''), (''odd_ball_ffa'', ''FFA Oddball''), (''koth'', ''Crazy King'')]"

definition default_maps :: "VotingWorld \<Rightarrow> HaloMap list" where
  "default_maps W = concat (map (\<lambda>m. case map_of MapNames (getDefaultMapId W m) of
       None \<Rightarrow> []
     | Some name \<Rightarrow> [\<lparr>mapName = m, mapDisplayName = name, mapId = getDefaultMapId W m\<rparr>]) (MapList W))"

definition loadDefaultMapsAndTypes :: "VotingWorld \<Rightarrow> VotingState \<Rightarrow> VotingState" where
  "loadDefaultMapsAndTypes W s =
     s\<lparr>haloMaps := haloMaps s @ default_maps W,
       gameTypes := gameTypes s @ map (\<lambda>(t, n). new_type t n) DefaultTypes\<rparr>"

subsection \<open>The voting file\<close>

definition load_map :: "VotingWorld \<Rightarrow> Json \<Rightarrow> HaloMap list res" where
  "load_map W mapObject =
     rbind (json_member mapObject ''mapName'') (\<lambda>mn.
     rbind (case mn of None \<Rightarrow> Inr None | Some _ \<Rightarrow> json_member mapObject ''displayName'') (\<lambda>dn.
       case (mn, dn) of
         (Some n, Some d) \<Rightarrow>
           rbind (json_string n) (\<lambda>name.
             if name \<in> set (MapList W) then
               rbind (json_string d) (\<lambda>display.
                 Inr [\<lparr>mapName = name, mapDisplayName = display, mapId = getDefaultMapId W name\<rparr>])
             else if name \<in> set (CustomMapList W) then
               rbind (json_string d) (\<lambda>display.
                 Inr [\<lparr>mapName = name, mapDisplayName = display, mapId = getCustomMapID W name\<rparr>])
             else Inr [])
       | _ \<Rightarrow> Inr []))"

fun rconcat :: "('a \<Rightarrow> 'b list res) \<Rightarrow> 'a list \<Rightarrow> 'b list res" where
  "rconcat f [] = Inr []"
| "rconcat f (x # xs) = rbind (f x) (\<lambda>ys. rbind (rconcat f xs) (\<lambda>zs. Inr (ys @ zs)))"

definition load_specific_maps :: "VotingWorld \<Rightarrow> Json option \<Rightarrow> HaloMap list res" where
  "load_specific_maps W smaps = (case smaps of
     None \<Rightarrow> Inr []
   | Some JNull \<Rightarrow> Inr []
   | Some v \<Rightarrow> rbind (json_items v) (rconcat (load_map W)))"

definition load_type :: "VotingWorld \<Rightarrow> Json \<Rightarrow> HaloType list res" where
  "load_type W c =
     rbind (json_member c ''typeName'') (\<lambda>tn.
     rbind (case tn of None \<Rightarrow> Inr None | Some _ \<Rightarrow> json_member c ''displayName'') (\<lambda>dn.
       case (tn, dn) of
         (Some n, Some d) \<Rightarrow>
           rbind (json_string n) (\<lambda>name. rbind (json_string d) (\<lambda>display.
           rbind (json_member c ''SprintEnabled'') (\<lambda>sprint.
           rbind (case sprint of None \<Rightarrow> Inr ''0'' | Some v \<Rightarrow> json_string v) (\<lambda>se.
           rbind (json_member c ''SpecificMaps'') (\<lambda>smaps.
           rbind (load_specific_maps W smaps) (\<lambda>ms.
             Inr [(new_type name display)\<lparr>SprintEnabled := se, specificMaps := ms\<rparr>]))))))
       | _ \<Rightarrow> Inr []))"

definition LoadVotingJson :: "VotingWorld \<Rightarrow> VotingState \<Rightarrow> (bool \<times> VotingState) res" where
  "LoadVotingJson W s0 =
     (let s = s0\<lparr>haloMaps := [], gameTypes := []\<rparr> in
      case voting_json W of
        None \<Rightarrow> Inr (False, s)
      | Some contents \<Rightarrow>
          (case parse_json W (c_str contents) of
             Some (JObject kvs) \<Rightarrow>
               (case (map_of kvs ''Types'', map_of kvs ''Maps'') of
                  (Some types, Some maps) \<Rightarrow>
                    rbind (json_items maps) (\<lambda>ms. rbind (rconcat (load_map W) ms) (\<lambda>hms.
                    rbind (json_items types) (\<lambda>ts. rbind (rconcat (load_type W) ts) (\<lambda>hts.
                      Inr (2 \<le> length hts, s\<lparr>haloMaps := hms, gameTypes := hts\<rparr>)))))
                | _ \<Rightarrow> Inr (False, s))
           | _ \<Rightarrow> Inr (False, s)))"

definition load_or_default :: "VotingWorld \<Rightarrow> VotingState \<Rightarrow> VotingState res" where
  "load_or_default W s =
     rbind (LoadVotingJson W s) (\<lambda>(ok, s'). Inr (if ok then s' else loadDefaultMapsAndTypes W s'))"

subsection \<open>Choosing the options\<close>

definition nth_mod :: "'a list \<Rightarrow> nat \<Rightarrow> 'a res" where
  "nth_mod xs r = (if xs = [] then Inl Undefined else Inr (xs ! (r mod length xs)))"

definition GenerateVotingOption :: "VotingWorld \<Rightarrow> VotingState \<Rightarrow> nat \<Rightarrow> MapAndType res" where
  "GenerateVotingOption W s pos =
     rbind (nth_mod (gameTypes s) (rand_at W pos)) (\<lambda>gametype.
     rbind (nth_mod (if specificMaps gametype \<noteq> [] then specificMaps gametype else haloMaps s)
              (rand_at W (pos + 1))) (\<lambda>m.
       Inr (new_option m gametype)))"

text \<open>Drawing until the option is not among those chosen: the option and the position after it.\<close>

partial_function (option) draw_option ::
  "VotingConfig \<Rightarrow> VotingWorld \<Rightarrow> VotingState \<Rightarrow> MapAndType list \<Rightarrow> nat \<Rightarrow> (MapAndType \<times> nat) res option" where
  "draw_option cfg W s chosen pos =
     (case GenerateVotingOption W s pos of
        Inl e \<Rightarrow> Some (Inl e)
      | Inr opt \<Rightarrow>
          (if list_ex (\<lambda>c. same_option cfg c opt) chosen then draw_option cfg W s chosen (pos + 2)
           else Some (Inr (opt, pos + 2))))"

text \<open>The loop over the configured number of options; \<open>n\<close> of them are still to be chosen.\<close>

fun draw_options ::
  "VotingConfig \<Rightarrow> VotingWorld \<Rightarrow> VotingState \<Rightarrow> nat \<Rightarrow> MapAndType list \<Rightarrow> nat \<Rightarrow> (MapAndType list \<times> nat) res option" where
  "draw_options cfg W s 0 chosen pos = Some (Inr (chosen, pos))"
| "draw_options cfg W s (Suc n) chosen pos =
     (case draw_option cfg W s chosen pos of
        None \<Rightarrow> None
      | Some (Inl e) \<Rightarrow> Some (Inl e)
      | Some (Inr (opt, pos')) \<Rightarrow>
          draw_options cfg W s n (chosen @ [opt\<lparr>optIndex := int (length chosen) + 1\<rparr>]) pos')"

definition revote_option :: "VotingWorld \<Rightarrow> nat \<Rightarrow> MapAndType" where
  "revote_option W n = \<lparr>haloMap = \<lparr>mapName = [], mapDisplayName = ''Revote'', mapId = uninit_mapId W\<rparr>,
     haloType = \<lparr>specificMaps = [], typeName = [], typeDisplayName = [], SprintEnabled = []\<rparr>,
     Count = 0, optIndex = int n + 1, isRevoteOption = True\<rparr>"

text \<open>\<open>strncpy_s\<close> into 16 cells ends the program when the text and its terminator do not fit.\<close>

definition copy16 :: "string \<Rightarrow> string res" where
  "copy16 x = (if length (c_str x) < 16 then Inr (c_str x) else Inl Terminated)"

fun fill_options :: "MapAndType list \<Rightarrow> nat \<Rightarrow> VotingOption list \<Rightarrow> VotingOption list res" where
  "fill_options [] i slots = Inr slots"
| "fill_options (opt # rest) i slots =
     (if length slots \<le> i then Inl Undefined
      else rbind (copy16 (mapDisplayName (haloMap opt))) (\<lambda>m.
           rbind (copy16 (typeDisplayName (haloType opt))) (\<lambda>t.
             fill_options rest (Suc i)
               (slots[i := \<lparr>vo_mapName = m, vo_typeName = t, vo_mapId = mapId (haloMap opt)\<rparr>]))))"

definition GenerateVotingOptionsMessage :: "VotingConfig \<Rightarrow> VotingState \<Rightarrow> VotingMessage res" where
  "GenerateVotingOptionsMessage cfg s =
     (let newmessage = new_voting_message MsgVotingOptions in
      rbind (fill_options (currentVotingOptions s) 0 (votingOptions newmessage)) (\<lambda>slots.
        Inr (newmessage\<lparr>votingOptions := slots, voteTime := sint (MapVotingTime cfg)\<rparr>)))"

definition StartVoting :: "VotingConfig \<Rightarrow> VotingWorld \<Rightarrow> Session option \<Rightarrow> int \<Rightarrow> VotingState \<Rightarrow> voting_result" where
  "StartVoting cfg W session now s =
     (if idle s then Some (Inr (s, []))
      else case draw_options cfg W s (unat (NumberOfVotingOptions cfg)) [] (randPos s) of
        None \<Rightarrow> None
      | Some (Inl e) \<Rightarrow> Some (Inl e)
      | Some (Inr (chosen, pos)) \<Rightarrow>
          (let options = (if numberOfRevotesUsed s < NumberOfRevotesAllowed cfg
                          then chosen @ [revote_option W (length chosen)] else chosen);
               s' = s\<lparr>currentVotingOptions := options, voteStartedTime := now, randPos := pos\<rparr> in
           Some (rbind (GenerateVotingOptionsMessage cfg s') (\<lambda>message.
             rbind (BroadcastVotingMessage session message) (\<lambda>(_, es). Inr (s', map Deliver es))))))"

subsection \<open>Counting\<close>

definition ResetVoting :: "VotingState \<Rightarrow> VotingState" where
  "ResetVoting s = s\<lparr>numberOfRevotesUsed := 0, winnerChosenTime := 0, voteStartedTime := 0, mapVotes := []\<rparr>"

definition count_vote :: "MapAndType list \<Rightarrow> string \<times> int \<Rightarrow> MapAndType list" where
  "count_vote options vote =
     (if unat (of_int (snd vote) :: u32) > length options \<or> snd vote < 1 then options
      else options[nat (snd vote - 1) := (options ! nat (snd vote - 1))\<lparr>Count := Count (options ! nat (snd vote - 1)) + 1\<rparr>])"

definition countVotes :: "VotingState \<Rightarrow> VotingState" where
  "countVotes s = s\<lparr>currentVotingOptions := foldl count_vote (currentVotingOptions s) (mapVotes s)\<rparr>"

definition findWinner :: "VotingConfig \<Rightarrow> VotingWorld \<Rightarrow> Session option \<Rightarrow> int \<Rightarrow> VotingState \<Rightarrow> (VotingState \<times> VotingEffect list) res" where
  "findWinner cfg W session now s0 =
     (let s1 = countVotes s0;
          options = sort_options W (currentVotingOptions s1);
          s = s1\<lparr>currentVotingOptions := options\<rparr> in
      if options = [] then Inl Undefined
      else (let winningOption = last options in
        if isRevoteOption winningOption then
          Inr (s\<lparr>numberOfRevotesUsed := numberOfRevotesUsed s + 1, mapVotes := [], voteStartedTime := 0,
                 revoteFlag := True\<rparr>, [])
        else
          rbind (BroadcastVotingMessage session ((new_voting_message MsgWinner)\<lparr>winner := optIndex winningOption\<rparr>)) (\<lambda>(_, es).
            Inr (s\<lparr>winnerChosenTime := now, voteStartedTime := 0, mapVotes := []\<rparr>,
                 map Deliver es
                 @ [RunCommand (''Game.GameType \"'' @ typeName (haloType winningOption) @ ''\"''),
                    RunCommand (''Game.Map \"'' @ mapName (haloMap winningOption) @ ''\"''),
                    RunCommand (''Server.SprintEnabled '' @ SprintEnabled (haloType winningOption))]
                 @ (if TeamShuffleEnabled cfg = 1 then [RunCommand ''Server.ShuffleTeams''] else [])))))"

subsection \<open>The events of the vote\<close>

definition voting_active :: "VotingConfig \<Rightarrow> Session option \<Rightarrow> bool" where
  "voting_active cfg session = (case session of None \<Rightarrow> False
     | Some ses \<Rightarrow> IsEstablished ses \<and> IsHost ses \<and> VotingEnabled cfg \<noteq> 0)"

definition numberOfPlayersInGame :: "Session \<Rightarrow> nat" where
  "numberOfPlayersInGame ses = length (connected_players ses)"

text \<open>A call that may not return, and what follows it.\<close>

definition vbind :: "voting_result \<Rightarrow> (VotingState \<Rightarrow> VotingEffect list \<Rightarrow> voting_result) \<Rightarrow> voting_result" where
  "vbind m f = (case m of None \<Rightarrow> None | Some (Inl e) \<Rightarrow> Some (Inl e) | Some (Inr (s, es)) \<Rightarrow> f s es)"

definition VotingTick ::
  "VotingConfig \<Rightarrow> VotingWorld \<Rightarrow> Session option \<Rightarrow> int \<Rightarrow> string \<Rightarrow> VotingState \<Rightarrow> voting_result" where
  "VotingTick cfg W session now loadedMap s =
     (case session of None \<Rightarrow> Some (Inr (s, [])) | Some ses \<Rightarrow>
      if \<not> voting_active cfg session then Some (Inr (s, []))
      else if idle s then
        (if 0 < numberOfPlayersInGame ses then
           (if c_str loadedMap = ''mainmenu'' then StartVoting cfg W session now (s\<lparr>idle := False\<rparr>)
            else Some (Inr (s\<lparr>idle := False\<rparr>, [])))
         else Some (Inr (s, [])))
      else if numberOfPlayersInGame ses = 0 then Some (Inr (ResetVoting (s\<lparr>idle := True\<rparr>), []))
      else
        (let starts = winnerChosenTime s \<noteq> 0
               \<and> now - winnerChosenTime s > uint (TimeBetweenVoteEndAndGameStart cfg);
             es1 = (if starts then [RunCommand ''Game.Start''] else []);
             s1 = (if starts then ResetVoting s else s) in
         if revoteFlag s1 then
           vbind (StartVoting cfg W session now s1) (\<lambda>s2 es2. Some (Inr (s2\<lparr>revoteFlag := False\<rparr>, es1 @ es2)))
         else if voteStartedTime s1 = 0 then Some (Inr (s1, es1))
         else if now - voteStartedTime s1 < uint (MapVotingTime cfg) then Some (Inr (s1, es1))
         else Some (rbind (findWinner cfg W session now s1) (\<lambda>(s2, es2). Inr (s2, es1 @ es2)))))"

definition PlayerJoinedVoteInProgress ::
  "VotingConfig \<Rightarrow> Session option \<Rightarrow> int \<Rightarrow> VotingState \<Rightarrow> (VotingState \<times> VotingEffect list) res" where
  "PlayerJoinedVoteInProgress cfg session playerIndex s =
     (case session of None \<Rightarrow> Inr (s, []) | Some ses \<Rightarrow>
      if \<not> (voting_active cfg session \<and> voteStartedTime s \<noteq> 0) then Inr (s, [])
      else (let peerIdx = GetPlayerPeer ses playerIndex in
        if peerIdx \<noteq> LocalPeerIndex ses then
          rbind (GenerateVotingOptionsMessage cfg s) (\<lambda>message.
          rbind (SendVotingMessageToPeer session message peerIdx) (\<lambda>(_, es). Inr (s, map Deliver es)))
        else Inr (s, [])))"

definition StartNewVote :: "VotingConfig \<Rightarrow> VotingWorld \<Rightarrow> Session option \<Rightarrow> int \<Rightarrow> VotingState \<Rightarrow> voting_result" where
  "StartNewVote cfg W session now s =
     (if \<not> voting_active cfg session then Some (Inr (s, []))
      else StartVoting cfg W session now (ResetVoting s))"

definition CancelVoteInProgress :: "VotingState \<Rightarrow> VotingState" where
  "CancelVoteInProgress s = ResetVoting s"

definition tally_votes :: "MapAndType list \<Rightarrow> int list res" where
  "tally_votes options =
     (if 5 < length options then Inl Undefined
      else Inr (map Count options @ replicate (5 - length options) 0))"

definition LogVote ::
  "VotingConfig \<Rightarrow> Session option \<Rightarrow> VotingMessage \<Rightarrow> string \<Rightarrow> VotingState \<Rightarrow> (VotingState \<times> VotingEffect list) res" where
  "LogVote cfg session message name s =
     (if \<not> (voting_active cfg session \<and> voteStartedTime s \<noteq> 0) then Inr (s, [])
      else (let vote = (of_int (Vote message) :: u32) in
        if vote > NumberOfVotingOptions cfg + 1 then Inr (s, [])
        else
          (let s1 = countVotes (s\<lparr>mapVotes := AList.update name (sint vote) (mapVotes s)\<rparr>);
               options = currentVotingOptions s1;
               s2 = s1\<lparr>currentVotingOptions := map (\<lambda>opt. opt\<lparr>Count := 0\<rparr>) options\<rparr> in
           rbind (tally_votes options) (\<lambda>tally.
           rbind (BroadcastVotingMessage session ((new_voting_message MsgVoteTally)\<lparr>votes := tally\<rparr>)) (\<lambda>(_, es).
             Inr (s2, map Deliver es))))))"

definition MapLoadedCallback ::
  "VotingConfig \<Rightarrow> VotingWorld \<Rightarrow> Session option \<Rightarrow> int \<Rightarrow> string \<Rightarrow> bool \<Rightarrow> VotingState \<Rightarrow> voting_result" where
  "MapLoadedCallback cfg W session now mapPath infoSocketOpen s =
     (let currentMap = c_str mapPath;
          name = (case find_index (\<lambda>c. c = CHR 0x5C \<or> c = CHR ''/'') currentMap of
                    None \<Rightarrow> currentMap | Some i \<Rightarrow> drop (i + 1) currentMap) in
      if name = ''mainmenu'' \<and> infoSocketOpen then StartNewVote cfg W session now s
      else Some (Inr (s, [])))"

datatype LifeCycleState = LifeCycleNone | LifeCycleStartGame | LifeCycleOther

definition LifeCycleStateChanged :: "LifeCycleState \<Rightarrow> VotingState \<Rightarrow> VotingState" where
  "LifeCycleStateChanged newState s = (case newState of
     LifeCycleStartGame \<Rightarrow> ResetVoting s | LifeCycleNone \<Rightarrow> ResetVoting s | LifeCycleOther \<Rightarrow> s)"

definition EnableVoting :: "VotingWorld \<Rightarrow> VotingState \<Rightarrow> VotingState res" where
  "EnableVoting W s = load_or_default W (ResetVoting s)"

definition DisableVoting :: "VotingState \<Rightarrow> VotingState" where
  "DisableVoting s = ResetVoting s"

definition InitVoting :: "VotingWorld \<Rightarrow> VotingState \<Rightarrow> VotingState res" where
  "InitVoting W s = load_or_default W s"

subsection \<open>Distinct options\<close>

lemma draw_option_result:
  assumes "draw_option cfg W s chosen pos = Some r"
  shows "(\<exists>p. GenerateVotingOption W s p = Inl e \<and> r = Inl e) \<or>
    (\<exists>p opt. GenerateVotingOption W s p = Inr opt \<and> \<not> list_ex (\<lambda>c. same_option cfg c opt) chosen
      \<and> r = Inr (opt, p + 2)) \<or> (\<exists>e. r = Inl e)"
  by (rule draw_option.raw_induct [where P = "\<lambda>cfg W s chosen pos r.
      (\<exists>p. GenerateVotingOption W s p = Inl e \<and> r = Inl e) \<or>
      (\<exists>p opt. GenerateVotingOption W s p = Inr opt \<and> \<not> list_ex (\<lambda>c. same_option cfg c opt) chosen
        \<and> r = Inr (opt, p + 2)) \<or> (\<exists>e. r = Inl e)", OF _ assms])
    (auto split: sum.splits if_splits)

lemma draw_option_Inr:
  assumes "draw_option cfg W s chosen pos = Some (Inr (opt, pos'))"
  shows "\<exists>p. GenerateVotingOption W s p = Inr opt" "\<forall>c \<in> set chosen. \<not> same_option cfg c opt"
  using draw_option_result [OF assms] by (auto simp: list_ex_iff)

lemma GenerateVotingOption_fresh:
  assumes "GenerateVotingOption W s pos = Inr opt"
  shows "Count opt = 0" "\<not> isRevoteOption opt" "haloType opt \<in> set (gameTypes s)"
    "haloMap opt \<in> set (specificMaps (haloType opt)) \<union> set (haloMaps s)"
proof -
  have nth: "nth_mod xs r = Inr x \<Longrightarrow> x \<in> set xs" for xs r and x :: 'z
    by (auto simp: nth_mod_def split: if_splits)
  from assms obtain g m where "nth_mod (gameTypes s) (rand_at W pos) = Inr g" "opt = new_option m g"
    "nth_mod (if specificMaps g \<noteq> [] then specificMaps g else haloMaps s) (rand_at W (pos + 1)) = Inr m"
    by (auto simp: GenerateVotingOption_def rbind_Inr_iff)
  then show "Count opt = 0" "\<not> isRevoteOption opt" "haloType opt \<in> set (gameTypes s)"
    "haloMap opt \<in> set (specificMaps (haloType opt)) \<union> set (haloMaps s)"
    by (auto simp: new_option_def dest!: nth split: if_splits)
qed

text \<open>Options numbered from 1, not yet voted for, and no two of them alike.\<close>

definition options_ok :: "VotingConfig \<Rightarrow> MapAndType list \<Rightarrow> bool" where
  "options_ok cfg os \<longleftrightarrow>
     (\<forall>i < length os. optIndex (os ! i) = int i + 1 \<and> Count (os ! i) = 0 \<and> \<not> isRevoteOption (os ! i))
   \<and> (\<forall>j < length os. \<forall>i < j. \<not> same_option cfg (os ! i) (os ! j))"

lemma same_option_index [simp]:
  "same_option cfg (a\<lparr>optIndex := i\<rparr>) b = same_option cfg a b"
  "same_option cfg a (b\<lparr>optIndex := i\<rparr>) = same_option cfg a b"
  by (simp_all add: same_option_def)

lemma options_ok_append:
  assumes "options_ok cfg os" "Count opt = 0" "\<not> isRevoteOption opt" "\<forall>c \<in> set os. \<not> same_option cfg c opt"
  shows "options_ok cfg (os @ [opt\<lparr>optIndex := int (length os) + 1\<rparr>])"
  using assms unfolding options_ok_def by (auto simp: nth_append less_Suc_eq)

lemma draw_options_result:
  assumes "draw_options cfg W s n chosen pos = Some (Inr (os, pos'))" "options_ok cfg chosen"
  shows "options_ok cfg os \<and> length os = length chosen + n
    \<and> (\<forall>c \<in> set os. c \<in> set chosen \<or> (haloType c \<in> set (gameTypes s)
          \<and> haloMap c \<in> set (specificMaps (haloType c)) \<union> set (haloMaps s)))"
  using assms
proof (induction n arbitrary: chosen pos)
  case (Suc n)
  then obtain opt pos1 where d: "draw_option cfg W s chosen pos = Some (Inr (opt, pos1))"
    and r: "draw_options cfg W s n (chosen @ [opt\<lparr>optIndex := int (length chosen) + 1\<rparr>]) pos1 = Some (Inr (os, pos'))"
    by (auto split: option.splits sum.splits)
  obtain p where p: "GenerateVotingOption W s p = Inr opt" using draw_option_Inr(1) [OF d] by blast
  have "options_ok cfg (chosen @ [opt\<lparr>optIndex := int (length chosen) + 1\<rparr>])"
    using options_ok_append [OF Suc.prems(2)] GenerateVotingOption_fresh [OF p] draw_option_Inr(2) [OF d] by blast
  from Suc.IH [OF r this] GenerateVotingOption_fresh(3,4) [OF p] show ?case by auto
qed simp

lemma StartVoting_result:
  assumes "StartVoting cfg W session now s = Some (Inr (s', es))" "\<not> idle s"
  shows "\<exists>os pos. draw_options cfg W s (unat (NumberOfVotingOptions cfg)) [] (randPos s) = Some (Inr (os, pos))
    \<and> s' = s\<lparr>currentVotingOptions := os @ (if numberOfRevotesUsed s < NumberOfRevotesAllowed cfg
               then [revote_option W (length os)] else []), voteStartedTime := now, randPos := pos\<rparr>"
  using assms unfolding StartVoting_def
  by (auto simp: rbind_Inr_iff Let_def split: option.splits sum.splits if_splits prod.splits)

text \<open>C21. When the program starts a vote, the players choose between exactly the configured number of
  options, no two of which are the same by the configured duplication level, each with its number in
  the list and no votes yet; a further option, to vote again, is there exactly while revotes are left.\<close>

theorem vote_offers_distinct_options:
  assumes "StartVoting cfg W session now s = Some (Inr (s', es))" "\<not> idle s"
  shows "\<exists>os. options_ok cfg os \<and> length os = unat (NumberOfVotingOptions cfg)
    \<and> (\<forall>c \<in> set os. haloType c \<in> set (gameTypes s))
    \<and> currentVotingOptions s' = os @ (if numberOfRevotesUsed s < NumberOfRevotesAllowed cfg
         then [revote_option W (length os)] else [])"
proof -
  from StartVoting_result [OF assms] obtain os pos
    where d: "draw_options cfg W s (unat (NumberOfVotingOptions cfg)) [] (randPos s) = Some (Inr (os, pos))"
      and s': "currentVotingOptions s' = os @ (if numberOfRevotesUsed s < NumberOfRevotesAllowed cfg
         then [revote_option W (length os)] else [])"
    by auto
  have "options_ok cfg []" by (simp add: options_ok_def)
  from draw_options_result [OF d this] s' show ?thesis
    by (intro exI [of _ os]) auto
qed

subsection \<open>When the draw returns\<close>

lemma GenerateVotingOption_total:
  assumes "gameTypes s \<noteq> []" "haloMaps s \<noteq> []"
  shows "\<exists>opt. GenerateVotingOption W s pos = Inr opt"
  using assms by (simp add: GenerateVotingOption_def nth_mod_def)

lemma draw_option_no_fault:
  assumes "gameTypes s \<noteq> []" "haloMaps s \<noteq> []" "draw_option cfg W s chosen pos = Some r"
  shows "\<exists>opt pos'. r = Inr (opt, pos')"
proof -
  have "(\<exists>opt pos'. r = Inr (opt, pos')) \<or> (gameTypes s = [] \<or> haloMaps s = [])"
    by (rule draw_option.raw_induct [where P = "\<lambda>cfg W s chosen pos r.
        (\<exists>opt pos'. r = Inr (opt, pos')) \<or> (gameTypes s = [] \<or> haloMaps s = [])", OF _ assms(3)])
      (auto simp: GenerateVotingOption_def nth_mod_def split: sum.splits if_splits; blast)
  with assms show ?thesis by blast
qed

lemma draw_options_no_fault:
  assumes "gameTypes s \<noteq> []" "haloMaps s \<noteq> []" "draw_options cfg W s n chosen pos = Some r"
  shows "\<exists>os pos'. r = Inr (os, pos')"
  using assms(3)
proof (induction n arbitrary: chosen pos)
  case (Suc n)
  then obtain r1 where r1: "draw_option cfg W s chosen pos = Some r1" by (auto split: option.splits)
  then obtain opt pos1 where "r1 = Inr (opt, pos1)" using draw_option_no_fault [OF assms(1,2)] by blast
  with Suc r1 show ?case by simp
qed auto

lemma same_type_same_option:
  "VotingDuplicationLevel cfg = 0 \<Longrightarrow> typeDisplayName (haloType a) = typeDisplayName (haloType b) \<Longrightarrow> same_option cfg a b"
  by (simp add: same_option_def)

lemma options_ok_distinct_types:
  assumes "options_ok cfg os" "VotingDuplicationLevel cfg = 0"
  shows "distinct (map (\<lambda>c. typeDisplayName (haloType c)) os)"
proof -
  have "typeDisplayName (haloType (os ! i)) \<noteq> typeDisplayName (haloType (os ! j))" if "i < j" "j < length os" for i j
    using assms that same_type_same_option unfolding options_ok_def by blast
  then show ?thesis by (auto simp: distinct_conv_nth) (metis linorder_neqE_nat)
qed

text \<open>C37. With duplicates forbidden altogether (level 0), starting a vote never returns when fewer game
  types with different display names are configured than options are to be offered: the loop that
  draws until the option is new runs for ever, whatever the random numbers are, and with it the
  server's main loop. The program checks only that at least two types are listed.\<close>

theorem vote_start_diverges:
  assumes "VotingDuplicationLevel cfg = 0" "\<not> idle s" "gameTypes s \<noteq> []" "haloMaps s \<noteq> []"
    and "card (typeDisplayName ` set (gameTypes s)) < unat (NumberOfVotingOptions cfg)"
  shows "StartVoting cfg W session now s = None"
proof -
  have "draw_options cfg W s (unat (NumberOfVotingOptions cfg)) [] (randPos s) = None"
  proof (rule ccontr)
    assume "\<not> ?thesis"
    then obtain os pos where d: "draw_options cfg W s (unat (NumberOfVotingOptions cfg)) [] (randPos s) = Some (Inr (os, pos))"
      using draw_options_no_fault [OF assms(3,4)] by blast
    have "options_ok cfg []" by (simp add: options_ok_def)
    note r = draw_options_result [OF d this]
    let ?names = "map (\<lambda>c. typeDisplayName (haloType c)) os"
    have "distinct ?names" using r options_ok_distinct_types [OF _ assms(1)] by blast
    then have "card (set ?names) = length os" by (metis distinct_card length_map)
    moreover have "set ?names \<subseteq> typeDisplayName ` set (gameTypes s)"
      using r by auto
    then have "card (set ?names) \<le> card (typeDisplayName ` set (gameTypes s))" by (intro card_mono) simp_all
    ultimately show False using assms(5) r by simp
  qed
  then show ?thesis using assms(2) by (simp add: StartVoting_def)
qed

text \<open>Names that fit their 16 cells.\<close>

definition fits16 :: "MapAndType \<Rightarrow> bool" where
  "fits16 opt \<longleftrightarrow> length (c_str (mapDisplayName (haloMap opt))) < 16
     \<and> length (c_str (typeDisplayName (haloType opt))) < 16"

lemma fill_options_ok:
  "i + length os \<le> length slots \<Longrightarrow> is_ok (fill_options os i slots) \<longleftrightarrow> (\<forall>opt \<in> set os. fits16 opt)"
  by (induction os i slots rule: fill_options.induct) (auto simp: copy16_def fits16_def)

lemma options_message_ok:
  assumes "length (currentVotingOptions s) \<le> 5"
  shows "is_ok (GenerateVotingOptionsMessage cfg s) \<longleftrightarrow> (\<forall>opt \<in> set (currentVotingOptions s). fits16 opt)"
proof -
  have "is_ok (rbind m (\<lambda>x. Inr (f x))) = is_ok m"
    for m :: "VotingOption list res" and f :: "VotingOption list \<Rightarrow> VotingMessage"
    by (cases m) simp_all
  with fill_options_ok [of 0 "currentVotingOptions s" "replicate 5 blank_option"] assms
  show ?thesis by (simp add: GenerateVotingOptionsMessage_def new_voting_message_def)
qed

text \<open>The list of options can be sent only when all display names are shorter than 16 characters;
  one name of 16 or more ends the whole server (\<open>strncpy_s\<close> calls the runtime's invalid parameter
  handler), although the voting file may hold names of any length.\<close>

theorem options_message_needs_short_names:
  assumes "length (currentVotingOptions s) \<le> 5"
  shows "is_ok (GenerateVotingOptionsMessage cfg s) \<longleftrightarrow> (\<forall>opt \<in> set (currentVotingOptions s). fits16 opt)"
  using assms by (rule options_message_ok)

text \<open>The names the program itself ships fit.\<close>

lemma default_names_fit:
  "\<forall>(i, n) \<in> set MapNames. length (c_str n) < 16" "\<forall>(t, n) \<in> set DefaultTypes. length (c_str n) < 16"
  by (simp_all add: MapNames_def DefaultTypes_def c_str_def NUL_def)

lemma voting_broadcast_ok:
  assumes "VType m \<noteq> MsgVote"
  shows "\<exists>ok es. voting_broadcast_loop session m ps = Inr (ok, es)"
proof (induction ps)
  case (Cons p ps)
  have "\<exists>es. SendVotingMessagePacket session (int p) m = Inr (True, es)"
    using assms by (simp add: SendVotingMessagePacket_def ReceivedVotingMessage_def)
  with Cons show ?case by auto
qed auto

subsection \<open>When the drawing of an option ends\<close>

text \<open>The \<open>k\<close>-th pair of random numbers from a position on gives an option not chosen yet.\<close>

definition new_at :: "VotingConfig \<Rightarrow> VotingWorld \<Rightarrow> VotingState \<Rightarrow> MapAndType list \<Rightarrow> nat \<Rightarrow> nat \<Rightarrow> bool" where
  "new_at cfg W s chosen pos k \<longleftrightarrow> (case GenerateVotingOption W s (pos + 2 * k) of
     Inl _ \<Rightarrow> False | Inr opt \<Rightarrow> \<not> list_ex (\<lambda>c. same_option cfg c opt) chosen)"

lemma new_at_Suc: "new_at cfg W s chosen pos (Suc k) = new_at cfg W s chosen (pos + 2) k"
  by (simp add: new_at_def)

lemma draw_option_skips:
  assumes "gameTypes s \<noteq> []" "haloMaps s \<noteq> []" "\<forall>j < k. \<not> new_at cfg W s chosen pos j"
  shows "draw_option cfg W s chosen pos = draw_option cfg W s chosen (pos + 2 * k)"
  using assms(3)
proof (induction k arbitrary: pos)
  case (Suc k)
  obtain opt where g: "GenerateVotingOption W s pos = Inr opt"
    using GenerateVotingOption_total [OF assms(1,2)] by blast
  have "\<not> new_at cfg W s chosen pos 0" using Suc.prems by blast
  then have "list_ex (\<lambda>c. same_option cfg c opt) chosen" using g by (simp add: new_at_def)
  then have "draw_option cfg W s chosen pos = draw_option cfg W s chosen (pos + 2)"
    using g by (subst draw_option.simps) simp
  also have "\<dots> = draw_option cfg W s chosen (pos + 2 + 2 * k)"
    using Suc.prems new_at_Suc [of cfg W s chosen pos] by (intro Suc.IH) (metis Suc_less_eq)
  finally show ?case by simp
qed simp

lemma draw_option_finds:
  assumes "gameTypes s \<noteq> []" "haloMaps s \<noteq> []" "draw_option cfg W s chosen pos = Some r"
  shows "\<exists>k. new_at cfg W s chosen pos k"
proof -
  have "(\<exists>k. new_at cfg W s chosen pos k) \<or> gameTypes s = [] \<or> haloMaps s = []"
  proof (rule draw_option.raw_induct [where P = "\<lambda>cfg W s chosen pos r.
        (\<exists>k. new_at cfg W s chosen pos k) \<or> gameTypes s = [] \<or> haloMaps s = []", OF _ assms(3)])
    fix draw cfg W s chosen pos r
    assume IH: "\<And>cfg W s chosen pos r. draw cfg W s chosen pos = Some r \<Longrightarrow>
        (\<exists>k. new_at cfg W s chosen pos k) \<or> gameTypes s = [] \<or> haloMaps s = []"
      and d: "(case GenerateVotingOption W s pos of Inl e \<Rightarrow> Some (Inl e)
        | Inr opt \<Rightarrow> if list_ex (\<lambda>c. same_option cfg c opt) chosen then draw cfg W s chosen (pos + 2)
            else Some (Inr (opt, pos + 2))) = Some r"
    show "(\<exists>k. new_at cfg W s chosen pos k) \<or> gameTypes s = [] \<or> haloMaps s = []"
    proof (cases "gameTypes s = [] \<or> haloMaps s = []")
      case False
      then obtain opt where g: "GenerateVotingOption W s pos = Inr opt"
        using GenerateVotingOption_total by blast
      show ?thesis
      proof (cases "list_ex (\<lambda>c. same_option cfg c opt) chosen")
        case True
        with d g have "draw cfg W s chosen (pos + 2) = Some r" by simp
        from IH [OF this] False show ?thesis using new_at_Suc [of cfg W s chosen pos] by metis
      next
        case new: False
        then have "new_at cfg W s chosen pos 0" using g by (simp add: new_at_def)
        then show ?thesis by blast
      qed
    qed simp
  qed
  with assms show ?thesis by blast
qed

lemma draw_option_first:
  assumes "gameTypes s \<noteq> []" "haloMaps s \<noteq> []" "\<exists>k. new_at cfg W s chosen pos k"
  defines "k \<equiv> LEAST k. new_at cfg W s chosen pos k"
  shows "draw_option cfg W s chosen pos =
    Some (rbind (GenerateVotingOption W s (pos + 2 * k)) (\<lambda>opt. Inr (opt, pos + 2 * (k + 1))))"
proof -
  have k: "new_at cfg W s chosen pos k" unfolding k_def using assms(3) by (rule LeastI_ex)
  have "\<forall>j < k. \<not> new_at cfg W s chosen pos j" unfolding k_def using not_less_Least by blast
  note skip = draw_option_skips [OF assms(1,2) this]
  obtain opt where "GenerateVotingOption W s (pos + 2 * k) = Inr opt" "\<not> list_ex (\<lambda>c. same_option cfg c opt) chosen"
    using k by (auto simp: new_at_def split: sum.splits)
  then show ?thesis unfolding skip by (subst draw_option.simps) simp
qed

lemma draw_option_returns:
  assumes "gameTypes s \<noteq> []" "haloMaps s \<noteq> []" "new_at cfg W s chosen pos k"
  shows "\<exists>opt k'. draw_option cfg W s chosen pos = Some (Inr (opt, pos + 2 * k'))"
proof -
  obtain r where r: "draw_option cfg W s chosen pos = Some r"
    and e: "r = rbind (GenerateVotingOption W s (pos + 2 * (LEAST k. new_at cfg W s chosen pos k)))
      (\<lambda>opt. Inr (opt, pos + 2 * ((LEAST k. new_at cfg W s chosen pos k) + 1)))"
    using draw_option_first [OF assms(1,2), of cfg W chosen pos] assms(3) by blast
  obtain opt where "GenerateVotingOption W s (pos + 2 * (LEAST k. new_at cfg W s chosen pos k)) = Inr opt"
    using GenerateVotingOption_total [OF assms(1,2)] by blast
  with r e have "draw_option cfg W s chosen pos = Some (Inr (opt, pos + 2 * ((LEAST k. new_at cfg W s chosen pos k) + 1)))"
    by simp
  then show ?thesis by blast
qed

text \<open>C33. The loop that draws an option ends exactly when some later pair of random numbers gives an option that
  is not chosen yet, and then with the first such option; otherwise it never ends. There is at least one type and one
  map to draw from.\<close>

theorem draw_ends_at_first_new_option:
  assumes "gameTypes s \<noteq> []" "haloMaps s \<noteq> []"
  shows "draw_option cfg W s chosen pos =
    (if \<exists>k. new_at cfg W s chosen pos k
     then Some (let k = (LEAST k. new_at cfg W s chosen pos k) in
       rbind (GenerateVotingOption W s (pos + 2 * k)) (\<lambda>opt. Inr (opt, pos + 2 * (k + 1))))
     else None)"
  using draw_option_first [OF assms, of cfg W chosen pos] draw_option_finds [OF assms, of cfg W chosen pos]
  by (cases "draw_option cfg W s chosen pos") (auto simp: Let_def)

subsection \<open>When a vote starts\<close>

text \<open>A condition on the sequence of random numbers: from every position on, every pair of a type and a map comes up
  again. Nothing documented of \<open>rand\<close> promises it; it is met by the sequence of the examples.\<close>

definition every_pair_recurs :: "VotingWorld \<Rightarrow> VotingState \<Rightarrow> bool" where
  "every_pair_recurs W s \<longleftrightarrow> (\<forall>k. \<forall>i < length (gameTypes s). \<forall>j < length (haloMaps s). \<exists>k' \<ge> k.
     rand_at W (randPos s + 2 * k') mod length (gameTypes s) = i
     \<and> rand_at W (randPos s + 2 * k' + 1) mod length (haloMaps s) = j)"

lemma missing_name:
  assumes "length os < card (f ` set xs)"
  shows "\<exists>i < length xs. f (xs ! i) \<notin> g ` set os"
proof (rule ccontr)
  assume "\<not> ?thesis"
  then have "f ` set xs \<subseteq> g ` set os" by (auto simp: in_set_conv_nth)
  then have "card (f ` set xs) \<le> card (g ` set os)" by (intro card_mono) simp_all
  also have "\<dots> \<le> length os" by (meson card_image_le card_length finite_set order_trans)
  finally show False using assms by simp
qed

lemma draw_option_recurs:
  assumes "every_pair_recurs W s" "\<forall>t \<in> set (gameTypes s). specificMaps t = []"
    and "length chosen < card (typeDisplayName ` set (gameTypes s))"
    and "length chosen < card (mapDisplayName ` set (haloMaps s))"
  shows "\<exists>opt k'. draw_option cfg W s chosen (randPos s + 2 * k) = Some (Inr (opt, randPos s + 2 * k'))"
proof -
  obtain i where i: "i < length (gameTypes s)"
    "typeDisplayName (gameTypes s ! i) \<notin> (\<lambda>c. typeDisplayName (haloType c)) ` set chosen"
    using missing_name [OF assms(3)] by blast
  obtain j where j: "j < length (haloMaps s)"
    "mapDisplayName (haloMaps s ! j) \<notin> (\<lambda>c. mapDisplayName (haloMap c)) ` set chosen"
    using missing_name [OF assms(4)] by blast
  obtain k1 where k1: "k \<le> k1" "rand_at W (randPos s + 2 * k1) mod length (gameTypes s) = i"
    "rand_at W (randPos s + 2 * k1 + 1) mod length (haloMaps s) = j"
    using assms(1) i(1) j(1) unfolding every_pair_recurs_def by blast
  have ne: "gameTypes s \<noteq> []" "haloMaps s \<noteq> []" using i(1) j(1) by auto
  have "gameTypes s ! i \<in> set (gameTypes s)" using i(1) by simp
  then have g: "GenerateVotingOption W s (randPos s + 2 * k1) = Inr (new_option (haloMaps s ! j) (gameTypes s ! i))"
    using k1(2,3) ne assms(2) by (simp add: GenerateVotingOption_def nth_mod_def)
  have "\<not> list_ex (\<lambda>c. same_option cfg c (new_option (haloMaps s ! j) (gameTypes s ! i))) chosen"
    using i(2) j(2) by (force simp: list_ex_iff same_option_def new_option_def Let_def image_iff split: if_splits)
  moreover have p: "randPos s + 2 * k + 2 * (k1 - k) = randPos s + 2 * k1" using k1(1) by simp
  ultimately have "new_at cfg W s chosen (randPos s + 2 * k) (k1 - k)" unfolding new_at_def p using g by simp
  then obtain opt k' where "draw_option cfg W s chosen (randPos s + 2 * k) = Some (Inr (opt, randPos s + 2 * k + 2 * k'))"
    using draw_option_returns [OF ne] by blast
  then show ?thesis by (metis add.assoc distrib_left)
qed

lemma draw_options_recurs:
  assumes "every_pair_recurs W s" "\<forall>t \<in> set (gameTypes s). specificMaps t = []"
    and "length chosen + n \<le> card (typeDisplayName ` set (gameTypes s))"
    and "length chosen + n \<le> card (mapDisplayName ` set (haloMaps s))"
  shows "\<exists>os pos. draw_options cfg W s n chosen (randPos s + 2 * k) = Some (Inr (os, pos))"
  using assms(3,4)
proof (induction n arbitrary: chosen k)
  case (Suc n)
  then obtain opt k' where "draw_option cfg W s chosen (randPos s + 2 * k) = Some (Inr (opt, randPos s + 2 * k'))"
    using draw_option_recurs [OF assms(1,2), of chosen cfg k] by auto
  with Suc.IH [of "chosen @ [opt\<lparr>optIndex := int (length chosen) + 1\<rparr>]" k'] Suc.prems show ?case by simp
qed simp

lemma StartVoting_total:
  assumes "every_pair_recurs W s" "\<not> idle s"
    and "\<forall>t \<in> set (gameTypes s). specificMaps t = [] \<and> length (c_str (typeDisplayName t)) < 16"
    and "\<forall>m \<in> set (haloMaps s). length (c_str (mapDisplayName m)) < 16"
    and "unat (NumberOfVotingOptions cfg) \<le> card (typeDisplayName ` set (gameTypes s))"
    and "unat (NumberOfVotingOptions cfg) \<le> card (mapDisplayName ` set (haloMaps s))"
    and "unat (NumberOfVotingOptions cfg) \<le> 4"
  shows "\<exists>s' es. StartVoting cfg W (Some session) now s = Some (Inr (s', es)) \<and> voteStartedTime s' = now"
proof -
  let ?n = "unat (NumberOfVotingOptions cfg)"
  obtain os pos where d: "draw_options cfg W s ?n [] (randPos s) = Some (Inr (os, pos))"
    using draw_options_recurs [OF assms(1), of "[]" ?n cfg 0] assms(3,5,6) by auto
  have "options_ok cfg []" by (simp add: options_ok_def)
  from draw_options_result [OF d this] have os: "length os = ?n" "\<forall>c \<in> set os. fits16 c"
    using assms(3,4) by (fastforce simp: fits16_def)+
  let ?os = "if numberOfRevotesUsed s < NumberOfRevotesAllowed cfg then os @ [revote_option W (length os)] else os"
  let ?s = "s\<lparr>currentVotingOptions := ?os, voteStartedTime := now, randPos := pos\<rparr>"
  have "is_ok (GenerateVotingOptionsMessage cfg ?s)"
    using os assms(7) by (subst options_message_ok) (auto simp: fits16_def revote_option_def c_str_def NUL_def)
  then obtain m where m: "GenerateVotingOptionsMessage cfg ?s = Inr m" by (rule is_okE)
  then have "VType m = MsgVotingOptions"
    by (auto simp: GenerateVotingOptionsMessage_def new_voting_message_def rbind_Inr_iff)
  then obtain ok es where "BroadcastVotingMessage (Some session) m = Inr (ok, es)"
    using voting_broadcast_ok [of m session] by (fastforce simp: BroadcastVotingMessage_def)
  with d m assms(2) show ?thesis by (simp add: StartVoting_def Let_def split del: if_split cong: if_cong)
qed

definition demo_config :: "u32 \<Rightarrow> VotingConfig" where
  "demo_config n = \<lparr>VotingEnabled = 1, MapVotingTime = 30, NumberOfVotingOptions = n, NumberOfRevotesAllowed = 1,
     VotingDuplicationLevel = 1, TimeBetweenVoteEndAndGameStart = 4, TeamShuffleEnabled = 0\<rparr>"

definition demo_voting :: VotingState where
  "demo_voting = initial_voting\<lparr>gameTypes := [new_type ''slayer'' ''Slayer'', new_type ''ctf'' ''CTF''],
     haloMaps := [\<lparr>mapName = ''guardian'', mapDisplayName = ''Guardian'', mapId = 320\<rparr>,
       \<lparr>mapName = ''riverworld'', mapDisplayName = ''Valhalla'', mapId = 340\<rparr>]\<rparr>"

definition demo_world :: VotingWorld where
  "demo_world = \<lparr>rand_at = (\<lambda>p. if even p then p div 2 else p div 4), sort_options = sort_key Count, uninit_mapId = 7,
     MapList = [''guardian''], CustomMapList = [], getDefaultMapId = (\<lambda>_. 320), getCustomMapID = (\<lambda>_. - 1),
     voting_json = None, parse_json = (\<lambda>_. None)\<rparr>"

lemma demo_fair: "every_pair_recurs demo_world demo_voting"
proof -
  have "\<exists>k' \<ge> k. k' mod 2 = i \<and> k' div 2 mod 2 = j" if "i < 2" "j < 2" for i j k :: nat
  proof -
    have "k \<le> 4 * k + 2 * j + i" "(4 * k + 2 * j + i) mod 2 = i" "(4 * k + 2 * j + i) div 2 mod 2 = j"
      using that by presburger+
    then show ?thesis by blast
  qed
  moreover have "Suc (2 * k') div 4 = k' div 2" for k' :: nat by presburger
  ultimately show ?thesis
    by (simp add: every_pair_recurs_def demo_world_def demo_voting_def initial_voting_def flip: numeral_2_eq_2)
qed

theorem vote_start_diverges_witness:
  "StartVoting \<lparr>VotingEnabled = 1, MapVotingTime = 30, NumberOfVotingOptions = 3, NumberOfRevotesAllowed = 0,
      VotingDuplicationLevel = 0, TimeBetweenVoteEndAndGameStart = 4, TeamShuffleEnabled = 0\<rparr>
     demo_world (Some demo_session) 100
     (initial_voting\<lparr>gameTypes := [new_type ''slayer'' ''Slayer'', new_type ''ctf'' ''CTF''],
        haloMaps := [\<lparr>mapName = ''guardian'', mapDisplayName = ''Guardian'', mapId = 320\<rparr>]\<rparr>) = None"
  by (rule vote_start_diverges) (simp_all add: initial_voting_def new_type_def)

theorem options_message_needs_short_names_witness:
  "\<not> is_ok (GenerateVotingOptionsMessage (demo_config 3) (initial_voting\<lparr>currentVotingOptions :=
      [new_option \<lparr>mapName = ''m'', mapDisplayName = ''Narrows'', mapId = 380\<rparr>
         (new_type ''t'' ''Multi Team Slayer'')]\<rparr>))"
  by (subst options_message_needs_short_names)
    (simp_all add: initial_voting_def new_option_def new_type_def fits16_def c_str_def NUL_def)

theorem draw_ends_at_first_new_option_witness:
  "\<exists>opt. draw_option (demo_config 2) demo_world demo_voting
      [new_option \<lparr>mapName = ''guardian'', mapDisplayName = ''Guardian'', mapId = 320\<rparr> (new_type ''slayer'' ''Slayer'')] 0
     = Some (Inr (opt, 4)) \<and> typeDisplayName (haloType opt) = ''CTF''"
proof -
  let ?c = "[new_option \<lparr>mapName = ''guardian'', mapDisplayName = ''Guardian'', mapId = 320\<rparr> (new_type ''slayer'' ''Slayer'')]"
  let ?new = "new_at (demo_config 2) demo_world demo_voting ?c 0"
  have zero: "\<not> ?new 0" and one: "?new 1" by code_simp+
  have least: "(LEAST k. ?new k) = 1"
    using one zero by (intro Least_equality) (auto simp: Suc_le_eq intro: gr0I)
  have ne: "gameTypes demo_voting \<noteq> []" "haloMaps demo_voting \<noteq> []" by (simp_all add: demo_voting_def initial_voting_def)
  have "\<exists>k. ?new k" using one by blast
  moreover have "\<exists>opt. GenerateVotingOption demo_world demo_voting 2 = Inr opt \<and> typeDisplayName (haloType opt) = ''CTF''"
    by (simp add: GenerateVotingOption_def nth_mod_def demo_world_def demo_voting_def initial_voting_def new_type_def new_option_def)
  ultimately show ?thesis
    using draw_ends_at_first_new_option [OF ne, of "demo_config 2" demo_world ?c 0] by (auto simp: least)
qed

theorem vote_offers_distinct_options_witness:
  "\<exists>s' es os. StartVoting (demo_config 2) demo_world (Some demo_session) 100 demo_voting = Some (Inr (s', es))
    \<and> options_ok (demo_config 2) os \<and> length os = 2
    \<and> currentVotingOptions s' = os @ [revote_option demo_world 2]"
proof -
  have n: "unat (NumberOfVotingOptions (demo_config 2)) = 2" "\<not> idle demo_voting"
    "numberOfRevotesUsed demo_voting < NumberOfRevotesAllowed (demo_config 2)"
    by (simp_all add: demo_voting_def initial_voting_def demo_config_def)
  obtain s' es where "StartVoting (demo_config 2) demo_world (Some demo_session) 100 demo_voting = Some (Inr (s', es))"
    using StartVoting_total [OF demo_fair, of "demo_config 2" demo_session 100]
    by (auto simp: demo_voting_def demo_config_def initial_voting_def new_type_def c_str_def NUL_def)
  with vote_offers_distinct_options [OF this n(2)] n(1,3) show ?thesis by auto
qed

subsection \<open>The vote as a state machine\<close>

datatype VotingEvent =
    EvTick "Session option" int string
  | EvLogVote "Session option" VotingMessage string
  | EvPlayerJoined "Session option" int
  | EvMapLoaded "Session option" int string bool
  | EvLifeCycle LifeCycleState
  | EvCancel
  | EvEnable
  | EvDisable

definition voting_event :: "VotingConfig \<Rightarrow> VotingWorld \<Rightarrow> VotingEvent \<Rightarrow> VotingState \<Rightarrow> voting_result" where
  "voting_event cfg W e s = (case e of
     EvTick session now m \<Rightarrow> VotingTick cfg W session now m s
   | EvLogVote session message name \<Rightarrow> Some (LogVote cfg session message name s)
   | EvPlayerJoined session player \<Rightarrow> Some (PlayerJoinedVoteInProgress cfg session player s)
   | EvMapLoaded session now path sock \<Rightarrow> MapLoadedCallback cfg W session now path sock s
   | EvLifeCycle ls \<Rightarrow> Some (Inr (LifeCycleStateChanged ls s, []))
   | EvCancel \<Rightarrow> Some (Inr (CancelVoteInProgress s, []))
   | EvEnable \<Rightarrow> Some (rbind (EnableVoting W s) (\<lambda>s'. Inr (s', [])))
   | EvDisable \<Rightarrow> Some (Inr (DisableVoting s, [])))"

text \<open>The bounds the settings keep, with \<open>M\<close> the largest number of revotes configured.\<close>

definition config_ok :: "u32 \<Rightarrow> VotingConfig \<Rightarrow> bool" where
  "config_ok M cfg \<longleftrightarrow> 1 \<le> NumberOfVotingOptions cfg \<and> NumberOfVotingOptions cfg \<le> 4
     \<and> NumberOfRevotesAllowed cfg \<le> M"

text \<open>The contract of \<open>std::sort\<close> with the comparison by \<open>Count\<close>.\<close>

definition valid_sort :: "VotingWorld \<Rightarrow> bool" where
  "valid_sort W \<longleftrightarrow> (\<forall>xs. mset (sort_options W xs) = mset xs \<and> sorted (map Count (sort_options W xs)))"

text \<open>The settings may change between events.\<close>

inductive voting_reachable :: "u32 \<Rightarrow> VotingWorld \<Rightarrow> VotingState \<Rightarrow> bool" for M W where
  voting_init: "InitVoting W initial_voting = Inr s \<Longrightarrow> voting_reachable M W s"
| voting_step: "voting_reachable M W s \<Longrightarrow> config_ok M cfg \<Longrightarrow>
    voting_event cfg W e s = Some (Inr (s', es)) \<Longrightarrow> voting_reachable M W s'"

definition vote_ok :: "u32 \<Rightarrow> VotingState \<Rightarrow> bool" where
  "vote_ok M s \<longleftrightarrow> currentVotingOptions s \<noteq> [] \<and> length (currentVotingOptions s) \<le> 5
     \<and> (\<forall>i < length (currentVotingOptions s).
          optIndex (currentVotingOptions s ! i) = int i + 1 \<and> Count (currentVotingOptions s ! i) = 0)
     \<and> ((\<exists>opt \<in> set (currentVotingOptions s). isRevoteOption opt) \<longrightarrow> numberOfRevotesUsed s < M)"

definition voting_inv :: "u32 \<Rightarrow> VotingState \<Rightarrow> bool" where
  "voting_inv M s \<longleftrightarrow> (voteStartedTime s \<noteq> 0 \<longrightarrow> vote_ok M s) \<and> numberOfRevotesUsed s \<le> M
     \<and> distinct (map fst (mapVotes s)) \<and> (\<forall>v \<in> snd ` set (mapVotes s). 0 \<le> v \<and> v \<le> 5)"

lemma voting_inv_reset: "voting_inv M (ResetVoting s)"
  by (simp add: voting_inv_def ResetVoting_def)

lemma voting_inv_idle [simp]:
  "voting_inv M (s\<lparr>idle := b\<rparr>) = voting_inv M s" "voting_inv M (s\<lparr>revoteFlag := b\<rparr>) = voting_inv M s"
  by (simp_all add: voting_inv_def vote_ok_def)

lemma voting_inv_pools:
  "voting_inv M (s\<lparr>haloMaps := hm, gameTypes := gt\<rparr>) = voting_inv M s"
  "voting_inv M (s\<lparr>gameTypes := gt\<rparr>) = voting_inv M s" "voting_inv M (s\<lparr>haloMaps := hm\<rparr>) = voting_inv M s"
  by (simp_all add: voting_inv_def vote_ok_def)

lemma load_or_default_inv:
  assumes "load_or_default W s = Inr s'"
  shows "voting_inv M s' = voting_inv M s"
  using assms
  by (auto simp: load_or_default_def LoadVotingJson_def loadDefaultMapsAndTypes_def rbind_Inr_iff voting_inv_pools Let_def
      split: option.splits Json.splits if_splits)

lemma StartVoting_inv:
  assumes "voting_inv M s" "config_ok M cfg" "StartVoting cfg W session now s = Some (Inr (s', es))"
  shows "voting_inv M s'"
proof (cases "idle s")
  case True
  then show ?thesis using assms by (simp add: StartVoting_def)
next
  case False
  from StartVoting_result [OF assms(3) False] obtain os pos
    where d: "draw_options cfg W s (unat (NumberOfVotingOptions cfg)) [] (randPos s) = Some (Inr (os, pos))"
      and s': "s' = s\<lparr>currentVotingOptions := os @ (if numberOfRevotesUsed s < NumberOfRevotesAllowed cfg
               then [revote_option W (length os)] else []), voteStartedTime := now, randPos := pos\<rparr>"
    by auto
  have "options_ok cfg []" by (simp add: options_ok_def)
  from draw_options_result [OF d this] have os: "options_ok cfg os" "length os = unat (NumberOfVotingOptions cfg)"
    by auto
  have n: "1 \<le> length os" "length os \<le> 4"
    using assms(2) os(2) by (simp_all add: config_ok_def word_le_nat_alt)
  have nr: "\<not> isRevoteOption opt" if "opt \<in> set os" for opt
    using os(1) that by (auto simp: options_ok_def in_set_conv_nth)
  have "vote_ok M s'"
    using n os(1) assms(2) nr unfolding s' vote_ok_def
    by (auto simp: options_ok_def revote_option_def nth_append less_Suc_eq config_ok_def)
  with assms(1) show ?thesis by (simp add: voting_inv_def s')
qed

lemma foldl_count_vote_length [simp]: "length (foldl count_vote os vs) = length os"
proof (induction vs arbitrary: os)
  case (Cons v vs)
  have "length (count_vote os v) = length os" by (simp add: count_vote_def)
  with Cons show ?case by simp
qed simp

lemma count_vote_nth:
  assumes "i < length os" "length os \<le> 5" "0 \<le> snd v" "snd v \<le> 5"
  shows "count_vote os v ! i = (if snd v = int i + 1 then (os ! i)\<lparr>Count := Count (os ! i) + 1\<rparr> else os ! i)"
proof -
  have "unat (of_int (snd v) :: u32) = nat (snd v)"
    using assms(3,4) by (simp add: unsigned_of_int take_bit_int_eq_self unat_eq_nat_uint)
  then show ?thesis using assms by (auto simp: count_vote_def nth_list_update)
qed

lemma foldl_count_vote_nth:
  assumes "i < length os" "length os \<le> 5" "\<forall>v \<in> snd ` set vs. 0 \<le> v \<and> v \<le> 5"
  shows "foldl count_vote os vs ! i =
    (os ! i)\<lparr>Count := Count (os ! i) + int (length (filter (\<lambda>v. snd v = int i + 1) vs))\<rparr>"
  using assms
proof (induction vs arbitrary: os)
  case (Cons v vs)
  have "length (count_vote os v) = length os" by (simp add: count_vote_def)
  with Cons.IH [of "count_vote os v"] Cons.prems count_vote_nth [of i os v] show ?case by simp
qed simp

definition votes_for :: "VotingState \<Rightarrow> int \<Rightarrow> nat" where
  "votes_for s k = card {n. map_of (mapVotes s) n = Some k}"

lemma length_filter_card:
  "distinct (map fst vs) \<Longrightarrow> length (filter (\<lambda>v. snd v = k) vs) = card {n. map_of vs n = Some k}"
proof (induction vs)
  case (Cons v vs)
  have fin: "finite {n. map_of vs n = Some k}"
    by (rule finite_subset [of _ "fst ` set vs"]) (auto dest: map_of_SomeD intro: rev_image_eqI)
  have none: "map_of vs (fst v) = None" using Cons.prems by (simp add: map_of_eq_None_iff)
  have "{n. map_of (v # vs) n = Some k} = (if snd v = k then {fst v} else {}) \<union> {n. map_of vs n = Some k}"
    using none by auto
  moreover have "fst v \<notin> {n. map_of vs n = Some k}" using none by simp
  ultimately show ?case using Cons fin by simp
qed simp

lemma countVotes_nth:
  assumes "voting_inv M s" "voteStartedTime s \<noteq> 0" "i < length (currentVotingOptions s)"
  shows "currentVotingOptions (countVotes s) ! i =
    (currentVotingOptions s ! i)\<lparr>Count := int (votes_for s (int i + 1))\<rparr>"
proof -
  have "length (currentVotingOptions s) \<le> 5" "Count (currentVotingOptions s ! i) = 0"
    using assms by (simp_all add: voting_inv_def vote_ok_def)
  with foldl_count_vote_nth [of i "currentVotingOptions s" "mapVotes s"] assms show ?thesis
    by (simp add: countVotes_def votes_for_def voting_inv_def length_filter_card)
qed

lemma countVotes_simps [simp]:
  "voteStartedTime (countVotes s) = voteStartedTime s" "mapVotes (countVotes s) = mapVotes s"
  "numberOfRevotesUsed (countVotes s) = numberOfRevotesUsed s"
  "length (currentVotingOptions (countVotes s)) = length (currentVotingOptions s)"
  by (simp_all add: countVotes_def)

lemma set_countVotes:
  assumes "voting_inv M s" "voteStartedTime s \<noteq> 0" "opt \<in> set (currentVotingOptions (countVotes s))"
  shows "\<exists>opt0 \<in> set (currentVotingOptions s). opt = opt0\<lparr>Count := int (votes_for s (optIndex opt0))\<rparr>"
proof -
  from assms(3) obtain i where i: "i < length (currentVotingOptions s)" "opt = currentVotingOptions (countVotes s) ! i"
    by (auto simp: in_set_conv_nth)
  moreover have "optIndex (currentVotingOptions s ! i) = int i + 1"
    using assms(1,2) i(1) by (simp add: voting_inv_def vote_ok_def)
  ultimately show ?thesis
    using countVotes_nth [OF assms(1,2) i(1)] by (metis nth_mem)
qed

lemma valid_sort_last:
  assumes "valid_sort W" "xs \<noteq> []"
  shows "sort_options W xs \<noteq> []" "last (sort_options W xs) \<in> set xs"
    "\<forall>x \<in> set xs. Count x \<le> Count (last (sort_options W xs))"
proof -
  let ?ys = "sort_options W xs"
  have m: "mset ?ys = mset xs" and so: "sorted (map Count ?ys)"
    using assms(1) by (simp_all add: valid_sort_def)
  have st: "set ?ys = set xs" using m by (metis set_mset_mset)
  then show ne: "?ys \<noteq> []" using assms(2) by force
  then show "last ?ys \<in> set xs" using st last_in_set by blast
  have "Count y \<le> Count (last ?ys)" if "y \<in> set ?ys" for y
  proof -
    from that obtain i where "i < length ?ys" "y = ?ys ! i" by (auto simp: in_set_conv_nth)
    with so ne show ?thesis
      by (simp add: last_conv_nth sorted_iff_nth_mono)
  qed
  then show "\<forall>x \<in> set xs. Count x \<le> Count (last ?ys)" using st by blast
qed

lemma findWinner_inv:
  assumes "voting_inv M s" "valid_sort W" "voteStartedTime s \<noteq> 0"
    and "findWinner cfg W session now s = Inr (s', es)"
  shows "voting_inv M s'"
proof -
  let ?os = "currentVotingOptions (countVotes s)"
  have ok: "vote_ok M s" using assms(1,3) by (simp add: voting_inv_def)
  then have "?os \<noteq> []" by (metis countVotes_simps(4) length_0_conv vote_ok_def)
  note last = valid_sort_last [OF assms(2) this]
  have "numberOfRevotesUsed s < M" if "isRevoteOption (last (sort_options W ?os))"
    using set_countVotes [OF assms(1,3) last(2)] that ok by (auto simp: vote_ok_def)
  then have "isRevoteOption (last (sort_options W ?os)) \<Longrightarrow> numberOfRevotesUsed s + 1 \<le> M"
    by (simp add: inc_le)
  with assms show ?thesis
    by (auto simp: findWinner_def voting_inv_def rbind_Inr_iff Let_def split: if_splits)
qed

lemma countVotes_cleared:
  assumes "voting_inv M s" "voteStartedTime s \<noteq> 0"
  shows "(countVotes s)\<lparr>currentVotingOptions := map (\<lambda>opt. opt\<lparr>Count := 0\<rparr>) (currentVotingOptions (countVotes s))\<rparr> = s"
proof -
  have "map (\<lambda>opt. opt\<lparr>Count := 0\<rparr>) (currentVotingOptions (countVotes s)) = currentVotingOptions s"
    using assms countVotes_nth [OF assms]
    by (intro nth_equalityI) (auto simp: voting_inv_def vote_ok_def)
  then show ?thesis by (simp add: countVotes_def)
qed

lemma set_AList_update: "p \<in> set (AList.update k v al) \<Longrightarrow> p = (k, v) \<or> p \<in> set al"
  by (induction al) (auto split: if_splits)

lemma config_vote_range:
  assumes "config_ok M cfg" "\<not> v > NumberOfVotingOptions cfg + 1"
  shows "0 \<le> sint v" "sint v \<le> 5" "sint v = uint v"
proof -
  have "NumberOfVotingOptions cfg < 5" using assms(1) by (simp add: config_ok_def word_le_nat_alt word_less_nat_alt)
  then have "v \<le> 5" using assms(2) by (meson inc_le linorder_not_less order_trans)
  then have "uint v \<le> 5" by (simp add: word_le_def)
  then show "0 \<le> sint v" "sint v \<le> 5" "sint v = uint v" by (simp_all add: sint_eq_uint_small)
qed

text \<open>An accepted vote is recorded and the tally is sent out; the counts are back at 0.\<close>

definition vote_cast :: "string \<Rightarrow> u32 \<Rightarrow> VotingState \<Rightarrow> VotingState" where
  "vote_cast name v s = s\<lparr>mapVotes := AList.update name (sint v) (mapVotes s)\<rparr>"

lemma vote_cast_inv:
  assumes "voting_inv M s" "config_ok M cfg" "\<not> v > NumberOfVotingOptions cfg + 1"
  shows "voting_inv M (vote_cast name v s)"
proof -
  have "0 \<le> w \<and> w \<le> 5" if "w \<in> snd ` set (AList.update name (sint v) (mapVotes s))" for w
    using that config_vote_range [OF assms(2,3)] assms(1)
    by (auto simp: voting_inv_def dest!: set_AList_update)
  with assms(1) show ?thesis by (simp add: voting_inv_def vote_ok_def vote_cast_def distinct_update)
qed

lemma LogVote_result:
  assumes "voting_inv M s" "config_ok M cfg" "voting_active cfg session" "voteStartedTime s \<noteq> 0"
    and "\<not> (of_int (Vote message) :: u32) > NumberOfVotingOptions cfg + 1"
    and "LogVote cfg session message name s = Inr (s', es)"
  shows "s' = vote_cast name (of_int (Vote message)) s"
    and "\<exists>tally ok ds. BroadcastVotingMessage session ((new_voting_message MsgVoteTally)\<lparr>votes := tally\<rparr>) = Inr (ok, ds)
      \<and> es = map Deliver ds \<and> length tally = 5
      \<and> (\<forall>i < length (currentVotingOptions s). tally ! i = int (votes_for s' (int i + 1)))"
proof -
  let ?v = "of_int (Vote message) :: u32"
  let ?s1 = "vote_cast name ?v s"
  have inv: "voting_inv M ?s1" by (rule vote_cast_inv [OF assms(1,2,5)])
  have t: "voteStartedTime ?s1 \<noteq> 0" "currentVotingOptions ?s1 = currentVotingOptions s"
    using assms(4) by (simp_all add: vote_cast_def)
  have r: "rbind (tally_votes (currentVotingOptions (countVotes ?s1))) (\<lambda>tally.
      rbind (BroadcastVotingMessage session ((new_voting_message MsgVoteTally)\<lparr>votes := tally\<rparr>)) (\<lambda>(_, es).
        Inr ((countVotes ?s1)\<lparr>currentVotingOptions :=
          map (\<lambda>opt. opt\<lparr>Count := 0\<rparr>) (currentVotingOptions (countVotes ?s1))\<rparr>, map Deliver es))) = Inr (s', es)"
    using assms(3-6) by (simp add: LogVote_def Let_def vote_cast_def)
  from r show s': "s' = ?s1"
    using countVotes_cleared [OF inv t(1)] by (auto simp: rbind_Inr_iff)
  have len: "length (currentVotingOptions s) \<le> 5" using assms(1,4) by (simp add: voting_inv_def vote_ok_def)
  from r obtain tally ok ds where tally: "tally_votes (currentVotingOptions (countVotes ?s1)) = Inr tally"
    "BroadcastVotingMessage session ((new_voting_message MsgVoteTally)\<lparr>votes := tally\<rparr>) = Inr (ok, ds)" "es = map Deliver ds"
    by (auto simp: rbind_Inr_iff)
  have lc: "length (currentVotingOptions (countVotes ?s1)) = length (currentVotingOptions s)" by (simp add: t(2))
  have tl: "tally = map Count (currentVotingOptions (countVotes ?s1)) @ replicate (5 - length (currentVotingOptions s)) 0"
    using tally(1) len lc by (simp add: tally_votes_def)
  have "tally ! i = int (votes_for s' (int i + 1))" if "i < length (currentVotingOptions s)" for i
    using that lc t countVotes_nth [OF inv t(1), of i] unfolding tl s' by (simp add: nth_append)
  moreover have "length tally = 5" using len lc by (simp add: tl)
  ultimately show "\<exists>tally ok ds. BroadcastVotingMessage session ((new_voting_message MsgVoteTally)\<lparr>votes := tally\<rparr>) = Inr (ok, ds)
      \<and> es = map Deliver ds \<and> length tally = 5
      \<and> (\<forall>i < length (currentVotingOptions s). tally ! i = int (votes_for s' (int i + 1)))"
    using tally(2,3) by blast
qed

lemma LogVote_inv:
  assumes "voting_inv M s" "config_ok M cfg" "LogVote cfg session message name s = Inr (s', es)"
  shows "voting_inv M s'"
proof (cases "voting_active cfg session \<and> voteStartedTime s \<noteq> 0
    \<and> \<not> (of_int (Vote message) :: u32) > NumberOfVotingOptions cfg + 1")
  case False
  then show ?thesis using assms(1,3) by (auto simp: LogVote_def Let_def split: if_splits)
next
  case True
  then show ?thesis
    using LogVote_result(1) [OF assms(1,2) _ _ _ assms(3)] vote_cast_inv [OF assms(1,2)] by blast
qed

lemma VotingTick_inv:
  assumes "voting_inv M s" "valid_sort W" "config_ok M cfg"
    and "VotingTick cfg W session now m s = Some (Inr (s', es))"
  shows "voting_inv M s'"
proof -
  let ?s1 = "if winnerChosenTime s \<noteq> 0 \<and> now - winnerChosenTime s > uint (TimeBetweenVoteEndAndGameStart cfg)
    then ResetVoting s else s"
  have inv1: "voting_inv M ?s1" using assms(1) voting_inv_reset by simp
  have sv: "voting_inv M s2" if "voting_inv M s1" "StartVoting cfg W session now s1 = Some (Inr (s2, es2))" for s1 s2 es2
    by (rule StartVoting_inv [OF that(1) assms(3) that(2)])
  have fw: "voting_inv M s2" if "voteStartedTime ?s1 \<noteq> 0" "findWinner cfg W session now ?s1 = Inr (s2, es2)" for s2 es2
    by (rule findWinner_inv [OF inv1 assms(2) that])
  show ?thesis
    using assms(1,4) inv1 voting_inv_reset [of M "s\<lparr>idle := True\<rparr>"] fw
      sv [of "s\<lparr>idle := False\<rparr>"] sv [of ?s1]
    unfolding VotingTick_def Let_def vbind_def
    by (auto simp: rbind_Inr_iff split: option.splits sum.splits prod.splits if_split_asm simp del: voting_inv_def)
qed

lemma voting_event_inv:
  assumes "voting_inv M s" "valid_sort W" "config_ok M cfg" "voting_event cfg W e s = Some (Inr (s', es))"
  shows "voting_inv M s'"
proof (cases e)
  case (EvTick session now m)
  then show ?thesis using VotingTick_inv [OF assms(1-3)] assms(4) by (simp add: voting_event_def)
next
  case (EvLogVote session message name)
  then show ?thesis using LogVote_inv [OF assms(1,3)] assms(4) by (simp add: voting_event_def)
next
  case (EvPlayerJoined session player)
  then have "s' = s"
    using assms(4) by (auto simp: voting_event_def PlayerJoinedVoteInProgress_def rbind_Inr_iff Let_def
        split: option.splits if_splits)
  then show ?thesis using assms(1) by simp
next
  case (EvMapLoaded session now path sock)
  then have "s' = s \<or> StartVoting cfg W session now (ResetVoting s) = Some (Inr (s', es))"
    using assms(4) by (auto simp: voting_event_def MapLoadedCallback_def StartNewVote_def Let_def split: if_splits)
  then show ?thesis using assms(1) StartVoting_inv [OF voting_inv_reset assms(3)] by blast
next
  case (EvLifeCycle ls)
  then show ?thesis
    using assms(1,4) voting_inv_reset
    by (auto simp: voting_event_def LifeCycleStateChanged_def split: LifeCycleState.splits)
next
  case EvCancel
  then show ?thesis using assms(4) voting_inv_reset by (auto simp: voting_event_def CancelVoteInProgress_def)
next
  case EvEnable
  then have "load_or_default W (ResetVoting s) = Inr s'"
    using assms(4) by (auto simp: voting_event_def EnableVoting_def rbind_Inr_iff)
  from load_or_default_inv [OF this] show ?thesis using voting_inv_reset by simp
next
  case EvDisable
  then show ?thesis using assms(4) voting_inv_reset by (auto simp: voting_event_def DisableVoting_def)
qed

lemma reachable_voting_inv:
  assumes "voting_reachable M W s" "valid_sort W"
  shows "voting_inv M s"
  using assms(1)
proof induction
  case (voting_init s)
  then show ?case
    using load_or_default_inv [of W initial_voting s] by (simp add: InitVoting_def voting_inv_def initial_voting_def)
next
  case (voting_step s cfg e s' es)
  then show ?case using voting_event_inv assms(2) by blast
qed

subsection \<open>What the vote guarantees\<close>

text \<open>C17. In every reachable state, a vote the host accepts replaces the voter's earlier one, changes
  nothing else, and every client is sent, for each option, the number of players whose latest vote is
  for it.\<close>

theorem tally_counts_latest_votes:
  assumes "voting_reachable M W s" "valid_sort W" "config_ok M cfg"
    and "voting_active cfg session" "voteStartedTime s \<noteq> 0"
    and "(of_int (Vote message) :: u32) \<le> NumberOfVotingOptions cfg + 1"
    and "LogVote cfg session message name s = Inr (s', es)"
  shows "map_of (mapVotes s') = (map_of (mapVotes s))(name \<mapsto> uint (of_int (Vote message) :: u32))
    \<and> currentVotingOptions s' = currentVotingOptions s
    \<and> (\<exists>tally ok ds. BroadcastVotingMessage session ((new_voting_message MsgVoteTally)\<lparr>votes := tally\<rparr>) = Inr (ok, ds)
      \<and> es = map Deliver ds \<and> length tally = 5
      \<and> (\<forall>i < length (currentVotingOptions s). tally ! i = int (votes_for s' (int i + 1))))"
proof -
  have v: "\<not> (of_int (Vote message) :: u32) > NumberOfVotingOptions cfg + 1" using assms(6) by simp
  note r = LogVote_result [OF reachable_voting_inv [OF assms(1,2)] assms(3-5) v assms(7)]
  show ?thesis
    using r(2) config_vote_range(3) [OF assms(3) v] unfolding r(1)
    by (simp add: vote_cast_def update_conv')
qed

text \<open>The option of the winner, in a state with a vote in progress.\<close>

lemma findWinner_result:
  assumes "voting_inv M s" "valid_sort W" "voteStartedTime s \<noteq> 0"
    and "findWinner cfg W session now s = Inr (s', es)"
  shows "\<exists>opt \<in> set (currentVotingOptions s).
      (\<forall>other \<in> set (currentVotingOptions s). votes_for s (optIndex other) \<le> votes_for s (optIndex opt))
    \<and> last (sort_options W (currentVotingOptions (countVotes s))) = opt\<lparr>Count := int (votes_for s (optIndex opt))\<rparr>"
proof -
  let ?os = "currentVotingOptions (countVotes s)"
  have ok: "vote_ok M s" using assms(1,3) by (simp add: voting_inv_def)
  then have "?os \<noteq> []" by (metis countVotes_simps(4) length_0_conv vote_ok_def)
  note last = valid_sort_last [OF assms(2) this]
  obtain opt where opt: "opt \<in> set (currentVotingOptions s)"
    "last (sort_options W ?os) = opt\<lparr>Count := int (votes_for s (optIndex opt))\<rparr>"
    using set_countVotes [OF assms(1,3) last(2)] by blast
  have "votes_for s (optIndex other) \<le> votes_for s (optIndex opt)" if "other \<in> set (currentVotingOptions s)" for other
  proof -
    from that obtain i where i: "i < length (currentVotingOptions s)" "other = currentVotingOptions s ! i"
      by (auto simp: in_set_conv_nth)
    have "optIndex other = int i + 1" using ok i by (simp add: vote_ok_def)
    then have "Count (?os ! i) = int (votes_for s (optIndex other))"
      using countVotes_nth [OF assms(1,3) i(1)] by simp
    moreover have "?os ! i \<in> set ?os" using i(1) by simp
    ultimately show ?thesis using last(3) opt(2) by fastforce
  qed
  with opt show ?thesis by blast
qed

definition winner_commands :: "VotingConfig \<Rightarrow> MapAndType \<Rightarrow> VotingEffect list" where
  "winner_commands cfg opt =
     [RunCommand (''Game.GameType \"'' @ typeName (haloType opt) @ ''\"''),
      RunCommand (''Game.Map \"'' @ mapName (haloMap opt) @ ''\"''),
      RunCommand (''Server.SprintEnabled '' @ SprintEnabled (haloType opt))]
     @ (if TeamShuffleEnabled cfg = 1 then [RunCommand ''Server.ShuffleTeams''] else [])"

text \<open>C14. When the time is up, the option that wins is one no other option has more votes than, whatever
  correct sorting routine is used: the server either loads its game type and map and remembers when
  the winner was chosen, or, when it is the option to vote again, uses up one revote.\<close>

theorem winner_has_most_votes:
  assumes "voting_reachable M W s" "valid_sort W" "voteStartedTime s \<noteq> 0"
    and "findWinner cfg W session now s = Inr (s', es)"
  shows "\<exists>opt \<in> set (currentVotingOptions s).
      (\<forall>other \<in> set (currentVotingOptions s). votes_for s (optIndex other) \<le> votes_for s (optIndex opt))
    \<and> mapVotes s' = [] \<and> voteStartedTime s' = 0
    \<and> (if isRevoteOption opt then es = [] \<and> revoteFlag s' \<and> numberOfRevotesUsed s' = numberOfRevotesUsed s + 1
       else winnerChosenTime s' = now \<and> (\<exists>ds. es = map Deliver ds @ winner_commands cfg opt))"
proof -
  from findWinner_result [OF reachable_voting_inv [OF assms(1,2)] assms(2-4)] obtain opt
    where opt: "opt \<in> set (currentVotingOptions s)"
      "\<forall>other \<in> set (currentVotingOptions s). votes_for s (optIndex other) \<le> votes_for s (optIndex opt)"
      "last (sort_options W (currentVotingOptions (countVotes s))) = opt\<lparr>Count := int (votes_for s (optIndex opt))\<rparr>"
    by blast
  show ?thesis
    using assms(4) opt by (intro bexI [OF _ opt(1)])
      (auto simp: findWinner_def rbind_Inr_iff Let_def winner_commands_def split: if_splits)
qed

lemma last_insort_key:
  "ys \<noteq> [] \<Longrightarrow> sorted (map f ys) \<Longrightarrow> last (insort_key f x ys) = (if f x \<le> f (last ys) then last ys else x)"
proof (induction ys)
  case (Cons y ys)
  have "f y \<le> f (last (y # ys))" using Cons.prems(2) by simp
  with Cons show ?case by (cases "ys = []") (auto dest: order_trans)
qed simp

lemma last_sort_key:
  assumes "xs \<noteq> []"
  shows "\<exists>i < length xs. last (sort_key f xs) = xs ! i \<and> (\<forall>j < length xs. f (xs ! j) \<le> f (xs ! i))
    \<and> (\<forall>j < length xs. i < j \<longrightarrow> f (xs ! j) < f (xs ! i))"
  using assms
proof (induction xs)
  case (Cons x xs)
  show ?case
  proof (cases "xs = []")
    case False
    with Cons.IH obtain i where i: "i < length xs" "last (sort_key f xs) = xs ! i"
      "\<forall>j < length xs. f (xs ! j) \<le> f (xs ! i)" "\<forall>j < length xs. i < j \<longrightarrow> f (xs ! j) < f (xs ! i)" by blast
    have "sort_key f xs \<noteq> []" using False by (metis length_0_conv length_sort)
    then have l: "last (sort_key f (x # xs)) = (if f x \<le> f (xs ! i) then xs ! i else x)"
      using last_insort_key [of "sort_key f xs" f x] i(2) by simp
    show ?thesis
    proof (cases "f x \<le> f (xs ! i)")
      case True
      with i l show ?thesis by (intro exI [of _ "Suc i"]) (auto simp: nth_Cons split: nat.splits)
    next
      case False
      with i l show ?thesis by (intro exI [of _ 0]) (force simp: nth_Cons split: nat.splits)
    qed
  qed simp
qed simp

text \<open>Ties go to the later option, as the comment on \<open>findWinner\<close> says, when the sorting routine is
  stable: the message to the clients names the last of the options with the most votes. (The code
  calls \<open>std::sort\<close>, which does not promise to be stable.)\<close>

theorem tie_goes_to_later_option:
  assumes "voting_reachable M W s" "sort_options W = sort_key Count" "voteStartedTime s \<noteq> 0"
    and "findWinner cfg W session now s = Inr (s', es)"
  shows "\<exists>i < length (currentVotingOptions s). (let opt = currentVotingOptions s ! i in
      (\<forall>j < length (currentVotingOptions s). votes_for s (int j + 1) \<le> votes_for s (int i + 1))
    \<and> (\<forall>j < length (currentVotingOptions s). i < j \<longrightarrow> votes_for s (int j + 1) < votes_for s (int i + 1))
    \<and> (if isRevoteOption opt then es = []
       else \<exists>ok ds. BroadcastVotingMessage session ((new_voting_message MsgWinner)\<lparr>winner := int i + 1\<rparr>) = Inr (ok, ds)
         \<and> es = map Deliver ds @ winner_commands cfg opt))"
proof -
  let ?os = "currentVotingOptions (countVotes s)"
  have vs: "valid_sort W" by (simp add: valid_sort_def assms(2))
  note inv = reachable_voting_inv [OF assms(1) vs]
  have ok: "vote_ok M s" using inv assms(3) by (simp add: voting_inv_def)
  then have "?os \<noteq> []" by (metis countVotes_simps(4) length_0_conv vote_ok_def)
  then obtain i where i: "i < length ?os" "last (sort_key Count ?os) = ?os ! i"
    "\<forall>j < length ?os. Count (?os ! j) \<le> Count (?os ! i)"
    "\<forall>j < length ?os. i < j \<longrightarrow> Count (?os ! j) < Count (?os ! i)"
    using last_sort_key [of ?os Count] by blast
  have "optIndex (currentVotingOptions s ! i) = int i + 1" using ok i(1) by (simp add: vote_ok_def)
  with i assms(2,4) countVotes_nth [OF inv assms(3)] show ?thesis
    by (intro exI [of _ i])
      (auto simp: findWinner_def rbind_Inr_iff Let_def winner_commands_def split: if_splits)
qed

text \<open>C39. Players never get more revotes than the host allows: in every reachable state the number of
  revotes used is at most the largest number ever configured, and while the option to vote again is on
  offer at least one is left.\<close>

theorem revotes_never_exceed_allowed:
  assumes "voting_reachable M W s" "valid_sort W"
  shows "numberOfRevotesUsed s \<le> M
    \<and> (voteStartedTime s \<noteq> 0 \<longrightarrow> (\<exists>opt \<in> set (currentVotingOptions s). isRevoteOption opt) \<longrightarrow> numberOfRevotesUsed s < M)"
  using reachable_voting_inv [OF assms] by (auto simp: voting_inv_def vote_ok_def)

text \<open>Cancelling the vote does not cancel a revote that was just voted for: \<open>Reset\<close> leaves the revote
  flag set, and the next tick with a player in the session starts a vote nobody asked for.\<close>

theorem cancel_keeps_pending_revote:
  assumes "voting_active cfg (Some ses)" "0 < numberOfPlayersInGame ses" "\<not> idle s" "revoteFlag s"
    and "StartVoting cfg W (Some ses) now (CancelVoteInProgress s) = Some (Inr (s2, es))"
  shows "VotingTick cfg W (Some ses) now m (CancelVoteInProgress s) = Some (Inr (s2\<lparr>revoteFlag := False\<rparr>, es))"
  using assms by (simp add: VotingTick_def CancelVoteInProgress_def ResetVoting_def vbind_def Let_def)

subsection \<open>A vote from start to end\<close>

definition demo_guardian :: HaloMap where
  "demo_guardian = \<lparr>mapName = ''guardian'', mapDisplayName = ''Guardian'', mapId = 320\<rparr>"

definition demo_loaded :: VotingState where
  "demo_loaded = initial_voting\<lparr>haloMaps := [demo_guardian], gameTypes := map (\<lambda>(t, n). new_type t n) DefaultTypes\<rparr>"

definition demo_running :: VotingState where
  "demo_running = demo_loaded\<lparr>currentVotingOptions :=
     [(new_option demo_guardian (new_type ''slayer'' ''Slayer''))\<lparr>optIndex := 1\<rparr>,
      (new_option demo_guardian (new_type ''team_slayer'' ''Team Slayer''))\<lparr>optIndex := 2\<rparr>,
      revote_option demo_world 2], voteStartedTime := 100, randPos := 4\<rparr>"

lemma demo_init: "InitVoting demo_world initial_voting = Inr demo_loaded"
  by (simp add: InitVoting_def load_or_default_def LoadVotingJson_def loadDefaultMapsAndTypes_def default_maps_def
      demo_world_def initial_voting_def demo_loaded_def demo_guardian_def MapNames_def)

lemma demo_draws:
  "draw_options (demo_config 2) demo_world demo_loaded 2 [] 0 =
     Some (Inr ([(new_option demo_guardian (new_type ''slayer'' ''Slayer''))\<lparr>optIndex := 1\<rparr>,
      (new_option demo_guardian (new_type ''team_slayer'' ''Team Slayer''))\<lparr>optIndex := 2\<rparr>], 4))"
  by (simp add: numeral_2_eq_2 draw_option.simps GenerateVotingOption_def nth_mod_def demo_world_def demo_loaded_def
      DefaultTypes_def initial_voting_def new_type_def new_option_def same_option_def demo_config_def)

lemma demo_fits: "fits16 opt" if "opt \<in> set (currentVotingOptions demo_running)"
  using that by (auto simp: demo_running_def fits16_def new_option_def new_type_def demo_guardian_def
      revote_option_def c_str_def NUL_def)

lemma demo_start_event:
  "\<exists>es. voting_event (demo_config 2) demo_world (EvMapLoaded (Some demo_session) 100 ''maps/mainmenu'' True) demo_loaded
     = Some (Inr (demo_running, es))"
proof -
  have "is_ok (GenerateVotingOptionsMessage (demo_config 2) demo_running)"
    using demo_fits by (subst options_message_ok) (auto simp: demo_running_def)
  then obtain m where m: "GenerateVotingOptionsMessage (demo_config 2) demo_running = Inr m" by (rule is_okE)
  then have "VType m = MsgVotingOptions"
    by (auto simp: GenerateVotingOptionsMessage_def new_voting_message_def rbind_Inr_iff)
  then obtain ok es where b: "BroadcastVotingMessage (Some demo_session) m = Inr (ok, es)"
    using voting_broadcast_ok [of m demo_session "[0, 1]"] by (auto simp: BroadcastVotingMessage_def)
  have r: "ResetVoting demo_loaded = demo_loaded" "randPos demo_loaded = 0" "\<not> idle demo_loaded"
    "numberOfRevotesUsed demo_loaded = 0"
    by (simp_all add: ResetVoting_def demo_loaded_def initial_voting_def)
  have c: "unat (NumberOfVotingOptions (demo_config 2)) = 2" "NumberOfRevotesAllowed (demo_config 2) = 1"
    "VotingEnabled (demo_config 2) = 1"
    by (simp_all add: demo_config_def)
  have p: "c_str ''maps/mainmenu'' = ''maps/mainmenu''" by (simp add: c_str_def NUL_def)
  have "StartVoting (demo_config 2) demo_world (Some demo_session) 100 demo_loaded = Some (Inr (demo_running, map Deliver es))"
    unfolding StartVoting_def r c demo_draws using m b r(3,4) by (simp add: demo_running_def Let_def numeral_2_eq_2)
  then have "voting_event (demo_config 2) demo_world (EvMapLoaded (Some demo_session) 100 ''maps/mainmenu'' True) demo_loaded
     = Some (Inr (demo_running, map Deliver es))"
    by (simp add: voting_event_def MapLoadedCallback_def p StartNewVote_def voting_active_def c r)
  then show ?thesis by blast
qed

lemma demo_config_ok: "config_ok 1 (demo_config 2)"
  by (simp add: config_ok_def demo_config_def)

lemma demo_valid_sort: "valid_sort demo_world" "sort_options demo_world = sort_key Count"
  by (simp_all add: valid_sort_def demo_world_def)

lemma demo_running_reachable: "voting_reachable 1 demo_world demo_running"
  using demo_start_event voting_step [OF voting_init [OF demo_init] demo_config_ok] by blast

definition demo_vote :: VotingMessage where
  "demo_vote = (new_voting_message MsgVote)\<lparr>Vote := 2\<rparr>"

definition demo_voted :: VotingState where
  "demo_voted = demo_running\<lparr>mapVotes := [(''Guest'', 2)]\<rparr>"

lemma demo_vote_logged: "\<exists>es. LogVote (demo_config 2) (Some demo_session) demo_vote ''Guest'' demo_running = Inr (demo_voted, es)"
  by (simp add: LogVote_def demo_vote_def new_voting_message_def demo_running_def demo_voted_def demo_loaded_def
      initial_voting_def voting_active_def demo_config_def countVotes_def count_vote_def tally_votes_def
      BroadcastVotingMessage_def SendVotingMessagePacket_def ReceivedVotingMessage_def new_option_def revote_option_def)

lemma demo_voted_reachable: "voting_reachable 1 demo_world demo_voted"
proof -
  obtain es where "LogVote (demo_config 2) (Some demo_session) demo_vote ''Guest'' demo_running = Inr (demo_voted, es)"
    using demo_vote_logged by blast
  then have "voting_event (demo_config 2) demo_world (EvLogVote (Some demo_session) demo_vote ''Guest'') demo_running
      = Some (Inr (demo_voted, es))" by (simp add: voting_event_def)
  with voting_step [OF demo_running_reachable demo_config_ok] show ?thesis by blast
qed

theorem tally_counts_latest_votes_witness:
  "\<exists>es tally ok ds. LogVote (demo_config 2) (Some demo_session) demo_vote ''Guest'' demo_running = Inr (demo_voted, es)
    \<and> BroadcastVotingMessage (Some demo_session) ((new_voting_message MsgVoteTally)\<lparr>votes := tally\<rparr>) = Inr (ok, ds)
    \<and> es = map Deliver ds \<and> tally ! 1 = int (votes_for demo_voted 2)"
proof -
  obtain es where l: "LogVote (demo_config 2) (Some demo_session) demo_vote ''Guest'' demo_running = Inr (demo_voted, es)"
    using demo_vote_logged by blast
  have "voting_active (demo_config 2) (Some demo_session)" "voteStartedTime demo_running \<noteq> 0"
    "(of_int (Vote demo_vote) :: u32) \<le> NumberOfVotingOptions (demo_config 2) + 1"
    "1 < length (currentVotingOptions demo_running)"
    by (simp_all add: voting_active_def demo_config_def demo_running_def demo_vote_def)
  with tally_counts_latest_votes [OF demo_running_reachable demo_valid_sort(1) demo_config_ok _ _ _ l] l
  show ?thesis by (fastforce dest: spec [of _ 1])
qed

lemma demo_winner:
  "\<exists>s' es. findWinner (demo_config 2) demo_world (Some demo_session) 130 demo_voted = Inr (s', es)"
  by (simp add: findWinner_def demo_voted_def demo_running_def demo_loaded_def initial_voting_def demo_world_def
      countVotes_def count_vote_def new_option_def revote_option_def BroadcastVotingMessage_def
      SendVotingMessagePacket_def ReceivedVotingMessage_def new_voting_message_def Let_def)

lemma demo_voted_started: "voteStartedTime demo_voted \<noteq> 0"
  by (simp add: demo_voted_def demo_running_def)

theorem winner_has_most_votes_witness:
  "\<exists>s' es. findWinner (demo_config 2) demo_world (Some demo_session) 130 demo_voted = Inr (s', es) \<and> mapVotes s' = []"
  using demo_winner winner_has_most_votes [OF demo_voted_reachable demo_valid_sort(1) demo_voted_started] by blast

theorem tie_goes_to_later_option_witness:
  "\<exists>i < length (currentVotingOptions demo_voted). \<forall>j < length (currentVotingOptions demo_voted).
     votes_for demo_voted (int j + 1) \<le> votes_for demo_voted (int i + 1)"
proof -
  obtain s' es where "findWinner (demo_config 2) demo_world (Some demo_session) 130 demo_voted = Inr (s', es)"
    using demo_winner by blast
  from tie_goes_to_later_option [OF demo_voted_reachable demo_valid_sort(2) demo_voted_started this]
  show ?thesis by (auto simp: Let_def)
qed

theorem revotes_never_exceed_allowed_witness:
  "numberOfRevotesUsed demo_running \<le> 1 \<and> numberOfRevotesUsed demo_running < 1"
  using revotes_never_exceed_allowed [OF demo_running_reachable demo_valid_sort(1)]
  by (simp add: demo_running_def revote_option_def)

theorem cancel_keeps_pending_revote_witness:
  "\<exists>s2 es. VotingTick (demo_config 2) demo_world (Some demo_session) 200 ''mainmenu''
       (CancelVoteInProgress (demo_voting\<lparr>revoteFlag := True\<rparr>)) = Some (Inr (s2\<lparr>revoteFlag := False\<rparr>, es))"
proof -
  let ?s = "demo_voting\<lparr>revoteFlag := True\<rparr>"
  have f: "every_pair_recurs demo_world (CancelVoteInProgress ?s)"
    using demo_fair by (simp add: every_pair_recurs_def CancelVoteInProgress_def ResetVoting_def)
  obtain s2 es where "StartVoting (demo_config 2) demo_world (Some demo_session) 200 (CancelVoteInProgress ?s) = Some (Inr (s2, es))"
    using StartVoting_total [OF f, of "demo_config 2" demo_session 200]
    by (auto simp: CancelVoteInProgress_def ResetVoting_def demo_voting_def demo_config_def initial_voting_def
        new_type_def c_str_def NUL_def)
  moreover have "voting_active (demo_config 2) (Some demo_session)" "0 < numberOfPlayersInGame demo_session"
    "\<not> idle ?s" "revoteFlag ?s"
    by (simp_all add: voting_active_def demo_config_def numberOfPlayersInGame_def demo_voting_def initial_voting_def)
  ultimately show ?thesis using cancel_keeps_pending_revote by blast
qed

end
