(* ===== verification/ServerCommands.thy ===== *)
theory ServerCommands
  imports BanList ServerChat Voting
begin

text \<open>
  The console commands of \<open>Modules/ModuleServer.cpp\<close> that act on the session: kicking and banning by
  name, UID and index, the ban list commands, listing and shuffling players, pinging, voting, and
  connecting to a server. What the engine and the machine answer (whether a player could be booted,
  name lookup, the HTTP request, the shuffled order) is the argument \<open>env\<close>. A command returns its
  status, the text of \<open>returnInfo\<close>, and what it changed.
\<close>

subsection \<open>Kicking and banning\<close>

record ServerEnv =
  Active :: "Session option"
  BootPlayer :: "int \<Rightarrow> int \<Rightarrow> bool"
  TempBanDuration :: u32

datatype KickType = Kick | Ban | TempBan

definition hosting :: "Session option \<Rightarrow> bool" where
  "hosting active = (case active of None \<Rightarrow> False | Some s \<Rightarrow> IsEstablished s \<and> IsHost s)"

text \<open>The loops over the peers: those without a player are skipped.\<close>

fun find_by_name :: "Session \<Rightarrow> string \<Rightarrow> nat list \<Rightarrow> int res" where
  "find_by_name session name [] = Inr (- 1)"
| "find_by_name session name (peerIdx # rest) =
     rbind (GetPeerPlayer session (int peerIdx)) (\<lambda>playerIdx.
     if playerIdx = - 1 then find_by_name session name rest
     else rbind (array_at (PlayerSessions session) playerIdx) (\<lambda>player.
       if DisplayName player = name then Inr playerIdx else find_by_name session name rest))"

definition FindPlayerByName :: "Session option \<Rightarrow> string \<Rightarrow> int res" where
  "FindPlayerByName active name =
     (if \<not> hosting active then Inr (- 1)
      else find_by_name (the active) name (connected_peers (the active)))"

fun find_by_uid :: "Session \<Rightarrow> u64 \<Rightarrow> nat list \<Rightarrow> int list res" where
  "find_by_uid session uid [] = Inr []"
| "find_by_uid session uid (peerIdx # rest) =
     rbind (GetPeerPlayer session (int peerIdx)) (\<lambda>playerIdx.
     if playerIdx = - 1 then find_by_uid session uid rest
     else rbind (array_at (PlayerSessions session) playerIdx) (\<lambda>player.
          rbind (find_by_uid session uid rest) (\<lambda>indices.
            Inr (if Uid player = uid then playerIdx # indices else indices))))"

definition FindPlayersByUid :: "Session option \<Rightarrow> u64 \<Rightarrow> int list res" where
  "FindPlayersByUid active uid =
     (if \<not> hosting active then Inr []
      else find_by_uid (the active) uid (connected_peers (the active)))"

definition peer_ip :: "Session \<Rightarrow> int \<Rightarrow> string res" where
  "peer_ip session peer = rbind (GetPeerAddress session peer) (\<lambda>a. Inr (AddressToString a))"

definition nl :: string where "nl = [CHR 0x0A]"

text \<open>Banning after a successful kick: what is added to \<open>returnInfo\<close>, and the new lists.\<close>

definition apply_ban :: "KickType \<Rightarrow> u32 \<Rightarrow> string \<Rightarrow> ServerBans \<Rightarrow> string \<times> ServerBans" where
  "apply_ban type duration ip bans = (case type of
     Ban \<Rightarrow> (''Added IP '' @ ip @ '' to the ban list'' @ nl, BanIp ip bans)
   | TempBan \<Rightarrow> (''Added IP '' @ ip @ '' to the temp ban list'' @ nl, TempBanIP duration ip bans)
   | Kick \<Rightarrow> ([], bans))"

definition kick_text :: "string \<Rightarrow> int \<Rightarrow> string" where
  "kick_text name playerIdx = ''Issued kick request for player '' @ name @ '' ('' @ dec_int playerIdx @ '')''"

type_synonym kick_result = "(bool \<times> string \<times> ServerBans \<times> int list) res"

definition DoKickPlayerCommand :: "KickType \<Rightarrow> ServerEnv \<Rightarrow> string list \<Rightarrow> ServerBans \<Rightarrow> kick_result" where
  "DoKickPlayerCommand type env Arguments bans =
     (if Arguments = [] then Inr (False, ''Invalid arguments'', bans, [])
      else rbind (Join Arguments '' '') (\<lambda>kickPlayerName.
      if \<not> hosting (Active env) then Inr (False, ''You must be hosting a game to use this command'', bans, [])
      else (let session = the (Active env) in
      rbind (FindPlayerByName (Active env) kickPlayerName) (\<lambda>playerIdx.
      if playerIdx < 0 then Inr (False, ''Player \"'' @ kickPlayerName @ ''\" not found.'', bans, [])
      else rbind (peer_ip session (GetPlayerPeer session playerIdx)) (\<lambda>ip.
      if \<not> BootPlayer env playerIdx 4 then Inr (False, ''Failed to kick player '' @ kickPlayerName, bans, [playerIdx])
      else (let (info, bans') = apply_ban type (TempBanDuration env) ip bans in
        Inr (True, info @ kick_text kickPlayerName playerIdx, bans', [playerIdx])))))))"

text \<open>The loop of \<open>DoKickUidCommand\<close>. For a temporary ban the text so far is overwritten, not extended.\<close>

fun kick_uid_loop :: "KickType \<Rightarrow> ServerEnv \<Rightarrow> Session \<Rightarrow> int list \<Rightarrow> bool \<Rightarrow> string \<Rightarrow> ServerBans \<Rightarrow> int list \<Rightarrow> kick_result" where
  "kick_uid_loop type env session [] success info bans boots = Inr (success, info, bans, boots)"
| "kick_uid_loop type env session (playerIdx # rest) success info bans boots =
     rbind (peer_ip session (GetPlayerPeer session playerIdx)) (\<lambda>ip.
     rbind (array_at (PlayerSessions session) playerIdx) (\<lambda>player.
     if \<not> BootPlayer env playerIdx 4 then
       kick_uid_loop type env session rest success (info @ ''Failed to kick player '' @ DisplayName player @ nl) bans
         (boots @ [playerIdx])
     else
       (let (added, bans') = apply_ban type (TempBanDuration env) ip bans;
            info' = (if type = TempBan then added else info @ added) in
        kick_uid_loop type env session rest True (info' @ kick_text (DisplayName player) playerIdx @ nl) bans'
          (boots @ [playerIdx]))))"

definition DoKickUidCommand :: "KickType \<Rightarrow> ServerEnv \<Rightarrow> string list \<Rightarrow> ServerBans \<Rightarrow> kick_result" where
  "DoKickUidCommand type env Arguments bans = (case Arguments of
     [arg] \<Rightarrow> (case ParseUid arg of
        None \<Rightarrow> Inr (False, ''Invalid UID'', bans, [])
      | Some uid \<Rightarrow>
          if \<not> hosting (Active env) then Inr (False, ''You must be hosting a game to use this command'', bans, [])
          else rbind (FindPlayersByUid (Active env) uid) (\<lambda>indices.
            if indices = [] then Inr (False, ''Player with UID '' @ arg @ '' not found.'', bans, [])
            else kick_uid_loop type env (the (Active env)) indices False [] bans []))
   | _ \<Rightarrow> Inr (False, ''Invalid arguments'', bans, []))"

text \<open>An integer argument: the value and the position after it, -1 and 0 when \<open>std::stoi\<close> throws.\<close>

definition int_argument :: "string \<Rightarrow> int \<times> nat" where
  "int_argument arg = (case stoi arg of Inl _ \<Rightarrow> (- 1, 0) | Inr v \<Rightarrow> (v, scan_end 10 arg))"

definition DoKickIndexCommand :: "KickType \<Rightarrow> ServerEnv \<Rightarrow> string list \<Rightarrow> ServerBans \<Rightarrow> kick_result" where
  "DoKickIndexCommand type env Arguments bans = (case Arguments of
     [arg] \<Rightarrow>
       (let (index, pos) = int_argument arg in
        if pos \<noteq> length arg \<or> index < 0 \<or> 15 < index then Inr (False, ''Invalid player index'', bans, [])
        else if \<not> hosting (Active env) then Inr (False, ''You must be hosting a game to use this command'', bans, [])
        else (let session = the (Active env) in
          rbind (array_at (PlayerSessions session) index) (\<lambda>player.
          rbind (peer_ip session (PeerIndex player)) (\<lambda>ip.
          if \<not> BootPlayer env index 4 then Inr (False, ''Failed to kick player '' @ DisplayName player, bans, [index])
          else (let (info, bans') = apply_ban type (TempBanDuration env) ip bans in
            Inr (True, info @ kick_text (DisplayName player) index, bans', [index]))))))
   | _ \<Rightarrow> Inr (False, ''Invalid arguments'', bans, []))"

definition CommandServerBan :: "string list \<Rightarrow> ServerBans \<Rightarrow> bool \<times> string \<times> ServerBans" where
  "CommandServerBan Arguments bans = (case Arguments of
     [banType, ip] \<Rightarrow>
       if banType = ''ip'' then (True, ''Added IP '' @ ip @ '' to the ban list'', BanIp ip bans)
       else (False, ''Unsupported ban type '' @ banType, bans)
   | _ \<Rightarrow> (False, ''Invalid arguments'', bans))"

definition CommandServerUnban :: "string list \<Rightarrow> ServerBans \<Rightarrow> bool \<times> string \<times> ServerBans" where
  "CommandServerUnban Arguments bans = (case Arguments of
     [banType, ip] \<Rightarrow>
       if banType = ''ip'' then
         (let (removed, bans') = UnbanIp ip bans in
          if \<not> removed then (False, ''IP '' @ ip @ '' is not banned'', bans')
          else (True, ''Removed IP '' @ ip @ '' from the ban list'', bans'))
       else (False, ''Unsupported ban type '' @ banType, bans)
   | _ \<Rightarrow> (False, ''Invalid arguments'', bans))"

subsection \<open>Listing players, teams, pings\<close>

fun hex_text :: "nat \<Rightarrow> string" where
  "hex_text n = (if n < 16 then [hex_char n] else hex_text (n div 16) @ [hex_char (n mod 16)])"

declare hex_text.simps [simp del]

fun list_players_loop :: "Session \<Rightarrow> nat list \<Rightarrow> string res" where
  "list_players_loop session [] = Inr []"
| "list_players_loop session (playerIdx # rest) =
     rbind (array_at (PlayerSessions session) (int playerIdx)) (\<lambda>player.
     rbind (if IsHost session then
              rbind (peer_ip session (GetPlayerPeer session (int playerIdx))) (\<lambda>ip. Inr ('', ip: '' @ ip))
            else Inr []) (\<lambda>address.
     rbind (list_players_loop session rest) (\<lambda>more.
       Inr (''['' @ dec playerIdx @ ''] \"'' @ DisplayName player @ ''\" (uid: '' @ hex_text (unat (Uid player))
            @ address @ '')'' @ nl @ more))))"

definition CommandServerListPlayers :: "Session option \<Rightarrow> (bool \<times> string) res" where
  "CommandServerListPlayers active = (case active of
     None \<Rightarrow> Inr (False, ''No session found, are you in a game?'')
   | Some session \<Rightarrow>
       if \<not> IsEstablished session then Inr (False, ''No session found, are you in a game?'')
       else rbind (list_players_loop session (connected_players session)) (\<lambda>text. Inr (True, text)))"

datatype ServerEffect = MembershipUpdated | ChatSent ChatEffect

text \<open>The loop that assigns the teams; \<open>i\<close> is the position in the shuffled array.\<close>

fun assign_teams :: "nat \<Rightarrow> nat \<Rightarrow> nat list \<Rightarrow> PlayerSession list \<Rightarrow> PlayerSession list" where
  "assign_teams numPlayers i [] ps = ps"
| "assign_teams numPlayers i (player # rest) ps =
     assign_teams numPlayers (Suc i) rest
       (ps[player := (ps ! player)\<lparr>ClientTeamIndex := (if i < numPlayers div 2 then 1 else 0)\<rparr>])"

definition CommandServerShuffleTeams :: "(nat list \<Rightarrow> nat list) \<Rightarrow> MessageHandler list \<Rightarrow> Session option
    \<Rightarrow> (bool \<times> string \<times> Session option \<times> ServerEffect list) res" where
  "CommandServerShuffleTeams shuffle handlers active = (case active of
     None \<Rightarrow> Inr (False, ''No session available'', active, [])
   | Some session \<Rightarrow>
       if \<not> IsEstablished session then Inr (False, ''No session available'', active, [])
       else if \<not> HasTeams session then Inr (False, ''Teams are not enabled'', active, [])
       else if MaxPlayers < length (connected_players session) then Inl Undefined
       else
         (let players = shuffle (connected_players session);
              session' = session\<lparr>PlayerSessions := assign_teams (length players) 0 players (PlayerSessions session)\<rparr>;
              (_, es) = SendServerMessageTo handlers (Some session') ''Teams have been shuffled.'' all_peers in
          Inr (True, ''Teams have been shuffled.'', Some session', MembershipUpdated # map ChatSent es)))"

datatype PingEffect = GatewayPinged NetworkAddress | ChannelPinged int

definition CommandServerPing :: "(string \<Rightarrow> u32 option) \<Rightarrow> (NetworkAddress \<Rightarrow> bool) \<Rightarrow> Session option \<Rightarrow> string list
    \<Rightarrow> (bool \<times> string \<times> PingEffect list) res" where
  "CommandServerPing inet_pton gateway_ping active Arguments =
     (if 1 < length Arguments then Inr (False, ''Invalid arguments'', [])
      else case active of
        None \<Rightarrow> Inr (False, ''No session available'', [])
      | Some session \<Rightarrow>
          (case Arguments of
             [arg] \<Rightarrow>
               (case inet_pton (c_str arg) of
                  None \<Rightarrow> Inr (False, ''Invalid IPv4 address'', [])
                | Some w \<Rightarrow>
                    (let address = FromInAddr w 11774 in
                     if \<not> gateway_ping address then Inr (False, ''Failed to send ping packet'', [])
                     else Inr (True, [], [GatewayPinged address])))
           | _ \<Rightarrow>
               if \<not> IsEstablished session then Inr (False, ''You are not in a game. Use \"ping <ip>\" instead.'', [])
               else if IsHost session
               then Inr (False, ''You can't ping yourself. Use \"ping <ip>\" to ping someone else.'', [])
               else rbind (array_at (PeerChannelIndex session) (HostPeerIndex session)) (\<lambda>channelIndex.
                 if channelIndex = - 1
                 then Inr (False, ''You are not connected to a game. Use \"ping <ip>\" instead.'', [])
                 else Inr (True, [], [ChannelPinged channelIndex]))))"

definition PongReceived :: "u16 \<Rightarrow> NetworkAddress \<Rightarrow> u32 \<Rightarrow> u16 \<Rightarrow> u32 \<Rightarrow> string option" where
  "PongReceived PingId from timestamp pongId latency =
     (if pongId \<noteq> PingId then None
      else Some (''PONG '' @ AddressToString from @ '' '' @ to_string32 timestamp @ '' '' @ to_string32 latency @ ''ms''))"

subsection \<open>Votes\<close>

definition VariableServerVotingEnabledUpdate :: "VotingConfig \<Rightarrow> VotingWorld \<Rightarrow> VotingState \<Rightarrow> (bool \<times> string \<times> VotingState) res" where
  "VariableServerVotingEnabledUpdate cfg W vs =
     (if VotingEnabled cfg = 0 then Inr (True, ''Voting System Disabled'', DisableVoting vs)
      else rbind (EnableVoting W vs) (\<lambda>vs'. Inr (True, ''Voting System Enabled'', vs')))"

definition CommandServerSubmitVote :: "Session option \<Rightarrow> string list \<Rightarrow> (bool \<times> string \<times> VotingDelivery list) res" where
  "CommandServerSubmitVote active Arguments = (case Arguments of
     [] \<Rightarrow> Inr (False, ''You must supply a vote.'', [])
   | arg # _ \<Rightarrow>
       (let (vote, pos) = int_argument arg in
        if pos \<noteq> length arg \<or> vote < 1 \<or> 5 < vote then Inr (False, ''Invalid Vote'', [])
        else rbind (SendVoteToHost active vote) (\<lambda>(_, es). Inr (True, [], es))))"

definition CommandServerCancelVote :: "VotingState \<Rightarrow> bool \<times> VotingState" where
  "CommandServerCancelVote vs = (True, CancelVoteInProgress vs)"

subsection \<open>Who is kicked, and stays out\<close>

lemma find_by_name_result:
  assumes "find_by_name session name ps = Inr i" "0 \<le> i"
  shows "nat i < length (PlayerSessions session) \<and> DisplayName (PlayerSessions session ! nat i) = name
    \<and> (\<exists>p \<in> set ps. GetPeerPlayer session (int p) = Inr i)"
  using assms
proof (induction ps)
  case (Cons p ps)
  then show ?case
    by (auto simp: rbind_Inr_iff array_at_def split: if_splits)
qed simp

lemma DoKickPlayerCommand_success:
  assumes "DoKickPlayerCommand type env args bans = Inr (True, info, bans', boots)"
  obtains session playerIdx addr where "Active env = Some session" "hosting (Active env)"
    "boots = [playerIdx]" "0 \<le> playerIdx" "BootPlayer env playerIdx 4"
    "Join args '' '' = Inr (DisplayName (PlayerSessions session ! nat playerIdx))"
    "GetPeerAddress session (GetPlayerPeer session playerIdx) = Inr addr"
    "bans' = snd (apply_ban type (TempBanDuration env) (AddressToString addr) bans)"
proof -
  from assms have host: "hosting (Active env)"
    by (auto simp: DoKickPlayerCommand_def rbind_Inr_iff split: if_splits)
  then obtain session where s: "Active env = Some session" by (auto simp: hosting_def split: option.splits)
  from assms host s obtain name i addr where r: "Join args '' '' = Inr name"
    "find_by_name session name (connected_peers session) = Inr i" "0 \<le> i" "boots = [i]"
    "GetPeerAddress session (GetPlayerPeer session i) = Inr addr" "BootPlayer env i 4"
    "bans' = snd (apply_ban type (TempBanDuration env) (AddressToString addr) bans)"
    by (auto simp: DoKickPlayerCommand_def FindPlayerByName_def peer_ip_def rbind_Inr_iff Let_def case_prod_beta
        split: if_splits)
  from find_by_name_result [OF r(2,3)] r show ?thesis
    by (intro that [OF s host, of i addr]) simp_all
qed


definition demo_env :: ServerEnv where
  "demo_env = \<lparr>Active = Some demo_session, BootPlayer = (\<lambda>_ _. True), TempBanDuration = 2\<rparr>"

lemma demo_player_facts:
  "length (PlayerSessions demo_session) = 16" "length (Peers demo_session) = 17"
  "PlayerSessions demo_session ! 0 = demo_player 0 ''Host''" "PlayerSessions demo_session ! 1 = demo_player 1 ''Guest''"
  "PlayerSessions demo_session ! Suc 0 = demo_player 1 ''Guest''"
  "PeerChannelIndex demo_session ! 1 = 0" "PeerChannelIndex demo_session ! Suc 0 = 0" "length (PeerChannelIndex demo_session) = 17"
  "Channels demo_session = [FromInAddr 0x0200A8C0 11774]"
  by (simp_all add: demo_session_def)

lemma demo_kick:
  "DoKickPlayerCommand Ban demo_env [''Guest''] \<lparr>banFile = None, tempBans = []\<rparr>
     = Inr (True, ''Added IP '' @ AddressToString (FromInAddr 0x0200A8C0 11774) @ '' to the ban list'' @ nl @ kick_text ''Guest'' 1,
         BanIp (AddressToString (FromInAddr 0x0200A8C0 11774)) \<lparr>banFile = None, tempBans = []\<rparr>, [1])"
  by (simp add: DoKickPlayerCommand_def demo_env_def hosting_def Join_def FindPlayerByName_def GetPeerPlayer_def
      array_at_def demo_player_facts demo_player_def peer_ip_def GetPeerAddress_def GetPlayerPeer_def apply_ban_def)


text \<open>A temporary ban by UID reports on the last matching player only: what was said about the earlier
  ones is overwritten.\<close>

lemma uid_tempban_loses_report:
  assumes "peer_ip session (GetPlayerPeer session i) = Inr ip" "array_at (PlayerSessions session) i = Inr player"
    and "BootPlayer env i 4"
  shows "kick_uid_loop TempBan env session [i] success info bans boots
    = kick_uid_loop TempBan env session [i] success [] bans boots"
  using assms by simp

text \<open>Kicking by index does not ask whether the slot is in use: for a slot without a peer the address
  lookup indexes the channels with -1.\<close>

lemma kick_index_of_free_slot:
  assumes "hosting (Some session)" "Active env = Some session" "int_argument arg = (i, length arg)"
    and "0 \<le> i" "i \<le> 15" "nat i < length (PlayerSessions session)"
    and "PeerIndex (PlayerSessions session ! nat i) = - 1" "LocalPeerIndex session \<noteq> - 1"
  shows "DoKickIndexCommand type env [arg] bans = Inl Undefined"
  using assms by (simp add: DoKickIndexCommand_def array_at_def peer_ip_def GetPeerAddress_def)

subsection \<open>Shuffled teams\<close>

lemma assign_teams_length [simp]: "length (assign_teams n i ps xs) = length xs"
  by (induction n i ps xs rule: assign_teams.induct) simp_all

lemma assign_teams_nth:
  assumes "distinct ps" "\<forall>p \<in> set ps. p < length xs" "k < length xs"
  shows "assign_teams n i ps xs ! k = (case find_index (\<lambda>p. p = k) ps of
     None \<Rightarrow> xs ! k | Some j \<Rightarrow> (xs ! k)\<lparr>ClientTeamIndex := (if i + j < n div 2 then 1 else 0)\<rparr>)"
  using assms
proof (induction n i ps xs rule: assign_teams.induct)
  case (2 n i p ps xs)
  let ?xs = "xs[p := (xs ! p)\<lparr>ClientTeamIndex := (if i < n div 2 then 1 else 0)\<rparr>]"
  have ih: "assign_teams n (Suc i) ps ?xs ! k = (case find_index (\<lambda>p. p = k) ps of
     None \<Rightarrow> ?xs ! k | Some j \<Rightarrow> (?xs ! k)\<lparr>ClientTeamIndex := (if Suc i + j < n div 2 then 1 else 0)\<rparr>)"
    using 2 by simp
  show ?case
  proof (cases "p = k")
    case True
    then have "find_index (\<lambda>q. q = k) ps = None" using 2(2) by (auto simp: find_index_None_iff)
    with True ih 2(4) show ?thesis by simp
  next
    case False
    with ih show ?thesis by (cases "find_index (\<lambda>q. q = k) ps") simp_all
  qed
qed simp

lemma count_before: "m \<le> length ps \<Longrightarrow> distinct ps \<Longrightarrow>
    length (filter (\<lambda>p. \<exists>j < m. find_index (\<lambda>q. q = p) ps = Some j) ps) = m"
proof -
  assume m: "m \<le> length ps" "distinct ps"
  have at: "find_index (\<lambda>q. q = ps ! j) ps = Some j" if "j < length ps" for j
    using find_index_nth [OF m(2) that] .
  have "filter (\<lambda>p. \<exists>j < m. find_index (\<lambda>q. q = p) ps = Some j) ps
      = filter (\<lambda>p. \<exists>j < m. find_index (\<lambda>q. q = p) ps = Some j) (take m ps @ drop m ps)" by simp
  also have "\<dots> = take m ps"
  proof -
    have "\<forall>p \<in> set (take m ps). \<exists>j < m. find_index (\<lambda>q. q = p) ps = Some j"
      using m at by (fastforce simp: in_set_conv_nth)
    moreover have "\<forall>p \<in> set (drop m ps). \<not> (\<exists>j < m. find_index (\<lambda>q. q = p) ps = Some j)"
      using m at by (fastforce simp: in_set_conv_nth)
    ultimately show ?thesis unfolding filter_append by (simp add: filter_id_conv filter_empty_conv)
  qed
  finally show ?thesis using m by simp
qed

text \<open>Shuffling splits the players in the session into two teams whose sizes differ by at most one,
  for every order the shuffle produces, and changes nothing but their teams; players that are not in
  the session keep theirs.\<close>

theorem shuffle_balances_teams:
  assumes "session_ok session" "distinct (shuffle (connected_players session))"
    and "set (shuffle (connected_players session)) = set (connected_players session)"
    and "CommandServerShuffleTeams shuffle handlers (Some session) = Inr (True, info, Some session', es)"
  shows "length (filter (\<lambda>p. ClientTeamIndex (PlayerSessions session' ! p) = 1) (shuffle (connected_players session)))
      = length (connected_players session) div 2
    \<and> (\<forall>p < MaxPlayers. PlayerSessions session' ! p = (PlayerSessions session ! p)\<lparr>ClientTeamIndex :=
        (if p \<in> set (connected_players session) then ClientTeamIndex (PlayerSessions session' ! p)
         else ClientTeamIndex (PlayerSessions session ! p))\<rparr>)
    \<and> (\<forall>p \<in> set (connected_players session). ClientTeamIndex (PlayerSessions session' ! p) \<in> {0, 1})"
proof -
  let ?ps = "shuffle (connected_players session)"
  let ?n = "length ?ps"
  from assms(4) have s': "session' = session\<lparr>PlayerSessions := assign_teams ?n 0 ?ps (PlayerSessions session)\<rparr>"
    by (auto simp: CommandServerShuffleTeams_def Let_def split: if_splits prod.splits)
  have len: "length (PlayerSessions session) = 16" and lt: "\<forall>p \<in> set ?ps. p < 16"
    and d: "distinct (connected_players session)"
    using assms(1,3) by (auto simp: session_ok_def)
  have n: "?n = length (connected_players session)"
    using assms(2,3) d by (metis distinct_card)
  have at: "PlayerSessions session' ! p = (case find_index (\<lambda>q. q = p) ?ps of
     None \<Rightarrow> PlayerSessions session ! p
   | Some j \<Rightarrow> (PlayerSessions session ! p)\<lparr>ClientTeamIndex := (if j < ?n div 2 then 1 else 0)\<rparr>)" if "p < 16" for p
    using assign_teams_nth [OF assms(2), of "PlayerSessions session" p ?n 0] lt len that by (simp add: s' split: option.split)
  have none: "find_index (\<lambda>q. q = p) ?ps = None \<longleftrightarrow> p \<notin> set (connected_players session)" for p
    using assms(3) by (auto simp: find_index_None_iff)
  have team1: "ClientTeamIndex (PlayerSessions session' ! p) = 1 \<longleftrightarrow> (\<exists>j < ?n div 2. find_index (\<lambda>q. q = p) ?ps = Some j)"
    if "p \<in> set ?ps" for p
    using that lt at [of p] none [of p] assms(3) by (cases "find_index (\<lambda>q. q = p) ?ps") auto
  have "filter (\<lambda>p. ClientTeamIndex (PlayerSessions session' ! p) = 1) ?ps
      = filter (\<lambda>p. \<exists>j < ?n div 2. find_index (\<lambda>q. q = p) ?ps = Some j) ?ps"
    using team1 by (intro filter_cong) auto
  moreover have "length (filter (\<lambda>p. \<exists>j < ?n div 2. find_index (\<lambda>q. q = p) ?ps = Some j) ?ps) = ?n div 2"
    using assms(2) by (intro count_before) auto
  ultimately have "length (filter (\<lambda>p. ClientTeamIndex (PlayerSessions session' ! p) = 1) ?ps)
      = length (connected_players session) div 2" by (simp add: n)
  moreover have "PlayerSessions session' ! p = (PlayerSessions session ! p)\<lparr>ClientTeamIndex :=
        (if p \<in> set (connected_players session) then ClientTeamIndex (PlayerSessions session' ! p)
         else ClientTeamIndex (PlayerSessions session ! p))\<rparr>" if "p < MaxPlayers" for p
    using at [of p] none [of p] that by (cases "find_index (\<lambda>q. q = p) ?ps") auto
  moreover have "ClientTeamIndex (PlayerSessions session' ! p) \<in> {0, 1}" if "p \<in> set (connected_players session)" for p
    using at [of p] none [of p] lt that assms(3) by (cases "find_index (\<lambda>q. q = p) ?ps") auto
  ultimately show ?thesis by blast
qed

theorem shuffle_balances_teams_witness:
  "\<exists>session' es. CommandServerShuffleTeams rev [] (Some demo_session) = Inr (True, ''Teams have been shuffled.'', Some session', es)
     \<and> length (filter (\<lambda>p. ClientTeamIndex (PlayerSessions session' ! p) = 1) [1, 0]) = 1"
proof -
  obtain session' es where r: "CommandServerShuffleTeams rev [] (Some demo_session)
      = Inr (True, ''Teams have been shuffled.'', Some session', es)"
    by (simp add: CommandServerShuffleTeams_def Let_def case_prod_beta)
  have p: "connected_players demo_session = [0, 1]" by simp
  have "distinct (rev (connected_players demo_session))"
    "set (rev (connected_players demo_session)) = set (connected_players demo_session)" by auto
  from shuffle_balances_teams [OF demo_session_ok this r]
  have "length (filter (\<lambda>p. ClientTeamIndex (PlayerSessions session' ! p) = 1) (rev [0, 1])) = length [0::nat, 1] div 2"
    unfolding p by blast
  then have "length (filter (\<lambda>p. ClientTeamIndex (PlayerSessions session' ! p) = 1) [1, 0]) = 1" by simp
  with r show ?thesis by blast
qed

end
