(* ===== verification/PlayerNames.thy ===== *)
theory PlayerNames
  imports Session
begin

text \<open>
  \<open>Patches/Network.cpp\<close>: what the host does with the name a player asks for. The name arrives as 16
  wide characters at the start of the player properties; the host rewrites them in place.
\<close>

type_synonym wchar = u16

text \<open>The ASCII characters that cannot appear in names.\<close>

definition DisallowedNameChars :: "wchar list" where
  "DisallowedNameChars = [0x27, 0x22, 0x3C, 0x3E, 0x2F, 0x5C]"

definition name_char :: "wchar \<Rightarrow> bool" where
  "name_char w \<longleftrightarrow> 32 < w \<and> w < 127 \<and> w \<notin> set DisallowedNameChars"

text \<open>The loop reads cell \<open>i\<close> and writes cell \<open>dest\<close> of the same array.\<close>

function sanitize_loop :: "wchar list \<Rightarrow> nat \<Rightarrow> nat \<Rightarrow> bool \<Rightarrow> wchar list \<times> nat" where
  "sanitize_loop nm i dest space =
     (if i < 15 \<and> dest < 15 \<and> nm ! i \<noteq> 0 then
        (if name_char (nm ! i) then
           (if space \<and> dest < 14
            then (let nm1 = nm[dest := 32] in
                  sanitize_loop (nm1[dest + 1 := nm1 ! i]) (i + 1) (dest + 2) False)
            else sanitize_loop (nm[dest := nm ! i]) (i + 1) (dest + 1) space)
         else if nm ! i = 32 \<and> 0 < dest then sanitize_loop nm (i + 1) dest True
         else sanitize_loop nm (i + 1) dest space)
      else (nm, dest))"
  by auto
termination by (relation "measure (\<lambda>(nm, i, dest, space). 15 - i)") auto

declare sanitize_loop.simps [simp del]

definition wide_Forgot :: "wchar list" where
  "wide_Forgot = [0x46, 0x6F, 0x72, 0x67, 0x6F, 0x74]"

definition SanitizePlayerName :: "wchar list \<Rightarrow> wchar list" where
  "SanitizePlayerName nm =
     (let (nm1, dest) = sanitize_loop nm 0 0 False;
          nm2 = take dest nm1 @ replicate (16 - dest) 0
      in if dest = 0 then wide_Forgot @ drop 6 nm2 else nm2)"

subsection \<open>What the loop computes\<close>

text \<open>The text of an array of wide characters.\<close>

definition wide_str :: "wchar list \<Rightarrow> wchar list" where
  "wide_str nm = takeWhile (\<lambda>w. w \<noteq> 0) nm"

text \<open>The same computation on the text alone.\<close>

fun tidy :: "bool \<Rightarrow> bool \<Rightarrow> wchar list \<Rightarrow> wchar list" where
  "tidy started space [] = []"
| "tidy started space (w # ws) =
     (if name_char w then (if space then [32] else []) @ w # tidy True False ws
      else if w = 32 \<and> started then tidy started True ws
      else tidy started space ws)"

text \<open>The reference: the words of the text, joined by single spaces, once all other characters are
  dropped.\<close>

function word_list :: "wchar list \<Rightarrow> wchar list list" where
  "word_list ws = (case dropWhile (\<lambda>w. w = 32) ws of
     [] \<Rightarrow> []
   | v # vs \<Rightarrow> (v # takeWhile (\<lambda>w. w \<noteq> 32) vs) # word_list (dropWhile (\<lambda>w. w \<noteq> 32) vs))"
  by pat_completeness auto
termination
proof (relation "measure length")
  fix ws v vs assume e: "dropWhile (\<lambda>w. w = (32::wchar)) ws = v # vs"
  have "length (dropWhile (\<lambda>w. w \<noteq> 32) vs) \<le> length vs" by (rule length_dropWhile_le)
  also have "\<dots> < length (dropWhile (\<lambda>w. w = (32::wchar)) ws)" using e by simp
  also have "\<dots> \<le> length ws" by (rule length_dropWhile_le)
  finally show "(dropWhile (\<lambda>w. w \<noteq> 32) vs, ws) \<in> measure length" by simp
qed simp

declare word_list.simps [simp del]

fun unwords :: "wchar list list \<Rightarrow> wchar list" where
  "unwords [] = []"
| "unwords [w] = w"
| "unwords (w # ws) = w @ 32 # unwords ws"

definition clean_name :: "wchar list \<Rightarrow> wchar list" where
  "clean_name ws = unwords (word_list (filter (\<lambda>w. name_char w \<or> w = 32) ws))"

lemma not_name_char_32 [simp]: "\<not> name_char 32"
  by (simp add: name_char_def)

lemma name_char_nonzero: "name_char w \<Longrightarrow> w \<noteq> 0"
  by (auto simp: name_char_def)

lemma take_Suc_list_update:
  "n < length xs \<Longrightarrow> take (Suc n) (xs[n := x]) = take n xs @ [x]"
  by (simp add: take_Suc_conv_app_nth)

text \<open>One round of the loop, by the kind of character it reads.\<close>

lemma sanitize_stop:
  "\<not> (i < 15 \<and> dest < 15 \<and> nm ! i \<noteq> 0) \<Longrightarrow> sanitize_loop nm i dest space = (nm, dest)"
  by (subst sanitize_loop.simps) (simp only: if_False)

lemma sanitize_space_char:
  "i < 15 \<Longrightarrow> dest < 14 \<Longrightarrow> name_char (nm ! i) \<Longrightarrow> dest < i \<Longrightarrow>
     sanitize_loop nm i dest True = sanitize_loop (nm[dest := 32, Suc dest := nm ! i]) (Suc i) (dest + 2) False"
  by (subst sanitize_loop.simps) (simp add: name_char_nonzero)

lemma sanitize_char:
  "i < 15 \<Longrightarrow> dest < 15 \<Longrightarrow> name_char (nm ! i) \<Longrightarrow>
     sanitize_loop nm i dest False = sanitize_loop (nm[dest := nm ! i]) (Suc i) (Suc dest) False"
  by (subst sanitize_loop.simps) (simp add: name_char_nonzero)

lemma sanitize_gap:
  "i < 15 \<Longrightarrow> dest < 15 \<Longrightarrow> nm ! i = 32 \<Longrightarrow> 0 < dest \<Longrightarrow>
     sanitize_loop nm i dest space = sanitize_loop nm (Suc i) dest True"
  by (subst sanitize_loop.simps) simp

lemma sanitize_other:
  "i < 15 \<Longrightarrow> dest < 15 \<Longrightarrow> nm ! i \<noteq> 0 \<Longrightarrow> \<not> name_char (nm ! i) \<Longrightarrow> \<not> (nm ! i = 32 \<and> 0 < dest) \<Longrightarrow>
     sanitize_loop nm i dest space = sanitize_loop nm (Suc i) dest space"
  by (subst sanitize_loop.simps) (simp only: if_True if_False refl simp_thms Suc_eq_plus1)

text \<open>The read position is never behind the write position, and ahead of it while a space is pending,
  so no cell is overwritten before it is read.\<close>

lemma sanitize_loop_tidy:
  assumes "length nm = 16" "i \<le> 15" "dest \<le> i" "space \<Longrightarrow> dest < i" "space \<Longrightarrow> 0 < dest"
    and "sanitize_loop nm i dest space = (nm', dest')"
  shows "length nm' = 16 \<and> dest' \<le> 15
    \<and> take dest' nm' = take dest nm @ tidy (0 < dest) space (wide_str (take (15 - i) (drop i nm)))"
  using assms
proof (induction "15 - i" arbitrary: nm i dest space)
  case 0
  then show ?case by (simp add: sanitize_stop wide_str_def)
next
  case (Suc k)
  then have i: "i < 15" and k: "k = 15 - Suc i" by auto
  show ?case
  proof (cases "nm ! i = 0")
    case True
    then have "wide_str (take (15 - i) (drop i nm)) = []"
      using i Suc.prems(1) by (simp add: wide_str_def Cons_nth_drop_Suc [symmetric] take_Cons')
    then show ?thesis using True Suc.prems by (simp add: sanitize_stop)
  next
    case False
    have step: "wide_str (take (15 - i) (drop i nm))
        = nm ! i # wide_str (take (15 - Suc i) (drop (Suc i) nm))"
      using i False Suc.prems(1) by (simp add: wide_str_def Cons_nth_drop_Suc [symmetric] take_Cons')
    have d: "dest < 15" using i Suc.prems(3) by simp
    consider (space) "name_char (nm ! i)" "space" | (char) "name_char (nm ! i)" "\<not> space"
      | (gap) "\<not> name_char (nm ! i)" "nm ! i = 32" "0 < dest"
      | (other) "\<not> name_char (nm ! i)" "\<not> (nm ! i = 32 \<and> 0 < dest)" by blast
    then show ?thesis
    proof cases
      case space
      let ?nm1 = "nm[dest := 32, Suc dest := nm ! i]"
      have di: "dest < i" "0 < dest" "dest < 14" using Suc.prems(4,5) space(2) i by auto
      have "sanitize_loop ?nm1 (Suc i) (dest + 2) False = (nm', dest')"
        using Suc.prems(6) i space di by (simp add: sanitize_space_char)
      from Suc.hyps(1) [OF k _ _ _ _ _ this] di i Suc.prems(1)
      have "length nm' = 16 \<and> dest' \<le> 15 \<and> take dest' nm' = take (dest + 2) ?nm1
          @ tidy True False (wide_str (take (15 - Suc i) (drop (Suc i) ?nm1)))" by simp
      moreover have "take (dest + 2) ?nm1 = take dest nm @ [32, nm ! i]"
        using di i Suc.prems(1) by (simp add: take_Suc_conv_app_nth)
      ultimately show ?thesis using space di by (simp add: step)
    next
      case char
      let ?nm1 = "nm[dest := nm ! i]"
      have "sanitize_loop ?nm1 (Suc i) (Suc dest) False = (nm', dest')"
        using Suc.prems(6) i d char by (simp add: sanitize_char)
      from Suc.hyps(1) [OF k _ _ _ _ _ this] i Suc.prems(1,3)
      have "length nm' = 16 \<and> dest' \<le> 15 \<and> take dest' nm' = take (Suc dest) ?nm1
          @ tidy True False (wide_str (take (15 - Suc i) (drop (Suc i) ?nm1)))" by simp
      moreover have "take (Suc dest) ?nm1 = take dest nm @ [nm ! i]"
        using d Suc.prems(1) by (simp add: take_Suc_list_update)
      ultimately show ?thesis using char Suc.prems(3) by (simp add: step)
    next
      case gap
      have "sanitize_loop nm (Suc i) dest True = (nm', dest')"
        using Suc.prems(6) i d gap by (simp add: sanitize_gap)
      from Suc.hyps(1) [OF k _ _ _ _ _ this] i gap Suc.prems(1,3)
      show ?thesis by (simp add: step)
    next
      case other
      have "sanitize_loop nm (Suc i) dest space = (nm', dest')"
        using Suc.prems(6) i d False other by (simp add: sanitize_other)
      from Suc.hyps(1) [OF k _ _ _ _ _ this] i other Suc.prems(1,3-5)
      show ?thesis by (auto simp: step)
    qed
  qed
qed

lemma word_list_simps [simp]:
  "word_list [] = []"
  "word_list (32 # ws) = word_list ws"
  "w \<noteq> 32 \<Longrightarrow> word_list (w # ws) = (w # takeWhile (\<lambda>w. w \<noteq> 32) ws) # word_list (dropWhile (\<lambda>w. w \<noteq> 32) ws)"
  by (subst word_list.simps, simp add: word_list.simps [of ws])+

lemma unwords_Cons: "unwords (w # ws) = w @ (if ws = [] then [] else 32 # unwords ws)"
  by (cases ws) simp_all

lemma tidy_words:
  defines "ok \<equiv> filter (\<lambda>w. name_char w \<or> w = 32)"
  shows "tidy False False ws = unwords (word_list (ok ws))"
    and "tidy True False ws = takeWhile (\<lambda>w. w \<noteq> 32) (ok ws)
      @ (let r = word_list (dropWhile (\<lambda>w. w \<noteq> 32) (ok ws)) in if r = [] then [] else 32 # unwords r)"
    and "tidy True True ws = (let r = word_list (ok ws) in if r = [] then [] else 32 # unwords r)"
proof (induction ws)
  case (Cons w ws)
  have nc: "name_char w \<Longrightarrow> w \<noteq> 32" by auto
  { case 1 show ?case using Cons nc by (auto simp: ok_def unwords_Cons Let_def) }
  { case 2 show ?case using Cons nc by (auto simp: ok_def unwords_Cons Let_def) }
  { case 3 show ?case using Cons nc by (auto simp: ok_def unwords_Cons Let_def) }
qed (simp_all add: ok_def)

text \<open>A well-spaced text: every space is followed by an allowed character, and there are no other
  characters than these.\<close>

fun well_spaced :: "wchar list \<Rightarrow> bool" where
  "well_spaced [] = True"
| "well_spaced (w # ws) =
     ((if w = 32 then ws \<noteq> [] \<and> name_char (hd ws) else name_char w) \<and> well_spaced ws)"

lemma tidy_well_spaced:
  "well_spaced (tidy started space ws)"
  by (induction started space ws rule: tidy.induct) auto

lemma tidy_hd:
  "tidy False False ws \<noteq> [] \<Longrightarrow> name_char (hd (tidy False False ws))"
  by (induction ws) auto

lemma well_spaced_no_zero: "well_spaced ws \<Longrightarrow> 0 \<notin> set ws"
  by (induction ws) (auto dest: name_char_nonzero split: if_splits)

text \<open>The names the host lets through: 1 to 15 characters, each an allowed character or a single
  space between two of them, zeros after them.\<close>

definition proper_name :: "wchar list \<Rightarrow> bool" where
  "proper_name nm \<longleftrightarrow> length nm = 16 \<and> wide_str nm \<noteq> [] \<and> length (wide_str nm) \<le> 15
     \<and> well_spaced (wide_str nm) \<and> name_char (hd (wide_str nm))
     \<and> nm = wide_str nm @ replicate (16 - length (wide_str nm)) 0"

lemma wide_str_padded:
  "0 \<notin> set ws \<Longrightarrow> wide_str (ws @ replicate n 0) = ws"
  by (cases n) (auto simp: wide_str_def takeWhile_append)

lemma SanitizePlayerName_text:
  assumes "length nm = 16"
  defines "t \<equiv> clean_name (wide_str (take 15 nm))"
  shows "SanitizePlayerName nm = (let u = if t = [] then wide_Forgot else t in u @ replicate (16 - length u) 0)"
    and "length t \<le> 15"
proof -
  obtain nm1 dest where l: "sanitize_loop nm 0 0 False = (nm1, dest)" by fastforce
  from sanitize_loop_tidy [OF assms(1) _ _ _ _ l]
  have r: "length nm1 = 16" "dest \<le> 15" "take dest nm1 = t"
    by (simp_all add: t_def clean_name_def tidy_words)
  have "length (take dest nm1) = dest" using r(1,2) by simp
  then have "length t = dest" using r(3) by simp
  then show "length t \<le> 15" using r by simp
  show "SanitizePlayerName nm = (let u = if t = [] then wide_Forgot else t in u @ replicate (16 - length u) 0)"
    using r \<open>length t = dest\<close> by (auto simp: SanitizePlayerName_def l Let_def wide_Forgot_def)
qed

lemma clean_name_tidy: "clean_name ws = tidy False False ws"
  by (simp add: clean_name_def tidy_words)

lemma Forgot_facts: "well_spaced wide_Forgot" "name_char (hd wide_Forgot)" "length wide_Forgot = 6"
  by (simp_all add: wide_Forgot_def name_char_def DisallowedNameChars_def)

lemma sanitized_proper: "length nm = 16 \<Longrightarrow> proper_name (SanitizePlayerName nm)"
proof -
  assume l: "length nm = 16"
  define t where "t = clean_name (wide_str (take 15 nm))"
  define u where "u = (if t = [] then wide_Forgot else t)"
  have ws: "well_spaced u" "name_char (hd u)" "u \<noteq> []"
    using Forgot_facts tidy_hd [of "wide_str (take 15 nm)"]
    by (auto simp: u_def t_def clean_name_tidy tidy_well_spaced)
  have "length u \<le> 15" using SanitizePlayerName_text(2) [OF l] Forgot_facts(3) by (simp add: u_def t_def)
  moreover have "SanitizePlayerName nm = u @ replicate (16 - length u) 0"
    using SanitizePlayerName_text(1) [OF l] by (simp add: u_def t_def Let_def)
  ultimately show ?thesis
    using ws by (simp add: proper_name_def wide_str_padded well_spaced_no_zero)
qed

text \<open>The name a player gets is the text it asked for, cut at 15 characters, with every character
  but the allowed ones and spaces dropped, and its words joined by single spaces; a player of whom
  nothing is left is called Forgot. So every name has 1 to 15 characters, begins and ends with an
  allowed character, and holds no quote, slash or angle bracket.\<close>

theorem sanitized_name:
  assumes "length nm = 16"
  shows "wide_str (SanitizePlayerName nm)
      = (let t = clean_name (wide_str (take 15 nm)) in if t = [] then wide_Forgot else t)
    \<and> proper_name (SanitizePlayerName nm)"
proof -
  define t where "t = clean_name (wide_str (take 15 nm))"
  have "0 \<notin> set (if t = [] then wide_Forgot else t)"
    using Forgot_facts(1) by (simp add: t_def clean_name_tidy tidy_well_spaced well_spaced_no_zero)
  then have "wide_str (SanitizePlayerName nm) = (if t = [] then wide_Forgot else t)"
    unfolding SanitizePlayerName_text(1) [OF assms] t_def [symmetric] Let_def by (rule wide_str_padded)
  then show ?thesis using sanitized_proper [OF assms] by (simp add: t_def Let_def)
qed

definition wide :: "string \<Rightarrow> wchar list" where
  "wide s = map (\<lambda>c. of_nat (of_char c)) s @ replicate (16 - length s) 0"

theorem sanitized_name_witness:
  "wide_str (SanitizePlayerName (wide ''  <b>The'' )) = [0x62, 0x54, 0x68, 0x65]
   \<and> proper_name (SanitizePlayerName (wide ''  <b>The''))"
proof -
  have l: "length (wide ''  <b>The'') = 16" by (simp add: wide_def)
  have "clean_name (wide_str (take 15 (wide ''  <b>The''))) = [0x62, 0x54, 0x68, 0x65]"
    by code_simp
  then show ?thesis using sanitized_name [OF l] by simp
qed

text \<open>The narrow text of a name, as \<open>Utils::String::ThinString\<close> converts it: the characters of a proper
  name are ASCII.\<close>

definition thin :: "wchar list \<Rightarrow> string" where
  "thin nm = map (\<lambda>w. char_of (unat w)) (wide_str nm)"

lemma name_char_ord:
  "name_char w \<Longrightarrow> 32 < unat w \<and> unat w < 127 \<and> unat w \<notin> {0x22, 0x27, 0x2F, 0x3C, 0x3E, 0x5C}"
  by (simp add: name_char_def DisallowedNameChars_def word_less_nat_alt word_unat_eq_iff)

end
