(* ===== verification/ChatCommands.thy ===== *)
theory ChatCommands
  imports ServerCommands CommandMap PlayerNames
begin

text \<open>
  \<open>ChatCommands/ChatCommand.hpp\<close>, \<open>ChatCommand.cpp\<close> and \<open>ChatCommandMap.cpp\<close>: the commands players type
  into the chat. Each command but the help and the list starts a vote of the players; a vote that
  passes runs a console command. The messages of the server and the console commands it runs are
  effects, in order; the clock (\<open>now\<close>, in seconds) is an argument.
\<close>

subsection \<open>Data\<close>

datatype ChatCommandKind = KickPlayerCommand | KickIndexCommand | EndGameCommand | ShuffleTeamsCommand

record ChatCommand =
  kind :: ChatCommandKind
  currentlyVoting :: bool
  voteTimeStarted :: int
  votesNeeded :: u32
  yesVoters :: "u64 list"
  playerName :: string

record CommandConfig =
  KickPlayerEnabled :: u32
  EndGameEnabled :: u32
  ShuffleTeamsEnabled :: u32
  ChatCommandVoteTime :: u32
  VotePassPercentage :: u32
  IsDedicated :: bool

record ChatCommandState =
  ChatCommandList :: "ChatCommand list"
  chatCommandsActive :: bool
  helpText :: "string list"
  voteTimes :: "u64 \<rightharpoonup> int"

datatype CommandEffect =
    ChatSent ChatEffect
  | Executed string
  | BanDurationsDecremented

definition idle_command :: "ChatCommandKind \<Rightarrow> ChatCommand" where
  "idle_command k = \<lparr>kind = k, currentlyVoting = False, voteTimeStarted = 0, votesNeeded = 0,
     yesVoters = [], playerName = []\<rparr>"

definition getName :: "ChatCommandKind \<Rightarrow> string" where
  "getName k = (case k of
     KickPlayerCommand \<Rightarrow> ''kick'' | KickIndexCommand \<Rightarrow> ''kickIndex''
   | EndGameCommand \<Rightarrow> ''endGame'' | ShuffleTeamsCommand \<Rightarrow> ''shuffleTeams'')"

definition getDescription :: "ChatCommandKind \<Rightarrow> string" where
  "getDescription k = (case k of
     KickPlayerCommand \<Rightarrow> ''Starts a vote to kick a player.''
   | KickIndexCommand \<Rightarrow> ''Starts a vote to kick a player by index.''
   | EndGameCommand \<Rightarrow> ''Starts a vote to end the current game. Type !yes to vote.''
   | ShuffleTeamsCommand \<Rightarrow> ''Starts a vote to shuffle the teams. Type !yes to vote.'')"

subsection \<open>Messages to the players\<close>

definition say :: "MessageHandler list \<Rightarrow> Session \<Rightarrow> string \<Rightarrow> CommandEffect list" where
  "say handlers session body = map ChatSent (snd (SendServerMessage handlers (Some session) body))"

definition say_to :: "MessageHandler list \<Rightarrow> Session \<Rightarrow> int \<Rightarrow> string \<Rightarrow> CommandEffect list res" where
  "say_to handlers session peer body =
     rbind (SendServerMessageToPeer handlers (Some session) body peer) (\<lambda>(_, es). Inr (map ChatSent es))"

primrec say_all :: "MessageHandler list \<Rightarrow> Session \<Rightarrow> int \<Rightarrow> string list \<Rightarrow> CommandEffect list res" where
  "say_all handlers session peer [] = Inr []"
| "say_all handlers session peer (body # rest) =
     rbind (say_to handlers session peer body) (\<lambda>es.
     rbind (say_all handlers session peer rest) (\<lambda>es'. Inr (es @ es')))"

subsection \<open>What the commands do\<close>

definition isEnabled :: "CommandConfig \<Rightarrow> ChatCommandKind \<Rightarrow> bool" where
  "isEnabled cfg k = (case k of
     KickPlayerCommand \<Rightarrow> KickPlayerEnabled cfg = 1 | KickIndexCommand \<Rightarrow> KickPlayerEnabled cfg = 1
   | EndGameCommand \<Rightarrow> EndGameEnabled cfg = 1 | ShuffleTeamsCommand \<Rightarrow> ShuffleTeamsEnabled cfg = 1)"

definition kick_passed :: "MessageHandler list \<Rightarrow> Session \<Rightarrow> ChatCommand \<Rightarrow> CommandEffect list" where
  "kick_passed handlers session cmd =
     say handlers session (''Vote Has Passed. '' @ playerName cmd @ '' has been kicked and temporarily banned.'')
     @ [Executed (''server.KickTempBanPlayer '' @ playerName cmd)]"

definition doOnVotePass :: "MessageHandler list \<Rightarrow> Session \<Rightarrow> ChatCommand \<Rightarrow> ChatCommand \<times> CommandEffect list" where
  "doOnVotePass handlers session cmd = (case kind cmd of
     ShuffleTeamsCommand \<Rightarrow> (cmd, say handlers session ''Vote Has Passed.'' @ [Executed ''server.shuffleteams''])
   | EndGameCommand \<Rightarrow> (cmd, say handlers session ''Vote Has Passed'' @ [Executed ''game.stop''])
   | KickIndexCommand \<Rightarrow> (cmd\<lparr>playerName := []\<rparr>, kick_passed handlers session cmd)
   | KickPlayerCommand \<Rightarrow> (cmd\<lparr>playerName := []\<rparr>, kick_passed handlers session cmd))"

definition doOnVoteFail :: "MessageHandler list \<Rightarrow> Session \<Rightarrow> ChatCommand \<Rightarrow> ChatCommand \<times> CommandEffect list" where
  "doOnVoteFail handlers session cmd =
     (if kind cmd = KickIndexCommand \<or> kind cmd = KickPlayerCommand then cmd\<lparr>playerName := []\<rparr> else cmd,
      say handlers session ''Vote Has Not Passed.'')"

definition vote_start_text :: "ChatCommand \<Rightarrow> string" where
  "vote_start_text cmd = (case kind cmd of
     ShuffleTeamsCommand \<Rightarrow> ''Vote started to shuffle the teams. '' @ to_string32 (votesNeeded cmd)
       @ '' votes needed to pass. Type !yes to vote''
   | EndGameCommand \<Rightarrow> ''Vote started to end the game. '' @ to_string32 (votesNeeded cmd)
       @ '' votes needed to pass. Type !yes to vote''
   | _ \<Rightarrow> ''Kick vote started for: \"'' @ playerName cmd @ ''\"; Type !Yes to vote. ''
       @ to_string32 (votesNeeded cmd) @ '' votes needed to kick.'')"

definition doOnVoteStart :: "MessageHandler list \<Rightarrow> Session \<Rightarrow> ChatCommand \<Rightarrow> CommandEffect list" where
  "doOnVoteStart handlers session cmd = say handlers session (vote_start_text cmd)"

text \<open>The arguments of the kick commands: why they are refused, or the name of the player to kick.
  Only \<open>std::invalid_argument\<close> is caught around \<open>std::stoi\<close>.\<close>

definition index_argument :: "string \<Rightarrow> int res" where
  "index_argument s = (case stoi s of Inl InvalidArgument \<Rightarrow> Inr (- 1) | r \<Rightarrow> r)"

definition kick_index_argument :: "CommandConfig \<Rightarrow> Session \<Rightarrow> string \<Rightarrow> (string + string) res" where
  "kick_index_argument cfg session s =
     rbind (index_argument s) (\<lambda>indexToKick.
       if indexToKick < 0 \<or> 15 < indexToKick then Inr (Inl ''Invalid Index'')
       else if indexToKick = 0 \<and> \<not> IsDedicated cfg then Inr (Inl ''You cannot kick the host'')
       else rbind (array_at (PlayerSessions session) indexToKick) (\<lambda>player.
         if DisplayName player = [] then Inr (Inl ''Could Not find player'')
         else Inr (Inr (DisplayName player))))"

fun find_kick_player :: "Session \<Rightarrow> string \<Rightarrow> nat list \<Rightarrow> int \<Rightarrow> int res" where
  "find_kick_player session s [] playerToKickIdx = Inr playerToKickIdx"
| "find_kick_player session s (peerIdx # rest) playerToKickIdx =
     rbind (GetPeerPlayer session (int peerIdx)) (\<lambda>playerIdx.
       if playerIdx = - 1 then find_kick_player session s rest playerToKickIdx
       else rbind (array_at (PlayerSessions session) playerIdx) (\<lambda>player.
         find_kick_player session s rest (if DisplayName player = s then playerIdx else playerToKickIdx)))"

definition kick_player_argument :: "CommandConfig \<Rightarrow> Session \<Rightarrow> string \<Rightarrow> (string + string) res" where
  "kick_player_argument cfg session s =
     rbind (find_kick_player session s (connected_peers session) (- 1)) (\<lambda>playerToKickIdx.
       if playerToKickIdx < 0 then Inr (Inl (''Player \"'' @ s @ ''\" not found.''))
       else if playerToKickIdx = 0 \<and> \<not> IsDedicated cfg then Inr (Inl ''You cannot kick the host'')
       else Inr (Inr s))"

definition isValidArgument :: "CommandConfig \<Rightarrow> Session \<Rightarrow> ChatCommand \<Rightarrow> string \<Rightarrow> (string + ChatCommand) res" where
  "isValidArgument cfg session cmd s = (case kind cmd of
     KickIndexCommand \<Rightarrow> rbind (kick_index_argument cfg session s) (\<lambda>r.
       case r of Inl returnInfo \<Rightarrow> Inr (Inl returnInfo) | Inr n \<Rightarrow> Inr (Inr (cmd\<lparr>playerName := n\<rparr>)))
   | KickPlayerCommand \<Rightarrow> rbind (kick_player_argument cfg session s) (\<lambda>r.
       case r of Inl returnInfo \<Rightarrow> Inr (Inl returnInfo) | Inr n \<Rightarrow> Inr (Inr (cmd\<lparr>playerName := n\<rparr>)))
   | _ \<Rightarrow> Inr (Inr cmd))"

subsection \<open>The life of a vote\<close>

fun count_players :: "Session \<Rightarrow> nat list \<Rightarrow> nat \<Rightarrow> nat res" where
  "count_players session [] numberOfPlayers = Inr numberOfPlayers"
| "count_players session (peerIdx # rest) numberOfPlayers =
     rbind (GetPeerPlayer session (int peerIdx)) (\<lambda>playerIdx.
     rbind (array_at (Peers session) (int peerIdx)) (\<lambda>peer.
       count_players session rest
         (if playerIdx = - 1 \<or> \<not> PeerIsEstablished peer then numberOfPlayers else numberOfPlayers + 1)))"

definition findNumberOfPlayersInGame :: "Session option \<Rightarrow> nat res" where
  "findNumberOfPlayersInGame active = (case active of None \<Rightarrow> Inr 0 | Some session \<Rightarrow>
     if \<not> IsEstablished session \<or> \<not> IsHost session then Inr 0
     else count_players session (connected_peers session) 0)"

text \<open>The product of an \<open>int\<close> and the \<open>unsigned long\<close> of the variable is unsigned.\<close>

definition votes_needed :: "nat \<Rightarrow> u32 \<Rightarrow> u32" where
  "votes_needed numPlayers percentage = 1 + ((of_nat numPlayers - 1) * percentage) div 100"

definition endVoting :: "ChatCommand \<Rightarrow> ChatCommand" where
  "endVoting cmd = cmd\<lparr>yesVoters := [], currentlyVoting := False, voteTimeStarted := 0, votesNeeded := 0\<rparr>"

definition command_tick :: "MessageHandler list \<Rightarrow> CommandConfig \<Rightarrow> Session \<Rightarrow> int \<Rightarrow> ChatCommand
    \<Rightarrow> ChatCommand \<times> CommandEffect list" where
  "command_tick handlers cfg session now cmd =
     (if \<not> isEnabled cfg (kind cmd) \<or> voteTimeStarted cmd = 0 then (cmd, [])
      else if now - voteTimeStarted cmd < uint (ChatCommandVoteTime cfg) then (cmd, [])
      else (let (cmd1, es) = doOnVoteFail handlers session cmd in (endVoting cmd1, es)))"

definition addToVoteTimes :: "u64 \<Rightarrow> int \<Rightarrow> (u64 \<rightharpoonup> int) \<Rightarrow> bool \<times> (u64 \<rightharpoonup> int)" where
  "addToVoteTimes sender curTime vts = (case vts sender of
     Some t \<Rightarrow> if curTime - t < 90 then (False, vts) else (True, vts(sender \<mapsto> curTime))
   | None \<Rightarrow> (True, vts(sender \<mapsto> curTime)))"

definition processMessage :: "MessageHandler list \<Rightarrow> CommandConfig \<Rightarrow> Session \<Rightarrow> int \<Rightarrow> u8 \<Rightarrow> string
    \<Rightarrow> ChatCommand \<Rightarrow> (u64 \<rightharpoonup> int) \<Rightarrow> (ChatCommand \<times> (u64 \<rightharpoonup> int) \<times> CommandEffect list) res" where
  "processMessage handlers cfg session now sender argument cmd vts =
     (if \<not> isEnabled cfg (kind cmd) then Inr (cmd, vts, [])
      else rbind (isValidArgument cfg session cmd argument) (\<lambda>valid. case valid of
        Inl returnInfo \<Rightarrow> rbind (say_to handlers session (uint sender) returnInfo) (\<lambda>es. Inr (cmd, vts, es))
      | Inr cmd1 \<Rightarrow>
          rbind (array_at (PlayerSessions session) (uint sender)) (\<lambda>player.
            (let (added, vts') = addToVoteTimes (Uid player) now vts in
             if added then
               rbind (findNumberOfPlayersInGame (Some session)) (\<lambda>numPlayers.
                 (let cmd2 = cmd1\<lparr>votesNeeded := votes_needed numPlayers (VotePassPercentage cfg),
                        currentlyVoting := True, voteTimeStarted := now\<rparr> in
                  Inr (cmd2, vts', doOnVoteStart handlers session cmd2)))
             else rbind (say_to handlers session (uint sender) ''You must wait to start another vote.'')
               (\<lambda>es. Inr (cmd1, vts', es))))))"

definition processVote :: "MessageHandler list \<Rightarrow> CommandConfig \<Rightarrow> Session \<Rightarrow> u8 \<Rightarrow> string \<Rightarrow> ChatCommand
    \<Rightarrow> (ChatCommand \<times> CommandEffect list) res" where
  "processVote handlers cfg session sender message cmd =
     (if \<not> isEnabled cfg (kind cmd) then Inr (cmd, [])
      else if map tolower message \<noteq> ''yes'' then Inr (cmd, [])
      else rbind (array_at (PlayerSessions session) (uint sender)) (\<lambda>player.
        let uid = Uid player in
        if uid = 0 then Inr (cmd, [])
        else if uid \<in> set (yesVoters cmd) then
          rbind (say_to handlers session (uint sender) ''You cannot vote twice.'') (\<lambda>es. Inr (cmd, es))
        else
          (let cmd1 = cmd\<lparr>yesVoters := yesVoters cmd @ [uid]\<rparr> in
           if uint (votesNeeded cmd1) \<le> int (length (yesVoters cmd1)) then
             (let (cmd2, es) = doOnVotePass handlers session cmd1 in Inr (endVoting cmd2, es))
           else
             Inr (cmd1, say handlers session (''Vote Cast. Remaining Votes Needed: ''
               @ to_string32 (votesNeeded cmd1 - of_nat (length (yesVoters cmd1))))))))"

subsection \<open>The map of the commands\<close>

definition all_kinds :: "ChatCommandKind list" where
  "all_kinds = [KickPlayerCommand, KickIndexCommand, EndGameCommand, ShuffleTeamsCommand]"

definition chat_help_line :: "ChatCommandKind \<Rightarrow> string" where
  "chat_help_line k = ''!'' @ getName k @ '' - '' @ getDescription k"

definition InitChatCommands :: "CommandConfig \<Rightarrow> ChatCommandState" where
  "InitChatCommands cfg =
     \<lparr>ChatCommandList = map idle_command all_kinds, chatCommandsActive = False,
      helpText = map chat_help_line (filter (isEnabled cfg) all_kinds)
        @ [''!listPlayers - Lists the Index and Name of each player in the session. ''],
      voteTimes = (\<lambda>_. None)\<rparr>"

definition GameEndedId :: u32 where "GameEndedId = 262221"

definition fail_if_voting :: "MessageHandler list \<Rightarrow> Session \<Rightarrow> ChatCommand \<Rightarrow> ChatCommand \<times> CommandEffect list" where
  "fail_if_voting handlers session elem =
     (if currentlyVoting elem
      then (let (cmd1, es) = doOnVoteFail handlers session elem in (endVoting cmd1, es))
      else (elem, []))"

definition CommandOnEvent :: "MessageHandler list \<Rightarrow> Session \<Rightarrow> u32 \<Rightarrow> ChatCommandState
    \<Rightarrow> ChatCommandState \<times> CommandEffect list" where
  "CommandOnEvent handlers session NameStringId s =
     (if NameStringId \<noteq> GameEndedId then (s, [])
      else (let rs = map (fail_if_voting handlers session) (ChatCommandList s) in
        (s\<lparr>voteTimes := (\<lambda>_. None), chatCommandsActive := False, ChatCommandList := map fst rs\<rparr>,
         BanDurationsDecremented # concat (map snd rs))))"

definition CommandLifeCycle :: "LifeCycleState \<Rightarrow> ChatCommandState \<Rightarrow> ChatCommandState" where
  "CommandLifeCycle newState s = (if newState = LifeCycleStartGame then s\<lparr>chatCommandsActive := True\<rparr> else s)"

definition CommandTick :: "MessageHandler list \<Rightarrow> CommandConfig \<Rightarrow> Session option \<Rightarrow> int \<Rightarrow> ChatCommandState
    \<Rightarrow> ChatCommandState \<times> CommandEffect list" where
  "CommandTick handlers cfg active now s = (case active of None \<Rightarrow> (s, []) | Some session \<Rightarrow>
     if \<not> IsEstablished session \<or> \<not> IsHost session then (s, [])
     else if chatCommandsActive s then
       (let rs = map (command_tick handlers cfg session now) (ChatCommandList s) in
        (s\<lparr>ChatCommandList := map fst rs\<rparr>, concat (map snd rs)))
     else (s, []))"

fun list_players :: "MessageHandler list \<Rightarrow> Session \<Rightarrow> int \<Rightarrow> nat list \<Rightarrow> CommandEffect list res" where
  "list_players handlers session peer [] = Inr []"
| "list_players handlers session peer (peerIdx # rest) =
     rbind (GetPeerPlayer session (int peerIdx)) (\<lambda>playerIdx.
     rbind (if playerIdx = - 1 then Inr []
            else rbind (array_at (PlayerSessions session) playerIdx) (\<lambda>player.
              say_to handlers session peer
                (''('' @ dec_int playerIdx @ '') \"'' @ DisplayName player @ ''\"''))) (\<lambda>es.
     rbind (list_players handlers session peer rest) (\<lambda>es'. Inr (es @ es'))))"

text \<open>The first command whose vote is running gets the message.\<close>

fun vote_running :: "MessageHandler list \<Rightarrow> CommandConfig \<Rightarrow> Session \<Rightarrow> u8 \<Rightarrow> string \<Rightarrow> ChatCommand list
    \<Rightarrow> (ChatCommand list \<times> CommandEffect list) option res" where
  "vote_running handlers cfg session sender line [] = Inr None"
| "vote_running handlers cfg session sender line (elem # rest) =
     (if currentlyVoting elem then
        rbind (processVote handlers cfg session sender line elem) (\<lambda>(elem', es). Inr (Some (elem' # rest, es)))
      else rbind (vote_running handlers cfg session sender line rest) (\<lambda>r.
        Inr (map_option (\<lambda>(cmds, es). (elem # cmds, es)) r)))"

text \<open>Every command of the given name gets the rest of the line.\<close>

fun start_votes :: "MessageHandler list \<Rightarrow> CommandConfig \<Rightarrow> Session \<Rightarrow> int \<Rightarrow> u8 \<Rightarrow> string \<Rightarrow> string list
    \<Rightarrow> ChatCommand list \<Rightarrow> (u64 \<rightharpoonup> int) \<Rightarrow> (ChatCommand list \<times> (u64 \<rightharpoonup> int) \<times> CommandEffect list) res" where
  "start_votes handlers cfg session now sender cmd args [] vts = Inr ([], vts, [])"
| "start_votes handlers cfg session now sender cmd args (elem # rest) vts =
     rbind (if cmd = map tolower (getName (kind elem)) then
              rbind (if args \<noteq> [] then Join args '' '' else Inr []) (\<lambda>argument.
                processMessage handlers cfg session now sender argument elem vts)
            else Inr (elem, vts, [])) (\<lambda>(elem', vts', es).
     rbind (start_votes handlers cfg session now sender cmd args rest vts') (\<lambda>(rest', vts'', es').
       Inr (elem' # rest', vts'', es @ es')))"

definition handleChatMessage :: "MessageHandler list \<Rightarrow> CommandConfig \<Rightarrow> Session \<Rightarrow> int \<Rightarrow> ChatMessage \<Rightarrow> int
    \<Rightarrow> ChatCommandState \<Rightarrow> (bool \<times> ChatCommandState \<times> CommandEffect list) res" where
  "handleChatMessage handlers cfg session now message peer s =
     (let line0 = Trim (c_str (Body message)) True; sender = (of_int peer :: u8) in
      if line0 = [] \<or> hd line0 \<noteq> CHR ''!'' then Inr (False, s, [])
      else (let line = tl line0 in
        if line = ''help'' then rbind (say_all handlers session peer (helpText s)) (\<lambda>es. Inr (True, s, es))
        else if line = ''listPlayers'' \<or> line = ''list'' then
          rbind (list_players handlers session peer (connected_peers session)) (\<lambda>es. Inr (True, s, es))
        else if \<not> chatCommandsActive s then Inr (False, s, [])
        else rbind (vote_running handlers cfg session sender line (ChatCommandList s)) (\<lambda>running. case running of
          Some (cmds, es) \<Rightarrow> Inr (True, s\<lparr>ChatCommandList := cmds\<rparr>, es)
        | None \<Rightarrow> (case CommandLineToArgvA line of
            [] \<Rightarrow> Inl Undefined
          | arg0 # args \<Rightarrow>
              rbind (start_votes handlers cfg session now sender (map tolower arg0) args (ChatCommandList s) (voteTimes s))
                (\<lambda>(cmds, vts, es). Inr (True, s\<lparr>ChatCommandList := cmds, voteTimes := vts\<rparr>, es))))))"

subsection \<open>The invariant of the votes\<close>

definition chat_vote_ok :: "ChatCommand \<Rightarrow> bool" where
  "chat_vote_ok c \<longleftrightarrow>
     (if currentlyVoting c
      then distinct (yesVoters c) \<and> 0 \<notin> set (yesVoters c) \<and> int (length (yesVoters c)) < uint (votesNeeded c)
      else yesVoters c = [] \<and> voteTimeStarted c = 0)"

definition chat_votes_ok :: "ChatCommandState \<Rightarrow> bool" where
  "chat_votes_ok s \<longleftrightarrow> map kind (ChatCommandList s) = all_kinds
     \<and> (\<forall>c \<in> set (ChatCommandList s). chat_vote_ok c)
     \<and> length (filter currentlyVoting (ChatCommandList s)) \<le> 1
     \<and> (chatCommandsActive s \<or> filter currentlyVoting (ChatCommandList s) = [])"

lemma votes_needed_pos: "0 < uint (votes_needed n p)"
proof -
  have "unat (((of_nat n - 1) * p) div 100) \<le> unat ((of_nat n - 1) * p) div 100"
    by (simp add: unat_div)
  moreover have "unat ((of_nat n - 1) * p) < 4294967296" by (rule unat_u32_less)
  ultimately have "unat (((of_nat n - 1) * p) div 100) < 4294967295" by linarith
  then have "unat (votes_needed n p) = 1 + unat (((of_nat n - 1) * p) div 100)"
    by (simp add: votes_needed_def unat_word_ariths)
  then show ?thesis by (metis nat_uint_eq Suc_eq_plus1_left zero_less_Suc zero_less_nat_eq)
qed

lemma idle_command_ok: "chat_vote_ok (idle_command k)"
  by (simp add: chat_vote_ok_def idle_command_def)

lemma endVoting_ok [simp]: "chat_vote_ok (endVoting c)" "\<not> currentlyVoting (endVoting c)" "kind (endVoting c) = kind c"
  by (simp_all add: chat_vote_ok_def endVoting_def)

lemma vote_end_kind [simp]:
  "kind (fst (doOnVoteFail handlers session c)) = kind c"
  "kind (fst (doOnVotePass handlers session c)) = kind c"
  by (simp_all add: doOnVoteFail_def doOnVotePass_def split: ChatCommandKind.split)

lemma rbind_argument_iff:
  "rbind m (case_sum (\<lambda>i. Inr (Inl i)) (\<lambda>n. Inr (Inr (f n)))) = Inr (Inr y) \<longleftrightarrow> (\<exists>n. m = Inr (Inr n) \<and> y = f n)"
  by (cases m; simp split: sum.split) (metis sum.exhaust Inr_inject sum.distinct(1))

lemma isValidArgument_keeps:
  assumes "isValidArgument cfg session c s = Inr (Inr c1)"
  shows "kind c1 = kind c \<and> currentlyVoting c1 = currentlyVoting c \<and> yesVoters c1 = yesVoters c
    \<and> voteTimeStarted c1 = voteTimeStarted c \<and> votesNeeded c1 = votesNeeded c"
  using assms
  by (auto simp: isValidArgument_def rbind_argument_iff split: ChatCommandKind.splits)

lemma processMessage_cases:
  assumes "processMessage handlers cfg session now sender arg c vts = Inr (c', vts', es)"
  obtains (unchanged) "c' = c" "vts' = vts"
  | (too_soon) c1 player where "isValidArgument cfg session c arg = Inr (Inr c1)" "c' = c1"
      "array_at (PlayerSessions session) (uint sender) = Inr player" "addToVoteTimes (Uid player) now vts = (False, vts')"
  | (started) c1 player n where "isEnabled cfg (kind c)" "isValidArgument cfg session c arg = Inr (Inr c1)"
      "array_at (PlayerSessions session) (uint sender) = Inr player" "addToVoteTimes (Uid player) now vts = (True, vts')"
      "findNumberOfPlayersInGame (Some session) = Inr n"
      "c' = c1\<lparr>votesNeeded := votes_needed n (VotePassPercentage cfg), currentlyVoting := True,
         voteTimeStarted := now\<rparr>"
proof (cases "isEnabled cfg (kind c)")
  case False
  with assms show thesis by (intro unchanged) (simp_all add: processMessage_def)
next
  case enabled: True
  with assms obtain v where v: "isValidArgument cfg session c arg = Inr v"
    by (auto simp: processMessage_def rbind_Inr_iff)
  show thesis
  proof (cases v)
    case (Inl info)
    with assms enabled v show thesis by (intro unchanged) (auto simp: processMessage_def rbind_Inr_iff)
  next
    case (Inr c1)
    with assms enabled v obtain player where p: "array_at (PlayerSessions session) (uint sender) = Inr player"
      by (auto simp: processMessage_def rbind_Inr_iff)
    show thesis
    proof (cases "addToVoteTimes (Uid player) now vts")
      case (Pair added w)
      then show thesis
        using assms enabled v Inr p too_soon started
        by (cases added) (auto simp: processMessage_def rbind_Inr_iff Let_def)
    qed
  qed
qed

lemma processMessage_keeps:
  assumes "processMessage handlers cfg session now sender arg c vts = Inr (c', vts', es)"
    and "chat_vote_ok c" "\<not> currentlyVoting c"
  shows "kind c' = kind c \<and> chat_vote_ok c'"
  using assms(1)
proof (cases rule: processMessage_cases)
  case unchanged
  with assms(2) show ?thesis by simp
next
  case (too_soon c1 player)
  with isValidArgument_keeps [OF too_soon(1)] assms(2,3) show ?thesis by (simp add: chat_vote_ok_def)
next
  case (started c1 player n)
  with isValidArgument_keeps [OF started(2)] assms(2,3) votes_needed_pos show ?thesis
    by (simp add: chat_vote_ok_def)
qed

lemma processVote_keeps:
  assumes "processVote handlers cfg session sender m c = Inr (c', es)" "chat_vote_ok c" "currentlyVoting c"
  shows "kind c' = kind c \<and> chat_vote_ok c'"
  using assms
  by (auto simp: processVote_def rbind_Inr_iff Let_def case_prod_beta split: if_splits)
    (auto simp: chat_vote_ok_def)

lemma command_tick_keeps:
  "chat_vote_ok c \<Longrightarrow> kind (fst (command_tick handlers cfg session now c)) = kind c
     \<and> chat_vote_ok (fst (command_tick handlers cfg session now c))
     \<and> (currentlyVoting (fst (command_tick handlers cfg session now c)) \<longrightarrow> currentlyVoting c)"
  by (simp add: command_tick_def Let_def case_prod_beta)

lemma fail_if_voting_keeps:
  "chat_vote_ok c \<Longrightarrow> kind (fst (fail_if_voting handlers session c)) = kind c
     \<and> chat_vote_ok (fst (fail_if_voting handlers session c))
     \<and> \<not> currentlyVoting (fst (fail_if_voting handlers session c))"
  by (simp add: fail_if_voting_def Let_def case_prod_beta)

lemma vote_running_None:
  "vote_running handlers cfg session sender line cs = Inr None \<Longrightarrow> filter currentlyVoting cs = []"
  by (induction cs) (auto simp: rbind_Inr_iff split: if_splits)

lemma vote_running_Some:
  assumes "vote_running handlers cfg session sender line cs = Inr (Some (cs', es))"
  shows "\<exists>pre c post c'. cs = pre @ c # post \<and> currentlyVoting c \<and> filter currentlyVoting pre = []
    \<and> processVote handlers cfg session sender line c = Inr (c', es) \<and> cs' = pre @ c' # post"
  using assms
proof (induction cs arbitrary: cs' es)
  case (Cons c cs)
  show ?case
  proof (cases "currentlyVoting c")
    case True
    with Cons.prems obtain c' where "processVote handlers cfg session sender line c = Inr (c', es)" "cs' = c' # cs"
      by (auto simp: rbind_Inr_iff)
    with True show ?thesis by (intro exI [of _ "[]"]) auto
  next
    case False
    with Cons.prems obtain cs1 where r: "vote_running handlers cfg session sender line cs = Inr (Some (cs1, es))"
      "cs' = c # cs1" by (auto simp: rbind_Inr_iff)
    from Cons.IH [OF r(1)] obtain pre d post d' where "cs = pre @ d # post" "currentlyVoting d"
      "filter currentlyVoting pre = []" "processVote handlers cfg session sender line d = Inr (d', es)"
      "cs1 = pre @ d' # post" by blast
    with False r(2) show ?thesis by (intro exI [of _ "c # pre"]) auto
  qed
qed simp

lemma start_votes_keeps:
  assumes "start_votes handlers cfg session now sender cmd args cs vts = Inr (cs', vts', es)"
    and "\<forall>c \<in> set cs. chat_vote_ok c" "filter currentlyVoting cs = []"
  shows "map kind cs' = map kind cs \<and> (\<forall>c \<in> set cs'. chat_vote_ok c)
    \<and> (\<forall>c \<in> set cs'. currentlyVoting c \<longrightarrow> map tolower (getName (kind c)) = cmd)"
  using assms
proof (induction cs arbitrary: vts cs' es)
  case (Cons c cs)
  from Cons.prems(1) obtain c' vts1 es1 cs1 es2 where
    h: "(if cmd = map tolower (getName (kind c)) then
           rbind (if args \<noteq> [] then Join args '' '' else Inr []) (\<lambda>argument.
             processMessage handlers cfg session now sender argument c vts)
         else Inr (c, vts, [])) = Inr (c', vts1, es1)"
    and t: "start_votes handlers cfg session now sender cmd args cs vts1 = Inr (cs1, vts', es2)"
    and cs': "cs' = c' # cs1" by (auto simp: rbind_Inr_iff)
  have c: "chat_vote_ok c" "\<not> currentlyVoting c" "filter currentlyVoting cs = []" "\<forall>c \<in> set cs. chat_vote_ok c"
    using Cons.prems(2,3) by (auto split: if_splits)
  have "kind c' = kind c \<and> chat_vote_ok c' \<and> (currentlyVoting c' \<longrightarrow> map tolower (getName (kind c')) = cmd)"
    using h c processMessage_keeps by (auto simp: rbind_Inr_iff split: if_splits)
  with Cons.IH [OF t c(4,3)] show ?case unfolding cs' by auto
qed simp

lemma one_kind_per_name:
  "map tolower (getName k) = map tolower (getName k') \<Longrightarrow> k = k'"
  by (cases k; cases k'; simp add: getName_def tolower_def isupper_def ord_of_def)

lemma at_most_one:
  assumes "distinct (map f xs)" "\<forall>x \<in> set xs. P x \<longrightarrow> f x = k"
  shows "length (filter P xs) \<le> 1"
proof (rule ccontr)
  assume "\<not> ?thesis"
  then obtain a b rest where ab: "filter P xs = a # b # rest"
    by (metis One_nat_def Suc_le_length_iff Suc_n_not_le_n le_cases length_0_conv list.exhaust not_less_eq_eq
        length_Cons list.size(3) zero_le_one)
  then have "a \<in> set (filter P xs)" "b \<in> set (filter P xs)" by simp_all
  then have "f a = f b" using assms(2) by auto
  moreover have "distinct (map f (filter P xs))" using assms(1) by (rule distinct_map_filter)
  ultimately show False using ab by simp
qed

text \<open>What a line typed into the chat can do: nothing to the votes, one step of the running vote, or
  the start of one.\<close>

lemma handleChatMessage_cases:
  assumes "handleChatMessage handlers cfg session now message peer s = Inr (handled, s', es)"
  obtains (nothing) "s' = s" "\<forall>x. Executed x \<notin> set es"
  | (vote) pre c post c' where "chatCommandsActive s" "ChatCommandList s = pre @ c # post" "currentlyVoting c"
      "processVote handlers cfg session (of_int peer) (tl (Trim (c_str (Body message)) True)) c = Inr (c', es)"
      "s' = s\<lparr>ChatCommandList := pre @ c' # post\<rparr>"
      "\<exists>line. Trim (c_str (Body message)) True = CHR ''!'' # line"
  | (start) arg0 args cmds vts where "chatCommandsActive s" "filter currentlyVoting (ChatCommandList s) = []"
      "start_votes handlers cfg session now (of_int peer) (map tolower arg0) args (ChatCommandList s) (voteTimes s)
         = Inr (cmds, vts, es)"
      "s' = s\<lparr>ChatCommandList := cmds, voteTimes := vts\<rparr>"
proof -
  have sent: "\<forall>x. Executed x \<notin> set es'" if "say_to handlers session p b = Inr es'" for p b es'
    using that by (auto simp: say_to_def rbind_Inr_iff)
  have all: "\<forall>x. Executed x \<notin> set es'" if "say_all handlers session p bs = Inr es'" for p bs es'
    using that by (induction bs arbitrary: es') (auto simp: rbind_Inr_iff dest!: sent)
  have list: "\<forall>x. Executed x \<notin> set es'" if "list_players handlers session p ps = Inr es'" for p ps es'
    using that by (induction ps arbitrary: es') (auto simp: rbind_Inr_iff dest!: sent split: if_splits)
  define line0 where "line0 = Trim (c_str (Body message)) True"
  define sender where "sender = (of_int peer :: u8)"
  note h = assms [unfolded handleChatMessage_def Let_def, folded line0_def sender_def]
  consider (plain) "line0 = [] \<or> hd line0 \<noteq> CHR ''!''"
    | (asking) "\<not> (line0 = [] \<or> hd line0 \<noteq> CHR ''!'')" "tl line0 = ''help'' \<or> tl line0 = ''listPlayers'' \<or> tl line0 = ''list''"
    | (inactive) "\<not> (line0 = [] \<or> hd line0 \<noteq> CHR ''!'')" "\<not> chatCommandsActive s"
    | (running) "\<not> (line0 = [] \<or> hd line0 \<noteq> CHR ''!'')" "chatCommandsActive s"
        "\<not> (tl line0 = ''help'' \<or> tl line0 = ''listPlayers'' \<or> tl line0 = ''list'')" by blast
  then show thesis
  proof cases
    case plain
    with h have "s' = s" "es = []" by (auto split: if_splits)
    then show thesis by - (rule nothing, simp_all)
  next
    case asking
    with h show thesis by - (rule nothing, (auto simp: rbind_Inr_iff dest!: all list split: if_splits))
  next
    case inactive
    with h show thesis by - (rule nothing, (auto simp: rbind_Inr_iff dest!: all list split: if_splits))
  next
    case running
    then have h': "rbind (vote_running handlers cfg session sender (tl line0) (ChatCommandList s)) (\<lambda>running. case running of
          Some (cmds, es) \<Rightarrow> Inr (True, s\<lparr>ChatCommandList := cmds\<rparr>, es)
        | None \<Rightarrow> (case CommandLineToArgvA (tl line0) of
            [] \<Rightarrow> Inl Undefined
          | arg0 # args \<Rightarrow>
              rbind (start_votes handlers cfg session now sender (map tolower arg0) args (ChatCommandList s) (voteTimes s))
                (\<lambda>(cmds, vts, es). Inr (True, s\<lparr>ChatCommandList := cmds, voteTimes := vts\<rparr>, es))))
        = Inr (handled, s', es)"
      using h running by simp
    then obtain w where r: "vote_running handlers cfg session sender (tl line0) (ChatCommandList s) = Inr w"
      by (auto simp: rbind_Inr_iff)
    show thesis
    proof (cases w)
      case None
      with h' r obtain arg0 args where a: "CommandLineToArgvA (tl line0) = arg0 # args"
        by (auto split: list.splits)
      with h' r None obtain cmds vts where
        "start_votes handlers cfg session now sender (map tolower arg0) args (ChatCommandList s) (voteTimes s)
           = Inr (cmds, vts, es)" "s' = s\<lparr>ChatCommandList := cmds, voteTimes := vts\<rparr>"
        by (auto simp: rbind_Inr_iff)
      moreover have "filter currentlyVoting (ChatCommandList s) = []"
        using vote_running_None r None by blast
      ultimately show thesis by - (rule start [OF running(2)], (simp_all add: sender_def))
    next
      case (Some p)
      obtain cmds es1 where "p = (cmds, es1)" by (cases p)
      with h' r Some have p: "vote_running handlers cfg session sender (tl line0) (ChatCommandList s) = Inr (Some (cmds, es))"
        "s' = s\<lparr>ChatCommandList := cmds\<rparr>" by auto
      from vote_running_Some [OF p(1)] obtain pre c post c' where
        "ChatCommandList s = pre @ c # post" "currentlyVoting c"
        "processVote handlers cfg session sender (tl line0) c = Inr (c', es)" "cmds = pre @ c' # post" by blast
      moreover have "line0 = CHR ''!'' # tl line0" using running(1) by (cases line0) auto
      ultimately show thesis using p(2) running(2)
        by (intro vote [of pre c post c']) (simp_all add: sender_def line0_def, blast)
    qed
  qed
qed

lemma filter_one: "length (filter P (pre @ c # post)) \<le> 1 \<Longrightarrow> P c \<Longrightarrow> filter P pre = [] \<and> filter P post = []"
  by (simp add: length_0_conv [symmetric] del: length_0_conv filter_False)

lemma handleChatMessage_votes_ok:
  assumes "handleChatMessage handlers cfg session now message peer s = Inr (handled, s', es)" "chat_votes_ok s"
  shows "chat_votes_ok s'"
  using assms(1)
proof (cases rule: handleChatMessage_cases)
  case nothing
  with assms(2) show ?thesis by simp
next
  case (vote pre c post c')
  have c: "chat_vote_ok c" using assms(2) vote(2) by (simp add: chat_votes_ok_def)
  have o: "filter currentlyVoting pre = []" "filter currentlyVoting post = []"
    using filter_one [of currentlyVoting pre c post] assms(2) vote(2,3) by (simp_all add: chat_votes_ok_def)
  from processVote_keeps [OF vote(4) c vote(3)] assms(2) vote o show ?thesis
    by (simp add: chat_votes_ok_def)
next
  case (start arg0 args cmds vts)
  have k: "\<forall>c \<in> set (ChatCommandList s). chat_vote_ok c" "map kind (ChatCommandList s) = all_kinds"
    using assms(2) by (simp_all add: chat_votes_ok_def)
  note r = start_votes_keeps [OF start(3) k(1) start(2)]
  have d: "distinct (map kind cmds)" using r k(2) by (simp add: all_kinds_def)
  have "length (filter currentlyVoting cmds) \<le> 1"
  proof (cases "\<exists>c \<in> set cmds. currentlyVoting c")
    case True
    then obtain c0 where c0: "c0 \<in> set cmds" "currentlyVoting c0" by blast
    have "\<forall>c \<in> set cmds. currentlyVoting c \<longrightarrow> kind c = kind c0"
      using r c0 one_kind_per_name by metis
    with d show ?thesis by (rule at_most_one)
  qed simp
  with r k start(1,4) show ?thesis by (simp add: chat_votes_ok_def)
qed

lemma filter_map_le:
  "(\<And>x. x \<in> set xs \<Longrightarrow> P (f x) \<Longrightarrow> P x) \<Longrightarrow> length (filter P (map f xs)) \<le> length (filter P xs)"
  by (induction xs) (auto intro: le_SucI)

lemma CommandTick_votes_ok:
  assumes "CommandTick handlers cfg active now s = (s', es)" "chat_votes_ok s"
  shows "chat_votes_ok s'"
proof (cases "s' = s")
  case False
  with assms(1) obtain session where s': "s' = s\<lparr>ChatCommandList :=
      map (\<lambda>c. fst (command_tick handlers cfg session now c)) (ChatCommandList s)\<rparr>" and a: "chatCommandsActive s"
    by (auto simp: CommandTick_def Let_def o_def split: option.splits if_splits)
  let ?f = "\<lambda>c. fst (command_tick handlers cfg session now c)"
  have k: "\<forall>c \<in> set (ChatCommandList s). chat_vote_ok c" using assms(2) by (simp add: chat_votes_ok_def)
  then have "length (filter currentlyVoting (map ?f (ChatCommandList s))) \<le> length (filter currentlyVoting (ChatCommandList s))"
    using command_tick_keeps by (intro filter_map_le) blast
  moreover have "map kind (map ?f (ChatCommandList s)) = map kind (ChatCommandList s)"
    using k command_tick_keeps by simp
  moreover have "\<forall>c \<in> set (map ?f (ChatCommandList s)). chat_vote_ok c"
    using k command_tick_keeps by auto
  ultimately show ?thesis using assms(2) a by (simp add: chat_votes_ok_def s' del: map_map list.map_comp filter_map)
qed (use assms in simp)

lemma CommandOnEvent_votes_ok:
  assumes "CommandOnEvent handlers session i s = (s', es)" "chat_votes_ok s"
  shows "chat_votes_ok s'"
proof (cases "s' = s")
  case False
  let ?f = "\<lambda>c. fst (fail_if_voting handlers session c)"
  have s': "s' = s\<lparr>voteTimes := (\<lambda>_. None), chatCommandsActive := False, ChatCommandList := map ?f (ChatCommandList s)\<rparr>"
    using assms(1) False by (auto simp: CommandOnEvent_def Let_def o_def split: if_splits)
  have k: "\<forall>c \<in> set (ChatCommandList s). chat_vote_ok c" using assms(2) by (simp add: chat_votes_ok_def)
  then have "map kind (map ?f (ChatCommandList s)) = map kind (ChatCommandList s)"
    "\<forall>c \<in> set (map ?f (ChatCommandList s)). chat_vote_ok c \<and> \<not> currentlyVoting c"
    using fail_if_voting_keeps by auto
  moreover then have "filter currentlyVoting (map ?f (ChatCommandList s)) = []" by (simp only: filter_empty_conv) blast
  ultimately show ?thesis using assms(2) by (simp add: chat_votes_ok_def s' del: map_map list.map_comp filter_map)
qed (use assms in simp)

text \<open>The states the chat commands go through: lines are typed, time passes, games start and end, in any
  order and under any settings.\<close>

inductive chat_reachable :: "ChatCommandState \<Rightarrow> bool" where
  init: "chat_reachable (InitChatCommands cfg)"
| message: "chat_reachable s \<Longrightarrow>
    handleChatMessage handlers cfg session now m peer s = Inr (handled, s', es) \<Longrightarrow> chat_reachable s'"
| tick: "chat_reachable s \<Longrightarrow> CommandTick handlers cfg active now s = (s', es) \<Longrightarrow> chat_reachable s'"
| event: "chat_reachable s \<Longrightarrow> CommandOnEvent handlers session i s = (s', es) \<Longrightarrow> chat_reachable s'"
| life_cycle: "chat_reachable s \<Longrightarrow> chat_reachable (CommandLifeCycle newState s)"

lemma chat_reachable_ok: "chat_reachable s \<Longrightarrow> chat_votes_ok s"
proof (induction rule: chat_reachable.induct)
  case (init cfg)
  have "\<forall>c \<in> set (map idle_command all_kinds). chat_vote_ok c \<and> \<not> currentlyVoting c"
    by (simp add: all_kinds_def idle_command_ok) (simp add: idle_command_def)
  moreover then have "filter currentlyVoting (map idle_command all_kinds) = []" by (simp only: filter_empty_conv) blast
  moreover have "map kind (map idle_command all_kinds) = all_kinds" by (simp add: all_kinds_def idle_command_def)
  ultimately show ?case by (simp add: chat_votes_ok_def InitChatCommands_def)
next
  case (life_cycle s newState)
  then show ?case by (simp add: chat_votes_ok_def CommandLifeCycle_def)
qed (blast intro: handleChatMessage_votes_ok CommandTick_votes_ok CommandOnEvent_votes_ok)+

definition passed_line :: "ChatCommand \<Rightarrow> string" where
  "passed_line c = (case kind c of
     ShuffleTeamsCommand \<Rightarrow> ''server.shuffleteams'' | EndGameCommand \<Rightarrow> ''game.stop''
   | _ \<Rightarrow> ''server.KickTempBanPlayer '' @ playerName c)"

lemma say_not_executed: "Executed x \<notin> set (say handlers session body)"
  by (auto simp: say_def)

lemma doOnVotePass_executes:
  "Executed x \<in> set (snd (doOnVotePass handlers session c)) \<longleftrightarrow> x = passed_line c"
  by (cases "kind c") (auto simp: doOnVotePass_def passed_line_def kick_passed_def say_not_executed)

lemma processVote_executes:
  assumes "processVote handlers cfg session sender m c = Inr (c', es)" "Executed x \<in> set es"
    and "chat_vote_ok c" "currentlyVoting c"
  shows "\<exists>player. array_at (PlayerSessions session) (uint sender) = Inr player
    \<and> distinct (Uid player # yesVoters c) \<and> 0 \<notin> set (Uid player # yesVoters c)
    \<and> length (Uid player # yesVoters c) = unat (votesNeeded c) \<and> x = passed_line c \<and> \<not> currentlyVoting c'"
proof -
  from assms(1,2) obtain player where p: "array_at (PlayerSessions session) (uint sender) = Inr player"
    by (auto simp: processVote_def rbind_Inr_iff split: if_splits)
  let ?c1 = "c\<lparr>yesVoters := yesVoters c @ [Uid player]\<rparr>"
  have told: "Executed x \<notin> set es'" if "say_to handlers session q b = Inr es'" for q b es'
    using that by (auto simp: say_to_def rbind_Inr_iff)
  have u: "Uid player \<noteq> 0" "Uid player \<notin> set (yesVoters c)"
    "uint (votesNeeded c) \<le> int (length (yesVoters c)) + 1" "es = snd (doOnVotePass handlers session ?c1)"
    "c' = endVoting (fst (doOnVotePass handlers session ?c1))"
    using assms(1,2) p told say_not_executed
    by (auto simp: processVote_def rbind_Inr_iff Let_def case_prod_beta split: if_splits)
  moreover have "x = passed_line c"
    using assms(2) u(4) doOnVotePass_executes [of x handlers session ?c1]
    by (cases "kind c") (simp_all add: passed_line_def)
  moreover have "length (Uid player # yesVoters c) = unat (votesNeeded c)"
  proof -
    have "int (length (yesVoters c)) < uint (votesNeeded c)" using assms(3,4) by (simp add: chat_vote_ok_def)
    with u(3) have "uint (votesNeeded c) = int (length (yesVoters c)) + 1" by simp
    then show ?thesis by (metis length_Cons nat_uint_eq nat_int of_nat_Suc add.commute)
  qed
  ultimately show ?thesis using p assms(3,4) by (simp add: chat_vote_ok_def)
qed

lemma say_to_not_executed: "say_to handlers session q b = Inr es \<Longrightarrow> Executed x \<notin> set es"
  by (auto simp: say_to_def rbind_Inr_iff)

lemma processMessage_not_executed:
  assumes "processMessage handlers cfg session now sender arg c vts = Inr (c', vts', es)"
  shows "Executed x \<notin> set es"
proof -
  show ?thesis
  proof (cases "isEnabled cfg (kind c)")
    case True
    with assms obtain v where v: "isValidArgument cfg session c arg = Inr v"
      by (auto simp: processMessage_def rbind_Inr_iff)
    with assms True show ?thesis
      by (cases v) (auto simp: processMessage_def rbind_Inr_iff Let_def case_prod_beta doOnVoteStart_def
          say_not_executed dest!: say_to_not_executed split: if_splits)
  qed (use assms in \<open>simp add: processMessage_def\<close>)
qed

lemma start_votes_not_executed:
  "start_votes handlers cfg session now sender cmd args cs vts = Inr (cs', vts', es) \<Longrightarrow> Executed x \<notin> set es"
  by (induction cs arbitrary: vts cs' es)
    (auto simp: rbind_Inr_iff dest: processMessage_not_executed split: if_splits)
lemma enough_voters:
  assumes "chat_reachable s"
    and "handleChatMessage handlers cfg session now message peer s = Inr (handled, s', es)"
    and "Executed x \<in> set es"
  shows "\<exists>c player. c \<in> set (ChatCommandList s) \<and> currentlyVoting c
    \<and> array_at (PlayerSessions session) (uint (of_int peer :: u8)) = Inr player
    \<and> distinct (Uid player # yesVoters c) \<and> 0 \<notin> set (Uid player # yesVoters c)
    \<and> length (Uid player # yesVoters c) = unat (votesNeeded c) \<and> x = passed_line c
    \<and> filter currentlyVoting (ChatCommandList s') = []"
  using assms(2)
proof (cases rule: handleChatMessage_cases)
  case nothing
  with assms(3) show ?thesis by blast
next
  case (vote pre c post c')
  have ok: "chat_votes_ok s" using assms(1) by (rule chat_reachable_ok)
  then have c: "chat_vote_ok c" using vote(2) by (simp add: chat_votes_ok_def)
  have others: "filter currentlyVoting pre = []" "filter currentlyVoting post = []"
    using filter_one [of currentlyVoting pre c post] ok vote(2,3) by (simp_all add: chat_votes_ok_def)
  from processVote_executes [OF vote(4) assms(3) c vote(3)] show ?thesis
    using vote(2,3,5) others by auto
next
  case (start arg0 args cmds vts)
  with start_votes_not_executed assms(3) show ?thesis by blast
qed

text \<open>A vote that was cast: the line says yes, and the UID is the one in the player slot that has the number of the
  peer the line came from.\<close>

definition says_yes :: "ChatMessage \<Rightarrow> bool" where
  "says_yes m \<longleftrightarrow> (case Trim (c_str (Body m)) True of [] \<Rightarrow> False
     | c # line \<Rightarrow> c = CHR ''!'' \<and> map tolower line = ''yes'')"

definition cast_vote :: "Session \<times> ChatMessage \<times> int \<Rightarrow> u64 \<Rightarrow> bool" where
  "cast_vote = (\<lambda>(session, m, peer) u. says_yes m
     \<and> (\<exists>player. array_at (PlayerSessions session) (uint (of_int peer :: u8)) = Inr player \<and> Uid player = u))"

text \<open>The states together with the lines that were typed since the running vote was started, in order.\<close>

inductive chat_history :: "(Session \<times> ChatMessage \<times> int) list \<Rightarrow> ChatCommandState \<Rightarrow> bool" where
  init: "chat_history [] (InitChatCommands cfg)"
| message: "chat_history hs s \<Longrightarrow> handleChatMessage handlers cfg session now m peer s = Inr (handled, s', es) \<Longrightarrow>
    chat_history (if filter currentlyVoting (ChatCommandList s) = [] then [] else hs @ [(session, m, peer)]) s'"
| tick: "chat_history hs s \<Longrightarrow> CommandTick handlers cfg active now s = (s', es) \<Longrightarrow> chat_history hs s'"
| event: "chat_history hs s \<Longrightarrow> CommandOnEvent handlers session i s = (s', es) \<Longrightarrow> chat_history hs s'"
| life_cycle: "chat_history hs s \<Longrightarrow> chat_history hs (CommandLifeCycle newState s)"

lemma chat_history_reachable: "chat_history hs s \<Longrightarrow> chat_reachable s"
  by (induction rule: chat_history.induct) (auto intro: chat_reachable.intros)

text \<open>The votes that count.\<close>

definition counted :: "ChatCommandState \<Rightarrow> u64 set" where
  "counted s = (\<Union>c \<in> set (ChatCommandList s). set (yesVoters c))"

lemma processVote_counts:
  assumes "processVote handlers cfg session sender line c = Inr (c', es)" "u \<in> set (yesVoters c')" "u \<notin> set (yesVoters c)"
  shows "map tolower line = ''yes'' \<and> (\<exists>player. array_at (PlayerSessions session) (uint sender) = Inr player \<and> Uid player = u)"
  using assms by (auto simp: processVote_def rbind_Inr_iff Let_def case_prod_beta endVoting_def split: if_splits)

lemma processVote_says_yes:
  "processVote handlers cfg session sender line c = Inr (c', es) \<Longrightarrow> Executed x \<in> set es \<Longrightarrow> map tolower line = ''yes''"
  by (auto simp: processVote_def split: if_splits)

lemma processMessage_counts:
  assumes "processMessage handlers cfg session now sender arg c vts = Inr (c', vts', es)"
  shows "yesVoters c' = yesVoters c"
  using assms
proof (cases rule: processMessage_cases)
  case (too_soon c1 player)
  then show ?thesis using isValidArgument_keeps [OF too_soon(1)] by simp
next
  case (started c1 player n)
  then show ?thesis using isValidArgument_keeps [OF started(2)] by simp
qed simp

lemma start_votes_counts:
  "start_votes handlers cfg session now sender cmd args cs vts = Inr (cs', vts', es) \<Longrightarrow> map yesVoters cs' = map yesVoters cs"
  by (induction cs arbitrary: vts cs' es) (auto simp: rbind_Inr_iff dest: processMessage_counts split: if_splits)

lemma ended_counts:
  "yesVoters (endVoting c) = []"
  "set (yesVoters (fst (command_tick handlers cfg session now c))) \<subseteq> set (yesVoters c)"
  "set (yesVoters (fst (fail_if_voting handlers session c))) \<subseteq> set (yesVoters c)"
  by (simp_all add: endVoting_def command_tick_def fail_if_voting_def Let_def case_prod_beta)

lemma started_counts:
  assumes "start_votes handlers cfg session now sender cmd args (ChatCommandList s) vts0 = Inr (cmds, vts, es)"
  shows "counted (s\<lparr>ChatCommandList := cmds, voteTimes := vts\<rparr>) = counted s"
proof -
  have "map yesVoters cmds = map yesVoters (ChatCommandList s)" using start_votes_counts [OF assms] .
  then have "yesVoters ` set cmds = yesVoters ` set (ChatCommandList s)" by (metis set_map)
  then have "\<Union> (set ` yesVoters ` set cmds) = \<Union> (set ` yesVoters ` set (ChatCommandList s))" by simp
  then show ?thesis by (simp add: counted_def image_image)
qed

lemma handleChatMessage_counts:
  assumes "handleChatMessage handlers cfg session now m peer s = Inr (handled, s', es)" "u \<in> counted s'"
  shows "u \<in> counted s \<or> cast_vote (session, m, peer) u"
  using assms(1)
proof (cases rule: handleChatMessage_cases)
  case (vote pre c post c')
  then show ?thesis
    using assms(2) processVote_counts [OF vote(4), of u] by (auto simp: counted_def cast_vote_def says_yes_def)
next
  case (start arg0 args cmds vts)
  then show ?thesis using assms(2) started_counts [OF start(3)] by simp
qed (use assms(2) in simp)

lemma CommandTick_counts: "CommandTick handlers cfg active now s = (s', es) \<Longrightarrow> counted s' \<subseteq> counted s"
  by (auto simp: CommandTick_def counted_def Let_def dest!: subsetD [OF ended_counts(2)] split: option.splits if_splits)

lemma CommandOnEvent_counts: "CommandOnEvent handlers session i s = (s', es) \<Longrightarrow> counted s' \<subseteq> counted s"
  by (auto simp: CommandOnEvent_def counted_def Let_def dest!: subsetD [OF ended_counts(3)] split: if_splits)

lemma counted_were_cast: "chat_history hs s \<Longrightarrow> u \<in> counted s \<Longrightarrow> \<exists>h \<in> set hs. cast_vote h u"
proof (induction arbitrary: u rule: chat_history.induct)
  case (init cfg)
  then show ?case by (auto simp: counted_def InitChatCommands_def idle_command_def)
next
  case (message hs s handlers cfg session now m peer handled s' es)
  show ?case
  proof (cases "filter currentlyVoting (ChatCommandList s) = []")
    case True
    then have none: "counted s = {}"
      using chat_reachable_ok [OF chat_history_reachable [OF message(1)]]
      by (auto simp: counted_def chat_votes_ok_def chat_vote_ok_def filter_empty_conv)
    have "counted s' = {}"
      using message(2)
    proof (cases rule: handleChatMessage_cases)
      case (vote pre c post c')
      then show ?thesis using True by simp
    next
      case (start arg0 args cmds vts)
      then show ?thesis using none started_counts [OF start(3)] by simp
    qed (use none in simp)
    with message(4) show ?thesis by simp
  next
    case False
    then show ?thesis using handleChatMessage_counts [OF message(2,4)] message(3) by fastforce
  qed
next
  case (tick hs s handlers cfg active now s' es)
  then show ?case using CommandTick_counts by blast
next
  case (event hs s handlers session i s' es)
  then show ?case using CommandOnEvent_counts by blast
next
  case (life_cycle hs s newState)
  then show ?case by (auto simp: counted_def CommandLifeCycle_def split: if_splits)
qed

text \<open>C4. A console command is run by a chat vote only when enough votes were cast for it: the line that arrived
  says yes, its vote and the ones that count already have pairwise different UIDs, none of them 0,
  they are exactly as many as the vote needs, each of them was cast by a yes typed since this vote was started, the command is
  the one of the vote that was running, and no vote runs afterwards. A vote counts for the UID in the player
  slot that has the number of the peer.\<close>

theorem vote_passes_with_enough_voters:
  assumes "chat_history hs s"
    and "handleChatMessage handlers cfg session now message peer s = Inr (handled, s', es)"
    and "Executed x \<in> set es"
  shows "\<exists>c u. c \<in> set (ChatCommandList s) \<and> currentlyVoting c \<and> cast_vote (session, message, peer) u
    \<and> distinct (u # yesVoters c) \<and> 0 \<notin> set (u # yesVoters c)
    \<and> (\<forall>v \<in> set (yesVoters c). \<exists>h \<in> set hs. cast_vote h v)
    \<and> length (u # yesVoters c) = unat (votesNeeded c) \<and> x = passed_line c
    \<and> filter currentlyVoting (ChatCommandList s') = []"
proof -
  from enough_voters [OF chat_history_reachable [OF assms(1)] assms(2,3)] obtain c player where
    c: "c \<in> set (ChatCommandList s)" "currentlyVoting c"
      "array_at (PlayerSessions session) (uint (of_int peer :: u8)) = Inr player"
      "distinct (Uid player # yesVoters c)" "0 \<notin> set (Uid player # yesVoters c)"
      "length (Uid player # yesVoters c) = unat (votesNeeded c)" "x = passed_line c"
      "filter currentlyVoting (ChatCommandList s') = []" by blast
  have "says_yes message"
    using assms(2)
  proof (cases rule: handleChatMessage_cases)
    case (vote pre c post c')
    then show ?thesis using processVote_says_yes [OF vote(4) assms(3)] by (auto simp: says_yes_def)
  next
    case (start arg0 args cmds vts)
    then show ?thesis using start_votes_not_executed assms(3) by blast
  qed (use assms(3) in blast)
  then have "cast_vote (session, message, peer) (Uid player)" using c(3) by (simp add: cast_vote_def)
  moreover have "\<forall>v \<in> set (yesVoters c). \<exists>h \<in> set hs. cast_vote h v"
    using counted_were_cast [OF assms(1)] c(1) by (auto simp: counted_def)
  ultimately show ?thesis using c by blast
qed

subsection \<open>A vote can pass\<close>

text \<open>The number of votes needed never exceeds the number of players that are there to vote.\<close>

lemma votes_needed_attainable:
  assumes "1 \<le> n" "n \<le> 17" "unat p \<le> 100"
  shows "unat (votes_needed n p) = 1 + (n - 1) * unat p div 100 \<and> unat (votes_needed n p) \<le> n"
proof -
  have n1: "unat (of_nat n - 1 :: u32) = n - 1"
  proof -
    have "of_nat n - 1 = (of_nat (n - 1) :: u32)" using assms(1) by simp
    then show ?thesis using assms(2) by (simp add: unat_of_nat take_bit_nat_eq_self del: of_nat_diff)
  qed
  have b: "(n - 1) * unat p \<le> 16 * 100" using assms(2,3) by (intro mult_le_mono) auto
  then have m: "unat ((of_nat n - 1) * p) = (n - 1) * unat p"
    by (simp add: unat_word_ariths n1)
  have d: "unat (((of_nat n - 1) * p) div 100) = (n - 1) * unat p div 100"
    by (simp add: unat_div m)
  have "(n - 1) * unat p div 100 \<le> (n - 1) * 100 div 100"
    using assms(3) by (intro div_le_mono mult_le_mono2)
  then have le: "(n - 1) * unat p div 100 \<le> n - 1" by simp
  have suc: "unat (1 + w) = 1 + unat w" if "unat w \<le> 16" for w :: u32
    using that by (simp add: unat_word_ariths)
  have "unat (((of_nat n - 1) * p) div 100) \<le> 16" using le assms(2) unfolding d by linarith
  from suc [OF this] have "unat (votes_needed n p) = 1 + (n - 1) * unat p div 100"
    unfolding votes_needed_def d .
  with le assms(1) show ?thesis by simp
qed

text \<open>Players vote one after the other; the effects accumulate.\<close>

primrec yes_from :: "MessageHandler list \<Rightarrow> CommandConfig \<Rightarrow> Session \<Rightarrow> int \<Rightarrow> ChatMessage \<Rightarrow> nat list
    \<Rightarrow> ChatCommandState \<Rightarrow> (ChatCommandState \<times> CommandEffect list) res" where
  "yes_from handlers cfg session now m [] s = Inr (s, [])"
| "yes_from handlers cfg session now m (p # ps) s =
     rbind (handleChatMessage handlers cfg session now m (int p) s) (\<lambda>(_, s', es).
     rbind (yes_from handlers cfg session now m ps s') (\<lambda>(s'', es'). Inr (s'', es @ es')))"

lemma vote_running_first:
  "filter currentlyVoting pre = [] \<Longrightarrow> currentlyVoting c \<Longrightarrow>
     vote_running handlers cfg session sender line (pre @ c # post)
       = rbind (processVote handlers cfg session sender line c) (\<lambda>(c', es). Inr (Some (pre @ c' # post, es)))"
  by (induction pre) (auto simp: rbind_def split: sum.split prod.split if_splits)

lemma handleChatMessage_yes:
  assumes "says_yes m" "chatCommandsActive s" "ChatCommandList s = pre @ c # post"
    and "filter currentlyVoting pre = []" "currentlyVoting c"
  shows "\<exists>line. map tolower line = ''yes''
    \<and> handleChatMessage handlers cfg session now m peer s
     = rbind (processVote handlers cfg session (of_int peer) line c)
         (\<lambda>(c', es). Inr (True, s\<lparr>ChatCommandList := pre @ c' # post\<rparr>, es))"
proof -
  from assms(1) obtain line where l: "Trim (c_str (Body m)) True = CHR ''!'' # line" "map tolower line = ''yes''"
    by (auto simp: says_yes_def split: list.splits)
  then have "line \<noteq> ''help''" "line \<noteq> ''list''" "line \<noteq> ''listPlayers''"
    by (auto simp: tolower_def isupper_def ord_of_def)
  with l assms(2) have "handleChatMessage handlers cfg session now m peer s
     = rbind (processVote handlers cfg session (of_int peer) line c)
         (\<lambda>(c', es). Inr (True, s\<lparr>ChatCommandList := pre @ c' # post\<rparr>, es))"
    by (cases "processVote handlers cfg session (of_int peer) line c")
      (simp_all add: handleChatMessage_def assms(3) vote_running_first [OF assms(4,5)] case_prod_beta)
  with l(2) show ?thesis by (intro exI [of _ line] conjI)
qed

lemma yes_from_passes:
  assumes "says_yes m" "chatCommandsActive s" "ChatCommandList s = pre @ c # post"
    and "filter currentlyVoting pre = []" "currentlyVoting c" "isEnabled cfg (kind c)"
    and "chat_vote_ok c" "\<forall>p \<in> set ps. p < length (PlayerSessions session) \<and> p < 256"
    and "distinct (yesVoters c @ map (\<lambda>p. Uid (PlayerSessions session ! p)) ps)"
    and "0 \<notin> set (map (\<lambda>p. Uid (PlayerSessions session ! p)) ps)"
    and "length (yesVoters c) + length ps = unat (votesNeeded c)"
  shows "\<exists>s' es. yes_from handlers cfg session now m ps s = Inr (s', es) \<and> Executed (passed_line c) \<in> set es"
  using assms
proof (induction ps arbitrary: s c)
  case Nil
  from Nil.prems(5,7,11) show ?case by (simp add: chat_vote_ok_def)
next
  case (Cons p ps)
  obtain line where l: "map tolower line = ''yes''" "handleChatMessage handlers cfg session now m (int p) s
     = rbind (processVote handlers cfg session (of_int (int p)) line c)
         (\<lambda>(c', es). Inr (True, s\<lparr>ChatCommandList := pre @ c' # post\<rparr>, es))"
    using handleChatMessage_yes [OF Cons.prems(1-5), where peer = "int p" and handlers = handlers and cfg = cfg
        and session = session and now = now] by (elim exE conjE) (rule that)
  let ?u = "Uid (PlayerSessions session ! p)"
  let ?c1 = "c\<lparr>yesVoters := yesVoters c @ [?u]\<rparr>"
  have p: "uint (of_int (int p) :: u8) = int p" "p < length (PlayerSessions session)"
    using Cons.prems(8) by (simp_all add: unsigned_of_nat take_bit_nat_eq_self)
  have u: "?u \<noteq> 0" "?u \<notin> set (yesVoters c)" using Cons.prems(9,10) by auto
  have pv: "processVote handlers cfg session (of_int (int p)) line c
      = (if uint (votesNeeded c) \<le> int (length (yesVoters c)) + 1
         then (let (c2, es) = doOnVotePass handlers session ?c1 in Inr (endVoting c2, es))
         else Inr (?c1, say handlers session (''Vote Cast. Remaining Votes Needed: ''
               @ to_string32 (votesNeeded c - of_nat (length (yesVoters c) + 1)))))"
    unfolding processVote_def p(1) using Cons.prems(6) l(1) u p(2)
    by (simp add: array_at_nat Let_def add.commute)
  have same: "passed_line ?c1 = passed_line c" by (cases "kind c") (simp_all add: passed_line_def)
  show ?case
  proof (cases "ps = []")
    case True
    then have "uint (votesNeeded c) \<le> int (length (yesVoters c)) + 1"
      using Cons.prems(11) by (metis One_nat_def length_Cons list.size(3) of_nat_1 of_nat_add order_refl uint_nat)
    moreover have "Executed (passed_line c) \<in> set (snd (doOnVotePass handlers session ?c1))"
      unfolding doOnVotePass_executes same ..
    ultimately show ?thesis using True by (simp add: l(2) pv [simplified] case_prod_beta)
  next
    case False
    have need: "\<not> uint (votesNeeded c) \<le> int (length (yesVoters c)) + 1"
    proof -
      have "0 < length ps" using False by simp
      moreover have "uint (votesNeeded c) = int (length (yesVoters c) + Suc (length ps))"
        using arg_cong [OF Cons.prems(11), of int] by simp
      ultimately show ?thesis by simp
    qed
    have "\<exists>s' es. yes_from handlers cfg session now m ps (s\<lparr>ChatCommandList := pre @ ?c1 # post\<rparr>) = Inr (s', es)
        \<and> Executed (passed_line ?c1) \<in> set es"
    proof (rule Cons.IH)
      show "chat_vote_ok ?c1"
        using Cons.prems(5,7) u need by (simp add: chat_vote_ok_def)
      show "0 \<notin> set (map (\<lambda>p. Uid (PlayerSessions session ! p)) ps)" using Cons.prems(10) by simp
      show "distinct (yesVoters ?c1 @ map (\<lambda>p. Uid (PlayerSessions session ! p)) ps)"
        using Cons.prems(9) by simp
      show "length (yesVoters ?c1) + length ps = unat (votesNeeded ?c1)" using Cons.prems(11) by simp
      show "\<forall>p \<in> set ps. p < length (PlayerSessions session) \<and> p < 256" using Cons.prems(8) by simp
    qed (use Cons.prems(1,2,4-6) in simp_all)
    then show ?thesis unfolding same using need by (auto simp: l(2) pv [simplified])
  qed
qed

lemma start_votes_needed:
  assumes "start_votes handlers cfg session now sender cmd args cs vts = Inr (cs', vts', es)"
    and "filter currentlyVoting cs = []" "c \<in> set cs'" "currentlyVoting c"
  shows "\<exists>n. findNumberOfPlayersInGame (Some session) = Inr n \<and> votesNeeded c = votes_needed n (VotePassPercentage cfg)"
  using assms
proof (induction cs arbitrary: vts cs' es)
  case (Cons elem rest)
  have started: "\<exists>n. findNumberOfPlayersInGame (Some session) = Inr n \<and> votesNeeded c = votes_needed n (VotePassPercentage cfg)"
    if p: "processMessage handlers cfg session now sender arg elem vts = Inr (c, vts1, es1)" for arg vts1 es1
    using p
  proof (cases rule: processMessage_cases)
    case (too_soon c1 player)
    then show ?thesis using isValidArgument_keeps [OF too_soon(1)] Cons.prems(2,4) by (simp split: if_splits)
  qed (use Cons.prems(2,4) in \<open>auto split: if_splits\<close>)
  show ?case using Cons.prems started Cons.IH by (auto simp: rbind_Inr_iff split: if_splits)
qed simp

lemma started_vote:
  assumes "chat_reachable s0" "filter currentlyVoting (ChatCommandList s0) = []"
    and "handleChatMessage handlers cfg session now m peer s0 = Inr (handled, s, es)"
    and "c \<in> set (ChatCommandList s)" "currentlyVoting c"
  shows "yesVoters c = []
    \<and> (\<exists>n. findNumberOfPlayersInGame (Some session) = Inr n \<and> votesNeeded c = votes_needed n (VotePassPercentage cfg))"
  using assms(3)
proof (cases rule: handleChatMessage_cases)
  case nothing
  then show ?thesis using assms(2,4,5) by (auto simp: filter_empty_conv)
next
  case (vote pre c0 post c')
  then show ?thesis using assms(2) by simp
next
  case (start arg0 args cmds vts)
  have c: "c \<in> set cmds" using assms(4) start(4) by simp
  have "map yesVoters cmds = map yesVoters (ChatCommandList s0)" using start_votes_counts [OF start(3)] .
  then have "set (map yesVoters cmds) = set (map yesVoters (ChatCommandList s0))" by simp
  moreover have "set (map yesVoters (ChatCommandList s0)) \<subseteq> {[]}"
    using chat_reachable_ok [OF assms(1)] assms(2) by (auto simp: chat_votes_ok_def chat_vote_ok_def filter_empty_conv)
  ultimately have "yesVoters c = []" using c by auto
  with start_votes_needed [OF start(3,2) c assms(5)] show ?thesis by blast
qed

lemma count_players_le: "count_players session ps k = Inr n \<Longrightarrow> n \<le> k + length ps"
  by (induction ps arbitrary: k) (auto simp: rbind_Inr_iff split: if_splits, force+)

lemma players_in_game_le:
  "findNumberOfPlayersInGame (Some session) = Inr n \<Longrightarrow> n \<le> length (connected_peers session)"
  using count_players_le [of session "connected_peers session" 0 n]
  by (simp add: findNumberOfPlayersInGame_def split: if_splits)

text \<open>C34. A vote that is put to the players can be won. When a message starts a vote, the vote needs one
  yes and the configured share of the other players in the game, so never more than there are players;
  and when that many players, pairwise different and with UIDs, then type yes one after the other, the command
  of the vote is run. The share is at most 100 percent, at least one player is in the game, at most 17 peers are connected, the command is still
  switched on, and nothing else happens between the votes. A vote counts for the UID in the player slot that has
  the number of the peer, so the voters are given by their slots.\<close>

theorem enough_yes_votes_pass:
  assumes "chat_reachable s0" "filter currentlyVoting (ChatCommandList s0) = []"
    and "handleChatMessage handlers cfg0 session0 now0 m0 peer s0 = Inr (handled, s, es0)"
    and "c \<in> set (ChatCommandList s)" "currentlyVoting c"
    and "findNumberOfPlayersInGame (Some session0) = Inr n" "1 \<le> n" "unat (VotePassPercentage cfg0) \<le> 100"
    and "length (connected_peers session0) \<le> 17"
  shows "unat (votesNeeded c) = 1 + (n - 1) * unat (VotePassPercentage cfg0) div 100
    \<and> unat (votesNeeded c) \<le> n
    \<and> (isEnabled cfg (kind c) \<and> says_yes m \<and> length ps = unat (votesNeeded c)
       \<and> (\<forall>p \<in> set ps. p < length (PlayerSessions session) \<and> p < 256 \<and> Uid (PlayerSessions session ! p) \<noteq> 0)
       \<and> distinct (map (\<lambda>p. Uid (PlayerSessions session ! p)) ps)
       \<longrightarrow> (\<exists>s' es. yes_from handlers cfg session now m ps s = Inr (s', es) \<and> Executed (passed_line c) \<in> set es))"
proof -
  have r: "chat_reachable s" using assms(1,3) by (rule chat_reachable.message)
  then have ok: "chat_votes_ok s" by (rule chat_reachable_ok)
  from assms(4) obtain pre post where l: "ChatCommandList s = pre @ c # post" by (meson split_list)
  have o: "filter currentlyVoting pre = []"
    using filter_one [of currentlyVoting pre c post] ok l assms(5) by (simp add: chat_votes_ok_def)
  have a: "chatCommandsActive s" "chat_vote_ok c" using ok l assms(5) by (auto simp: chat_votes_ok_def)
  from started_vote [OF assms(1-5)] have y: "yesVoters c = []"
    and n: "votesNeeded c = votes_needed n (VotePassPercentage cfg0)" using assms(6) by auto
  have "n \<le> 17" using players_in_game_le [OF assms(6)] assms(9) by simp
  note count = votes_needed_attainable [OF assms(7) this assms(8)]
  have "\<exists>s' es. yes_from handlers cfg session now m ps s = Inr (s', es) \<and> Executed (passed_line c) \<in> set es"
    if "isEnabled cfg (kind c)" "says_yes m" "length ps = unat (votesNeeded c)"
      "\<forall>p \<in> set ps. p < length (PlayerSessions session) \<and> p < 256 \<and> Uid (PlayerSessions session ! p) \<noteq> 0"
      "distinct (map (\<lambda>p. Uid (PlayerSessions session ! p)) ps)"
    using that y by (intro yes_from_passes [OF that(2) a(1) l o assms(5) that(1) a(2)]) auto
  with count n show ?thesis by auto
qed

subsection \<open>The kick votes\<close>

text \<open>The words of a name, the first one begun already.\<close>

fun words_from :: "string \<Rightarrow> string \<Rightarrow> string list" where
  "words_from part [] = [part]"
| "words_from part (c # cs) = (if c = CHR '' '' then part # words_from [] cs else words_from (part @ [c]) cs)"

definition plain_char :: "char \<Rightarrow> bool" where
  "plain_char c \<longleftrightarrow> c \<noteq> CHR 0x22 \<and> \<not> argv_blank c \<and> c \<noteq> NUL"

fun spaced_text :: "string \<Rightarrow> bool" where
  "spaced_text [] = True"
| "spaced_text (c # cs) \<longleftrightarrow> (if c = CHR '' '' then cs \<noteq> [] \<and> plain_char (hd cs) else plain_char c) \<and> spaced_text cs"

lemma words_from_join: "concat (map (\<lambda>w. w @ '' '') (words_from part t)) = part @ t @ '' ''"
  by (induction part t rule: words_from.induct) simp_all

lemma words_from_Join: "Join (words_from part t) '' '' = Inr (part @ t)"
  by (simp add: Join_def words_from_join butlast_append)

lemma words_from_nonempty: "words_from part t \<noteq> []"
  by (induction part t rule: words_from.induct) simp_all

lemma words_from_no_nul:
  "NUL \<notin> set part \<Longrightarrow> NUL \<notin> set t \<Longrightarrow> w \<in> set (words_from part t) \<Longrightarrow> NUL \<notin> set w"
  by (induction part t rule: words_from.induct) (auto split: if_splits)

lemma plain_space: "\<not> plain_char (CHR '' '')" "argv_blank (CHR '' '')"
  by (simp_all add: plain_char_def argv_blank_def)

text \<open>The state of the splitter after a text: the last word is still open.\<close>

definition open_words :: "string list \<Rightarrow> string list \<Rightarrow> ArgvState" where
  "open_words toks ws = inside (toks @ butlast ws) (last ws) False"

lemma open_words_Cons: "ws \<noteq> [] \<Longrightarrow> open_words (toks @ [part]) ws = open_words toks (part # ws)"
  by (simp add: open_words_def)

lemma fold_spaced:
  "spaced_text t \<Longrightarrow> foldl argv_step (inside toks part False) t = open_words toks (words_from part t)"
  "spaced_text t \<Longrightarrow> t \<noteq> [] \<Longrightarrow> plain_char (hd t) \<Longrightarrow>
     foldl argv_step (between toks) t = open_words toks (words_from [] t)"
proof (induction t arbitrary: toks part)
  case (Cons c cs)
  { case 1
    show ?case
    proof (cases "c = CHR '' ''")
      case True
      then show ?thesis using 1 Cons.IH(2) [of "toks @ [part]"] plain_space
        by (simp add: step_blank open_words_Cons words_from_nonempty)
    next
      case False
      then show ?thesis using 1 Cons.IH(1) by (simp add: step_plain plain_char_def)
    qed }
  { case 2
    then have "c \<noteq> CHR '' ''" using plain_space by auto
    then show ?case using 2 Cons.IH(1) by (simp add: step_plain plain_char_def) }
qed (simp_all add: open_words_def)

lemma CommandLineToArgvA_open:
  assumes "argv_scan line = open_words toks ws" "ws \<noteq> []" "\<forall>t \<in> set (toks @ ws). NUL \<notin> set t"
  shows "CommandLineToArgvA line = toks @ ws"
proof -
  define all where "all = toks @ ws"
  have all: "all = (toks @ butlast ws) @ [last ws]" using assms(2) by (simp add: all_def)
  have buf: "out_text (argv_scan line) @ [NUL] = token_text all"
    unfolding assms(1) open_words_def all inside_def by (simp add: token_text_def)
  have starts: "arg_starts (argv_scan line) = offsets all"
    unfolding assms(1) open_words_def all offsets_snoc inside_def by simp
  have nul: "\<forall>t \<in> set all. NUL \<notin> set t" using assms(3) by (simp add: all_def)
  have "map (\<lambda>i. c_str (drop i (token_text all))) (offsets all) = all"
  proof (rule nth_equalityI)
    fix n assume "n < length (map (\<lambda>i. c_str (drop i (token_text all))) (offsets all))"
    then have n: "n < length all" by (simp add: offsets_def)
    then have "NUL \<notin> set (all ! n)" using nul by simp
    then show "map (\<lambda>i. c_str (drop i (token_text all))) (offsets all) ! n = all ! n"
      using n drop_token [OF n] by (simp add: offsets_def c_str_append_nul flip: token_text_def)
  qed (simp add: offsets_def)
  then show ?thesis unfolding CommandLineToArgvA_def Let_def buf starts by (simp add: all_def)
qed

lemma command_line_words:
  assumes "spaced_text t" "t \<noteq> []" "plain_char (hd t)" "cmd \<noteq> []" "\<forall>c \<in> set cmd. plain_char c"
  shows "CommandLineToArgvA (cmd @ '' '' @ t) = cmd # words_from [] t"
proof -
  have "NUL \<notin> set t" using assms(1) by (induction t) (auto simp: plain_char_def NUL_def split: if_splits)
  moreover have "NUL \<notin> set cmd" using assms(5) by (auto simp: plain_char_def)
  ultimately have "c_str (cmd @ '' '' @ t) = cmd @ '' '' @ t"
    and nul: "\<forall>w \<in> set ([cmd] @ words_from [] t). NUL \<notin> set w"
    by (auto simp: c_str_id NUL_def words_from_no_nul) (metis NUL_def empty_iff empty_set words_from_no_nul)
  moreover have "foldl argv_step (between []) (cmd @ '' '') = between ([] @ [cmd])"
    using assms(4,5) plain_space by (intro fold_plain_arg) (auto simp: plain_char_def)
  ultimately have "argv_scan (cmd @ '' '' @ t) = open_words [cmd] (words_from [] t)"
    using fold_spaced(2) [OF assms(1-3), of "[cmd]"] by (simp add: argv_scan_def argv_init_between)
  from CommandLineToArgvA_open [OF this words_from_nonempty nul] show ?thesis by simp
qed

lemma thin_char:
  assumes "w = 32 \<or> name_char w"
  shows "char_of (unat w) = CHR '' '' \<longleftrightarrow> w = 32" "name_char w \<Longrightarrow> plain_char (char_of (unat w))"
proof -
  have l: "unat w < 256" using assms name_char_ord [of w] by auto
  show "char_of (unat w) = CHR '' '' \<longleftrightarrow> w = 32"
    by (simp add: char_of_eq_ord [OF l] word_unat_eq_iff) (simp add: ord_of_def eq_commute)
  show "plain_char (char_of (unat w))" if "name_char w"
    using name_char_ord [OF that]
    by (simp add: plain_char_def argv_blank_def NUL_def char_of_eq_ord [OF l]) (simp add: ord_of_def)
qed

lemma spaced_thin:
  "well_spaced ws \<Longrightarrow> spaced_text (map (\<lambda>w. char_of (unat w)) ws)"
proof (induction ws)
  case (Cons w ws)
  then have "w = 32 \<or> name_char w" by (auto split: if_splits)
  note t = thin_char [OF this]
  from Cons.prems have "w = 32 \<Longrightarrow> ws \<noteq> [] \<and> name_char (hd ws)" by (simp split: if_splits)
  with Cons t thin_char(2) [of "hd ws"] show ?case
    by (auto simp: hd_map split: if_splits)
qed simp

lemma proper_name_text:
  assumes "proper_name nm"
  shows "spaced_text (thin nm)" "thin nm \<noteq> []" "plain_char (hd (thin nm))"
  using assms spaced_thin thin_char(2) [of "hd (wide_str nm)"]
  by (auto simp: thin_def proper_name_def hd_map)

definition kick_command :: string where
  "kick_command = ''server.KickTempBanPlayer''"

lemma kick_line_words:
  assumes "proper_name nm"
  shows "CommandLineToArgvA (kick_command @ '' '' @ thin nm) = kick_command # words_from [] (thin nm)"
    and "Join (words_from [] (thin nm)) '' '' = Inr (thin nm)"
proof -
  have "\<forall>c \<in> set kick_command. plain_char c"
    by (simp add: kick_command_def plain_char_def argv_blank_def NUL_def)
  moreover have "kick_command \<noteq> []" by (simp add: kick_command_def)
  ultimately show "CommandLineToArgvA (kick_command @ '' '' @ thin nm) = kick_command # words_from [] (thin nm)"
    by (intro command_line_words proper_name_text [OF assms])
  show "Join (words_from [] (thin nm)) '' '' = Inr (thin nm)" by (simp add: words_from_Join)
qed

lemma join_after_temp_ban:
  "IPv4 b = IPv4 a \<Longrightarrow> handle_join_request (TempBanIP d (AddressToString a) s) b = JoinRefused (AddressToString a)"
  by (simp add: handle_join_request_def AddressToString_def ToInAddr_def temp.banned_ban)

text \<open>C12. The kick vote and the kick command agree: the line a passed vote runs is split into the name of
  the command and the words of the player's name, whatever name a player can have, and when the
  command it names succeeds on them, the one player it boots has that name and its address cannot join
  again.\<close>

theorem passed_kick_vote_removes_player:
  assumes "chat_reachable s"
    and "handleChatMessage handlers cfg session now message peer s = Inr (handled, s', es)"
    and "Executed x \<in> set es"
    and "\<forall>c \<in> set (ChatCommandList s). currentlyVoting c \<longrightarrow>
          (kind c = KickPlayerCommand \<or> kind c = KickIndexCommand) \<and> playerName c = thin nm"
    and "proper_name nm"
    and "DoKickPlayerCommand TempBan env (tl (CommandLineToArgvA x)) bans = Inr (True, info, bans', boots)"
  shows "hd (CommandLineToArgvA x) = kick_command
    \<and> (\<exists>ses playerIdx addr. Active env = Some ses \<and> boots = [playerIdx]
        \<and> DisplayName (PlayerSessions ses ! nat playerIdx) = thin nm
        \<and> GetPeerAddress ses (GetPlayerPeer ses playerIdx) = Inr addr
        \<and> (\<forall>b. IPv4 b = IPv4 addr \<longrightarrow> handle_join_request bans' b = JoinRefused (AddressToString addr)))"
proof -
  obtain c where "c \<in> set (ChatCommandList s)" "currentlyVoting c" "x = passed_line c"
    using enough_voters [OF assms(1-3)] by blast
  with assms(4) have x: "x = kick_command @ '' '' @ thin nm"
    by (auto simp: passed_line_def kick_command_def)
  note words = kick_line_words [OF assms(5)]
  from assms(6) obtain ses playerIdx addr where k: "Active env = Some ses" "boots = [playerIdx]"
    "Join (words_from [] (thin nm)) '' '' = Inr (DisplayName (PlayerSessions ses ! nat playerIdx))"
    "GetPeerAddress ses (GetPlayerPeer ses playerIdx) = Inr addr"
    "bans' = snd (apply_ban TempBan (TempBanDuration env) (AddressToString addr) bans)"
    unfolding x words(1) list.sel by (rule DoKickPlayerCommand_success)
  have "bans' = TempBanIP (TempBanDuration env) (AddressToString addr) bans" by (simp add: k(5) apply_ban_def)
  with k(1-4) words join_after_temp_ban show ?thesis by (auto simp: x)
qed

text \<open>A chat line of nothing but an exclamation mark, typed while a game runs and no vote does, makes
  the server read the first of no arguments: a null pointer is turned into a string.\<close>

theorem bare_exclamation_mark_faults:
  assumes "chatCommandsActive s" "filter currentlyVoting (ChatCommandList s) = []"
    and "Trim (c_str (Body message)) True = ''!''"
  shows "handleChatMessage handlers cfg session now message peer s = Inl Undefined"
proof -
  have "vote_running handlers cfg session sender line cs = Inr None" if "filter currentlyVoting cs = []" for sender line cs
    using that by (induction cs) (auto split: if_splits)
  moreover have "CommandLineToArgvA [] = []"
    by (simp add: CommandLineToArgvA_def argv_scan_def argv_init_def c_str_def)
  ultimately show ?thesis using assms by (simp add: handleChatMessage_def)
qed

subsection \<open>A kick vote in a session of two\<close>

definition demo_commands :: CommandConfig where
  "demo_commands = \<lparr>KickPlayerEnabled = 1, EndGameEnabled = 1, ShuffleTeamsEnabled = 1,
     ChatCommandVoteTime = 45, VotePassPercentage = 50, IsDedicated = False\<rparr>"

definition demo_in_game :: ChatCommandState where
  "demo_in_game = CommandLifeCycle LifeCycleStartGame (InitChatCommands demo_commands)"

definition demo_kick_vote :: ChatCommand where
  "demo_kick_vote = \<lparr>kind = KickPlayerCommand, currentlyVoting = True, voteTimeStarted = 100, votesNeeded = 1,
     yesVoters = [], playerName = ''Guest''\<rparr>"

definition demo_kicking :: ChatCommandState where
  "demo_kicking = demo_in_game\<lparr>ChatCommandList := demo_kick_vote # map idle_command (tl all_kinds),
     voteTimes := [1 \<mapsto> 100]\<rparr>"

definition chat_line :: "string \<Rightarrow> ChatMessage" where
  "chat_line t = \<lparr>MessageType = ChatGlobal, SenderPlayer = 0, TargetPlayer = 0, Body = t\<rparr>"

lemma demo_in_game_history: "chat_history [] demo_in_game"
  unfolding demo_in_game_def by (rule chat_history.life_cycle [OF chat_history.init])

lemmas demo_in_game_reachable = chat_history_reachable [OF demo_in_game_history]

lemma demo_chars:
  "\<not> isspace (CHR ''s'')" "\<not> isspace (CHR ''!'')" "\<not> isspace (CHR ''t'')"
  "tolower (CHR ''e'') = CHR ''e''" "tolower (CHR ''y'') = CHR ''y''" "tolower (CHR ''s'') = CHR ''s''"
  "tolower (CHR ''k'') = CHR ''k''" "tolower (CHR ''i'') = CHR ''i''" "tolower (CHR ''c'') = CHR ''c''"
  by (simp_all add: isspace_def tolower_def isupper_def ord_of_def)

lemma trim_lines: "Trim (c_str ''!yes'') True = ''!yes''" "Trim (c_str ''!'') True = ''!''"
  "Trim (c_str ''!kick Guest'') True = ''!kick Guest''"
proof -
  have "c_str ''!yes'' = ''!yes''" "c_str ''!'' = ''!''" "c_str ''!kick Guest'' = ''!kick Guest''"
    by (simp_all add: c_str_def NUL_def)
  then show "Trim (c_str ''!yes'') True = ''!yes''" "Trim (c_str ''!'') True = ''!''"
    "Trim (c_str ''!kick Guest'') True = ''!kick Guest''"
    by (simp_all add: Trim_def rtrim_def demo_chars)
qed

lemma demo_player_count: "findNumberOfPlayersInGame (Some demo_session) = Inr 2"
  by (simp add: findNumberOfPlayersInGame_def GetPeerPlayer_def array_at_def demo_player_facts)
    (simp add: demo_session_def PeerIsEstablished_def peer_state_rank_def)

lemma demo_kick_argument: "kick_player_argument demo_commands demo_session ''Guest'' = Inr (Inr ''Guest'')"
  by (simp add: kick_player_argument_def GetPeerPlayer_def array_at_def demo_player_facts demo_player_def)

lemma demo_kick_words: "CommandLineToArgvA ''kick Guest'' = [''kick'', ''Guest'']"
  using command_line_words [of "''Guest''" "''kick''"] by (simp add: plain_char_def argv_blank_def NUL_def)

lemma demo_vote_starts:
  "processMessage [] demo_commands demo_session 100 0 ''Guest'' (idle_command KickPlayerCommand) (\<lambda>_. None)
    = Inr (demo_kick_vote, [1 \<mapsto> 100], doOnVoteStart [] demo_session demo_kick_vote)"
  by (simp add: processMessage_def isEnabled_def demo_commands_def idle_command_def isValidArgument_def
      demo_kick_argument [unfolded demo_commands_def] array_at_def demo_player_facts demo_player_def
      addToVoteTimes_def demo_player_count votes_needed_def demo_kick_vote_def Let_def)

lemma lower_names: "map tolower (getName KickPlayerCommand) = ''kick''"
  "map tolower (getName KickIndexCommand) = ''kickindex''" "map tolower (getName EndGameCommand) = ''endgame''"
  "map tolower (getName ShuffleTeamsCommand) = ''shuffleteams''"
  by code_simp+

lemma demo_start_votes:
  "start_votes [] demo_commands demo_session 100 0 ''kick'' [''Guest''] (map idle_command all_kinds) (\<lambda>_. None)
    = Inr (demo_kick_vote # map idle_command (tl all_kinds), [1 \<mapsto> 100], doOnVoteStart [] demo_session demo_kick_vote)"
proof -
  have k: "kind (idle_command k) = k" for k by (simp add: idle_command_def)
  have j: "Join [''Guest''] '' '' = Inr ''Guest''" by (simp add: Join_def)
  show ?thesis by (simp add: all_kinds_def k lower_names j demo_vote_starts)
qed

lemma demo_kick_line:
  "handleChatMessage [] demo_commands demo_session 100 (chat_line ''!kick Guest'') 0 demo_in_game
    = Inr (True, demo_kicking, doOnVoteStart [] demo_session demo_kick_vote)"
proof -
  have g: "ChatCommandList demo_in_game = map idle_command all_kinds" "chatCommandsActive demo_in_game"
    "voteTimes demo_in_game = (\<lambda>_. None)"
    by (simp_all add: demo_in_game_def CommandLifeCycle_def InitChatCommands_def)
  have r: "vote_running [] demo_commands demo_session 0 line (map idle_command all_kinds) = Inr None" for line
    by (simp add: all_kinds_def idle_command_def)
  have k: "demo_in_game\<lparr>ChatCommandList := demo_kick_vote # map idle_command (tl all_kinds), voteTimes := [1 \<mapsto> 100]\<rparr> = demo_kicking"
    by (simp add: demo_kicking_def)
  show ?thesis
    unfolding handleChatMessage_def Let_def chat_line_def ChatMessage.simps trim_lines g
    using g(2) by (simp add: r demo_kick_words demo_chars demo_start_votes k)
qed

lemma demo_kicking_history: "chat_history [] demo_kicking"
proof -
  have "filter currentlyVoting (ChatCommandList demo_in_game) = []"
    by (simp add: demo_in_game_def CommandLifeCycle_def InitChatCommands_def idle_command_def filter_empty_conv all_kinds_def)
  then show ?thesis using chat_history.message [OF demo_in_game_history demo_kick_line] by simp
qed

lemmas demo_kicking_reachable = chat_history_reachable [OF demo_kicking_history]

lemma demo_kick_passes:
  "\<exists>s' es. handleChatMessage [] demo_commands demo_session 110 (chat_line ''!yes'') 1 demo_kicking = Inr (True, s', es)
     \<and> Executed (kick_command @ '' '' @ ''Guest'') \<in> set es"
proof -
  have a: "array_at (PlayerSessions demo_session) 1 = Inr (demo_player 1 ''Guest'')"
    by (simp add: array_at_def demo_player_facts)
  have p: "processVote [] demo_commands demo_session 1 ''yes'' demo_kick_vote
      = Inr (endVoting (fst (doOnVotePass [] demo_session (demo_kick_vote\<lparr>yesVoters := [2]\<rparr>))),
          snd (doOnVotePass [] demo_session (demo_kick_vote\<lparr>yesVoters := [2]\<rparr>)))"
    by (simp add: processVote_def isEnabled_def demo_kick_vote_def demo_commands_def demo_chars a demo_player_def Let_def
        case_prod_beta)
  have e: "Executed (kick_command @ '' '' @ ''Guest'') \<in> set (snd (doOnVotePass [] demo_session (demo_kick_vote\<lparr>yesVoters := [2]\<rparr>)))"
    unfolding doOnVotePass_executes by (simp add: passed_line_def demo_kick_vote_def kick_command_def)
  have l: "ChatCommandList demo_kicking = demo_kick_vote # map idle_command (tl all_kinds)" "chatCommandsActive demo_kicking"
    "currentlyVoting demo_kick_vote"
    by (simp_all add: demo_kicking_def demo_in_game_def CommandLifeCycle_def InitChatCommands_def demo_kick_vote_def)
  show ?thesis
    unfolding handleChatMessage_def Let_def chat_line_def ChatMessage.simps trim_lines l
    using e l(2,3) by (simp add: p)
qed

lemma demo_kicking_votes:
  "c \<in> set (ChatCommandList demo_kicking) \<Longrightarrow> currentlyVoting c \<Longrightarrow> c = demo_kick_vote"
  by (auto simp: demo_kicking_def all_kinds_def idle_command_def)

lemma demo_kick_line_passed: "passed_line demo_kick_vote = kick_command @ '' '' @ ''Guest''"
  by (simp add: passed_line_def demo_kick_vote_def kick_command_def)

theorem vote_passes_with_enough_voters_witness:
  "\<exists>s' es. handleChatMessage [] demo_commands demo_session 110 (chat_line ''!yes'') 1 demo_kicking = Inr (True, s', es)
     \<and> Executed (kick_command @ '' '' @ ''Guest'') \<in> set es \<and> filter currentlyVoting (ChatCommandList s') = []"
proof -
  obtain s' es where h: "handleChatMessage [] demo_commands demo_session 110 (chat_line ''!yes'') 1 demo_kicking = Inr (True, s', es)"
    "Executed (kick_command @ '' '' @ ''Guest'') \<in> set es" using demo_kick_passes by blast
  from vote_passes_with_enough_voters [OF demo_kicking_history h] h show ?thesis by blast
qed

theorem enough_yes_votes_pass_witness:
  "unat (votesNeeded demo_kick_vote) \<le> 2
   \<and> (\<exists>s' es. yes_from [] demo_commands demo_session 110 (chat_line ''!yes'') [1] demo_kicking = Inr (s', es)
        \<and> Executed (kick_command @ '' '' @ ''Guest'') \<in> set es)"
proof -
  have idle: "filter currentlyVoting (ChatCommandList demo_in_game) = []"
    by (simp add: demo_in_game_def CommandLifeCycle_def InitChatCommands_def idle_command_def filter_empty_conv all_kinds_def)
  have c: "demo_kick_vote \<in> set (ChatCommandList demo_kicking)" "currentlyVoting demo_kick_vote"
    by (simp_all add: demo_kicking_def demo_kick_vote_def)
  have two: "(1::nat) \<le> 2" "unat (VotePassPercentage demo_commands) \<le> 100"
    "length (connected_peers demo_session) \<le> 17" by (simp_all add: demo_commands_def demo_session_def)
  have p: "isEnabled demo_commands (kind demo_kick_vote)" "says_yes (chat_line ''!yes'')"
    "length [1::nat] = unat (votesNeeded demo_kick_vote)"
    "\<forall>p \<in> set [1]. p < length (PlayerSessions demo_session) \<and> p < 256 \<and> Uid (PlayerSessions demo_session ! p) \<noteq> 0"
    "distinct (map (\<lambda>p. Uid (PlayerSessions demo_session ! p)) [1])"
    by (simp_all add: demo_player_facts demo_player_def demo_kick_vote_def isEnabled_def demo_commands_def
        says_yes_def chat_line_def trim_lines demo_chars)
  from enough_yes_votes_pass [OF demo_in_game_reachable idle demo_kick_line c demo_player_count two]
  show ?thesis using p unfolding demo_kick_line_passed by blast
qed

lemma thin_Guest: "proper_name (wide ''Guest'')" "thin (wide ''Guest'') = ''Guest''"
  by (simp_all add: wide_def proper_name_def thin_def wide_str_def name_char_def DisallowedNameChars_def
      char_of_eq_ord ord_of_def)

lemma demo_temp_kick:
  "DoKickPlayerCommand TempBan demo_env [''Guest''] \<lparr>banFile = None, tempBans = []\<rparr>
     = Inr (True, ''Added IP '' @ AddressToString (FromInAddr 0x0200A8C0 11774) @ '' to the temp ban list'' @ nl @ kick_text ''Guest'' 1,
         TempBanIP 2 (AddressToString (FromInAddr 0x0200A8C0 11774)) \<lparr>banFile = None, tempBans = []\<rparr>, [1])"
  by (simp add: DoKickPlayerCommand_def demo_env_def hosting_def Join_def FindPlayerByName_def GetPeerPlayer_def
      array_at_def demo_player_facts demo_player_def peer_ip_def GetPeerAddress_def GetPlayerPeer_def apply_ban_def)

theorem passed_kick_vote_removes_player_witness:
  "\<exists>info bans'. DoKickPlayerCommand TempBan demo_env (tl (CommandLineToArgvA (kick_command @ '' '' @ ''Guest'')))
       \<lparr>banFile = None, tempBans = []\<rparr> = Inr (True, info, bans', [1])
     \<and> (\<exists>addr. \<forall>b. IPv4 b = IPv4 addr \<longrightarrow> handle_join_request bans' b = JoinRefused (AddressToString addr))"
proof -
  obtain s' es where h: "handleChatMessage [] demo_commands demo_session 110 (chat_line ''!yes'') 1 demo_kicking = Inr (True, s', es)"
    "Executed (kick_command @ '' '' @ ''Guest'') \<in> set es" using demo_kick_passes by blast
  have v: "\<forall>c \<in> set (ChatCommandList demo_kicking). currentlyVoting c \<longrightarrow>
      (kind c = KickPlayerCommand \<or> kind c = KickIndexCommand) \<and> playerName c = thin (wide ''Guest'')"
  proof (intro ballI impI)
    fix c assume "c \<in> set (ChatCommandList demo_kicking)" "currentlyVoting c"
    then have "c = demo_kick_vote" by (rule demo_kicking_votes)
    then show "(kind c = KickPlayerCommand \<or> kind c = KickIndexCommand) \<and> playerName c = thin (wide ''Guest'')"
      by (simp add: thin_Guest demo_kick_vote_def)
  qed
  have "CommandLineToArgvA (kick_command @ '' '' @ ''Guest'') = [kick_command, ''Guest'']"
    using kick_line_words(1) [OF thin_Guest(1)] by (simp add: thin_Guest)
  then have k: "tl (CommandLineToArgvA (kick_command @ '' '' @ ''Guest'')) = [''Guest'']" by simp
  from passed_kick_vote_removes_player [OF demo_kicking_reachable h v thin_Guest(1), unfolded k, OF demo_temp_kick]
  show ?thesis unfolding k using demo_temp_kick by blast
qed

theorem bare_exclamation_mark_faults_witness:
  "handleChatMessage [] demo_commands demo_session 100 (chat_line ''!'') 1 demo_in_game = Inl Undefined"
proof -
  have "chatCommandsActive demo_in_game" "filter currentlyVoting (ChatCommandList demo_in_game) = []"
    by (simp_all add: demo_in_game_def CommandLifeCycle_def InitChatCommands_def all_kinds_def idle_command_def)
  moreover have "Trim (c_str (Body (chat_line ''!''))) True = ''!''" by (simp add: chat_line_def trim_lines)
  ultimately show ?thesis by (rule bare_exclamation_mark_faults)
qed

subsection \<open>What the votes get wrong\<close>

text \<open>The sender is the number of a peer, but it is used as the number of a player: a vote counts for
  whoever sits in the player slot of that number, and a peer without such a slot faults.\<close>

lemma vote_counts_for_player_slot:
  assumes "isEnabled cfg (kind c)" "map tolower m = ''yes''" "unat sender < length (PlayerSessions session)"
    and "Uid (PlayerSessions session ! unat sender) = u" "u \<noteq> 0" "u \<notin> set (yesVoters c)"
    and "processVote handlers cfg session sender m c = Inr (c', es)" "currentlyVoting c'"
  shows "yesVoters c' = yesVoters c @ [u]"
proof -
  have "nat (uint sender) = unat sender" by simp
  then have "array_at (PlayerSessions session) (uint sender) = Inr (PlayerSessions session ! unat sender)"
    using assms(3) by (simp add: array_at_def)
  with assms show ?thesis by (auto simp: processVote_def Let_def case_prod_beta split: if_splits)
qed

lemma vote_of_last_peer_faults:
  "length (PlayerSessions session) = MaxPlayers \<Longrightarrow> isEnabled cfg (kind c) \<Longrightarrow>
     processVote handlers cfg session 16 ''yes'' c = Inl Undefined"
  by (simp add: processVote_def array_at_def demo_chars)

text \<open>A command that is switched off while its vote runs answers no more votes and no longer times out:
  until the game ends, every other chat command is swallowed.\<close>

lemma disabled_vote_blocks:
  assumes "chatCommandsActive s" "ChatCommandList s = pre @ c # post" "filter currentlyVoting pre = []"
    and "currentlyVoting c" "\<not> isEnabled cfg (kind c)"
    and "Trim (c_str (Body m)) True = CHR ''!'' # line" "line \<noteq> ''help''" "line \<noteq> ''listPlayers''" "line \<noteq> ''list''"
  shows "handleChatMessage handlers cfg session now m peer s = Inr (True, s, [])"
    and "command_tick handlers cfg session now c = (c, [])"
proof -
  have "s\<lparr>ChatCommandList := pre @ c # post\<rparr> = s" using assms(2) by (cases s) simp
  then show "handleChatMessage handlers cfg session now m peer s = Inr (True, s, [])"
    using assms by (simp add: handleChatMessage_def vote_running_first processVote_def)
  show "command_tick handlers cfg session now c = (c, [])"
    using assms(5) by (simp add: command_tick_def)
qed

text \<open>The same player cannot start two votes of a game within 90 seconds.\<close>

lemma vote_start_rate:
  "addToVoteTimes u now vts = (True, vts') \<Longrightarrow> addToVoteTimes u later vts' = (True, vts'') \<Longrightarrow> now + 90 \<le> later"
  by (auto simp: addToVoteTimes_def split: option.splits if_splits)

end
