(* ===== verification/PlayerProperties.thy ===== *)
theory PlayerProperties
  imports PlayerNames VotingPackets StdNum
begin

text \<open>
  The player properties a client sends the host: \<open>Patches/PlayerPropertiesExtension.hpp\<close> and \<open>.cpp\<close> (the
  list of extensions that add data to the packet), \<open>Patches/Armor.cpp\<close> and \<open>Patches/PlayerUid.cpp\<close> (the
  two extensions), and the hooks of \<open>Patches/Network.cpp\<close> that build, send and apply the packet. The
  data of the extensions is the raw bytes the source casts to its structures.
\<close>

subsection \<open>The data\<close>

record PlayerCustomization =
  Colors :: "u32 list"
  Armor :: "u8 list"
  Unknown1C :: u32

record PlayerProps =
  ClientName :: "wchar list"
  PropName :: "wchar list"
  PropUid :: u64
  PlayerRepresentation :: u8
  Customization :: PlayerCustomization

text \<open>\<open>PlayerCustomization\<close> takes 32 bytes; the byte after the armor is padding.\<close>

definition sizeof_PlayerCustomization :: nat where "sizeof_PlayerCustomization = 32"

definition ColorCount :: nat where [simp]: "ColorCount = 5"

definition ArmorCount :: nat where [simp]: "ArmorCount = 7"

definition customization_bytes :: "PlayerCustomization \<Rightarrow> u8 list" where
  "customization_bytes c = concat (map (le_bytes 4) (Colors c)) @ Armor c @ [0] @ le_bytes 4 (Unknown1C c)"

definition bytes_customization :: "u8 list \<Rightarrow> PlayerCustomization" where
  "bytes_customization bs =
     \<lparr>Colors = map (\<lambda>i. le_word (take 4 (drop (4 * i) bs))) [0..<5],
      Armor = take 7 (drop 20 bs), Unknown1C = le_word (take 4 (drop 28 bs))\<rparr>"

subsection \<open>The list of extensions\<close>

record ('e, 'r) Extension =
  BuildData :: "int \<Rightarrow> u8 list res"
  GetDataSize :: nat
  ApplyData :: "int \<Rightarrow> PlayerProps \<Rightarrow> u8 list \<Rightarrow> PlayerProps"
  SerializeData :: "('e, 'r) StreamOps \<Rightarrow> 'e BitStream \<Rightarrow> u8 list \<Rightarrow> 'e BitStream"
  DeserializeData :: "('e, 'r) StreamOps \<Rightarrow> 'r \<Rightarrow> u8 list \<times> 'r"

primrec GetTotalSize :: "('e, 'r) Extension list \<Rightarrow> nat" where
  "GetTotalSize [] = 0"
| "GetTotalSize (x # xs) = GetDataSize x + GetTotalSize xs"

primrec ExtenderBuildData :: "('e, 'r) Extension list \<Rightarrow> int \<Rightarrow> u8 list res" where
  "ExtenderBuildData [] playerIndex = Inr []"
| "ExtenderBuildData (x # xs) playerIndex =
     rbind (BuildData x playerIndex) (\<lambda>d.
     rbind (ExtenderBuildData xs playerIndex) (\<lambda>rest. Inr (d @ rest)))"

primrec ExtenderApplyData :: "('e, 'r) Extension list \<Rightarrow> int \<Rightarrow> PlayerProps \<Rightarrow> u8 list \<Rightarrow> PlayerProps" where
  "ExtenderApplyData [] playerIndex properties ptr = properties"
| "ExtenderApplyData (x # xs) playerIndex properties ptr =
     ExtenderApplyData xs playerIndex (ApplyData x playerIndex properties (take (GetDataSize x) ptr))
       (drop (GetDataSize x) ptr)"

primrec ExtenderSerializeData :: "('e, 'r) Extension list \<Rightarrow> ('e, 'r) StreamOps \<Rightarrow> 'e BitStream \<Rightarrow> u8 list
    \<Rightarrow> 'e BitStream" where
  "ExtenderSerializeData [] E stream ptr = stream"
| "ExtenderSerializeData (x # xs) E stream ptr =
     ExtenderSerializeData xs E (SerializeData x E stream (take (GetDataSize x) ptr)) (drop (GetDataSize x) ptr)"

primrec ExtenderDeserializeData :: "('e, 'r) Extension list \<Rightarrow> ('e, 'r) StreamOps \<Rightarrow> 'r \<Rightarrow> u8 list \<times> 'r" where
  "ExtenderDeserializeData [] E stream = ([], stream)"
| "ExtenderDeserializeData (x # xs) E stream =
     (let (d, r1) = DeserializeData x E stream; (rest, r2) = ExtenderDeserializeData xs E r1 in (d @ rest, r2))"

subsection \<open>Armor\<close>

definition MaxArmorIndices :: "u8 list" where
  "MaxArmorIndices = [81, 82, 82, 50, 52, 24, 4]"

text \<open>The seven tables from armor names to indices, in the order of the pieces, and the preferences.\<close>

type_synonym ArmorTable = "(string \<times> u8) list"

record PlayerVars =
  VarColorsPrimary :: string
  VarColorsSecondary :: string
  VarColorsLights :: string
  VarColorsVisor :: string
  VarColorsHolo :: string
  VarArmor :: "string list"
  VarRepresentation :: string

definition GetArmorIndex :: "string \<Rightarrow> ArmorTable \<Rightarrow> u8" where
  "GetArmorIndex n Indices = (case map_of Indices n of Some i \<Rightarrow> i | None \<Rightarrow> 0)"

definition ValidateArmorPiece :: "ArmorTable \<Rightarrow> u8 \<Rightarrow> u8" where
  "ValidateArmorPiece indices index = (if index \<in> set (map snd indices) then index else 0)"

text \<open>The permutations of a piece: whether it has a first-person model or a third-person object, and
  its name. \<open>emplace\<close> keeps the first entry of a name; the position is stored in a byte.\<close>

definition emplace :: "string \<Rightarrow> u8 \<Rightarrow> ArmorTable \<Rightarrow> ArmorTable" where
  "emplace k v t = (if map_of t k = None then t @ [(k, v)] else t)"

definition AddArmorPermutations :: "(bool \<times> bool \<times> string) list \<Rightarrow> ArmorTable \<Rightarrow> ArmorTable" where
  "AddArmorPermutations perms table =
     foldl (\<lambda>t (i, fp, tp, n). if \<not> fp \<and> \<not> tp then t else emplace n (of_nat i) t) table (enumerate 0 perms)"

definition stoi_hex :: "string \<Rightarrow> int res" where
  "stoi_hex s = (case scan_number 16 s of
     None \<Rightarrow> Inl InvalidArgument
   | Some (neg, n) \<Rightarrow>
       (let v = (if neg then - int n else int n) in
        if v < - (2 ^ 31) \<or> 2 ^ 31 \<le> v then Inl OutOfRange else Inr v))"

definition color_value :: "string \<Rightarrow> u32 res" where
  "color_value v = (if v \<noteq> [] \<and> hd v = CHR ''#'' then rbind (stoi_hex (tl v)) (\<lambda>n. Inr (of_int n)) else Inr 0)"

definition BuildPlayerCustomization :: "ArmorTable list \<Rightarrow> PlayerVars \<Rightarrow> PlayerCustomization res" where
  "BuildPlayerCustomization tables playerVars =
     rbind (color_value (VarColorsPrimary playerVars)) (\<lambda>primary.
     rbind (color_value (VarColorsSecondary playerVars)) (\<lambda>secondary.
     rbind (color_value (VarColorsLights playerVars)) (\<lambda>lights.
     rbind (color_value (VarColorsVisor playerVars)) (\<lambda>visor.
     rbind (color_value (VarColorsHolo playerVars)) (\<lambda>holo.
       Inr \<lparr>Colors = [primary, secondary, visor, lights, holo],
            Armor = map2 GetArmorIndex (VarArmor playerVars) tables,
            Unknown1C = (if VarRepresentation playerVars = ''elite'' then 0xCC else 0x129)\<rparr>)))))"

definition ArmorApplyData :: "ArmorTable list \<Rightarrow> PlayerProps \<Rightarrow> PlayerCustomization \<Rightarrow> PlayerProps" where
  "ArmorApplyData tables properties d =
     properties\<lparr>PlayerRepresentation := (if Unknown1C d = 0xCC then 1 else if Unknown1C d = 0x129 then 0
          else PlayerRepresentation properties),
        Customization := (Customization properties)
          \<lparr>Armor := map2 ValidateArmorPiece tables (Armor d), Colors := Colors d\<rparr>\<rparr>"

definition write_armor :: "('e, 'r) StreamOps \<Rightarrow> 'e BitStream \<Rightarrow> u8 \<times> u8 \<Rightarrow> 'e BitStream" where
  "write_armor E s p = WriteRange E s (fst p) 0 (snd p)"

definition ArmorSerialize :: "('e, 'r) StreamOps \<Rightarrow> 'e BitStream \<Rightarrow> PlayerCustomization \<Rightarrow> 'e BitStream" where
  "ArmorSerialize E stream d =
     (let s1 = foldl (\<lambda>s c. WriteUnsigned E s c 24) stream (Colors d);
          s2 = foldl (write_armor E) s1 (zip (Armor d) MaxArmorIndices) in
      WriteRange E s2 (Unknown1C d) 0 0xFFFFFFFF)"

primrec read_colors :: "('e, 'r) StreamOps \<Rightarrow> nat \<Rightarrow> 'r \<Rightarrow> u32 list \<times> 'r" where
  "read_colors E 0 r = ([], r)"
| "read_colors E (Suc n) r =
     (let (c, r1) = ReadUnsigned E r 24; (cs, r2) = read_colors E n r1 in (c # cs, r2))"

primrec read_armor :: "('e, 'r) StreamOps \<Rightarrow> u8 list \<Rightarrow> 'r \<Rightarrow> u8 list \<times> 'r" where
  "read_armor E [] r = ([], r)"
| "read_armor E (m # ms) r =
     (let (a, r1) = ReadRange E r 0 m; (as1, r2) = read_armor E ms r1 in (a # as1, r2))"

definition ArmorDeserialize :: "('e, 'r) StreamOps \<Rightarrow> 'r \<Rightarrow> PlayerCustomization \<times> 'r" where
  "ArmorDeserialize E stream =
     (let (colors, r1) = read_colors E ColorCount stream;
          (armor, r2) = read_armor E MaxArmorIndices r1;
          (u, r3) = ReadRange E r2 0 0xFFFFFFFF
      in (\<lparr>Colors = colors, Armor = armor, Unknown1C = u\<rparr>, r3))"

text \<open>The class template that adapts a structure to its bytes.\<close>

definition typed_extension :: "nat \<Rightarrow> ('d \<Rightarrow> u8 list) \<Rightarrow> (u8 list \<Rightarrow> 'd) \<Rightarrow> (int \<Rightarrow> 'd res)
    \<Rightarrow> (int \<Rightarrow> PlayerProps \<Rightarrow> 'd \<Rightarrow> PlayerProps)
    \<Rightarrow> (('e, 'r) StreamOps \<Rightarrow> 'e BitStream \<Rightarrow> 'd \<Rightarrow> 'e BitStream)
    \<Rightarrow> (('e, 'r) StreamOps \<Rightarrow> 'r \<Rightarrow> 'd \<times> 'r) \<Rightarrow> ('e, 'r) Extension" where
  "typed_extension size_of to_bytes from_bytes build apply_data ser deser =
     \<lparr>BuildData = (\<lambda>playerIndex. rbind (build playerIndex) (\<lambda>d. Inr (to_bytes d))),
      GetDataSize = size_of,
      ApplyData = (\<lambda>playerIndex properties bs. apply_data playerIndex properties (from_bytes bs)),
      SerializeData = (\<lambda>E s bs. ser E s (from_bytes bs)),
      DeserializeData = (\<lambda>E r. let (d, r1) = deser E r in (to_bytes d, r1))\<rparr>"

definition ArmorExtension :: "ArmorTable list \<Rightarrow> PlayerVars \<Rightarrow> ('e, 'r) Extension" where
  "ArmorExtension tables playerVars =
     typed_extension sizeof_PlayerCustomization customization_bytes bytes_customization
       (\<lambda>_. BuildPlayerCustomization tables playerVars) (\<lambda>_. ArmorApplyData tables)
       ArmorSerialize ArmorDeserialize"

subsection \<open>The UID\<close>

text \<open>The UID comes from the key pair of the player, which OpenSSL makes and hashes: a parameter.\<close>

definition UidExtension :: "u64 \<Rightarrow> ('e, 'r) Extension" where
  "UidExtension uid =
     typed_extension 8 (le_bytes 8) le_word (\<lambda>_. Inr uid) (\<lambda>_ properties d. properties\<lparr>PropUid := d\<rparr>)
       (\<lambda>E s d. WriteUnsigned E s d 64) (\<lambda>E r. ReadUnsigned E r 64)"

text \<open>The extensions in the order in which \<open>ElPatches.cpp\<close> registers them.\<close>

definition PlayerExtensions :: "ArmorTable list \<Rightarrow> PlayerVars \<Rightarrow> u64 \<Rightarrow> ('e, 'r) Extension list" where
  "PlayerExtensions tables playerVars uid = [ArmorExtension tables playerVars, UidExtension uid]"

subsection \<open>The formats\<close>

definition some_of :: "'d \<times> 'r \<Rightarrow> 'd option \<times> 'r" where
  "some_of p = (Some (fst p), snd p)"

lemma some_of_simps [simp]: "some_of (d, r) = (Some d, r)"
  by (simp add: some_of_def)

lemma some_of_eq [simp]: "some_of p = (Some d, r) \<longleftrightarrow> p = (d, r)"
  by (cases p) simp

text \<open>What the structures hold when the program builds them: 24-bit colors (the alpha byte is not sent)
  and armor indices inside their tables.\<close>

definition customization_ok :: "PlayerCustomization \<Rightarrow> bool" where
  "customization_ok c \<longleftrightarrow> length (Colors c) = 5 \<and> (\<forall>x \<in> set (Colors c). x < 0x1000000)
     \<and> list_all2 (\<le>) (Armor c) MaxArmorIndices"

definition customization_bits :: "PlayerCustomization \<Rightarrow> bool list" where
  "customization_bits c = concat (map (\<lambda>x. to_bits 24 (ucast x)) (Colors c))
     @ concat (map (\<lambda>(a, m). range_bits (unat m) (ucast a)) (zip (Armor c) MaxArmorIndices))
     @ range_bits 0xFFFFFFFF (ucast (Unknown1C c))"

lemma ArmorSerialize_spec:
  assumes "stream_laws E flushed remaining" "stream_ok s"
  shows "writes flushed s (customization_bits c) (ArmorSerialize E s c)"
proof -
  have 1: "writes flushed s (concat (map (\<lambda>x. to_bits 24 (ucast x)) (Colors c)))
      (foldl (\<lambda>s x. WriteUnsigned E s x 24) s (Colors c))"
    by (rule writes_foldl [OF assms]) (simp add: writes_unsigned [OF assms(1)])
  have 2: "writes flushed s (concat (map (\<lambda>(a, m). range_bits (unat m) (ucast a)) (zip (Armor c) MaxArmorIndices)))
      (foldl (write_armor E) s (zip (Armor c) MaxArmorIndices))" if "stream_ok s" for s
    by (rule writes_foldl [OF assms(1) that])
      (auto simp: write_armor_def intro: writes_range [OF assms(1) _ byte_widths(3)])
  note w = writes_trans [OF 1 2 [OF writes_ok [OF 1]]]
  have "writes flushed s' (range_bits 0xFFFFFFFF (ucast (Unknown1C c))) (WriteRange E s' (Unknown1C c) 0 0xFFFFFFFF)"
    if "stream_ok s'" for s' :: "'a BitStream"
    using writes_range [OF assms(1) that byte_widths(1), of "0xFFFFFFFF" "Unknown1C c"] by simp
  from writes_trans [OF w this [OF writes_ok [OF w]]] show ?thesis
    by (simp add: ArmorSerialize_def customization_bits_def Let_def)
qed

lemma read_colors_spec:
  assumes "stream_laws E flushed remaining"
    and "\<forall>x \<in> set cs. x < 0x1000000"
    and "remaining r = concat (map (\<lambda>x. to_bits 24 (ucast x)) cs) @ rest"
  shows "\<exists>r'. read_colors E (length cs) r = (cs, r') \<and> remaining r' = rest"
  using assms(2,3)
proof (induction cs arbitrary: r)
  case (Cons c cs)
  have "unat c < 2 ^ 24" using Cons.prems(1) by (simp add: word_less_nat_alt)
  then have "ucast (take_bit 24 (ucast c :: u64)) = c"
    by (simp add: word_unat_eq_iff unsigned_ucast_eq unsigned_take_bit_eq take_bit_nat_eq_self)
  with ReadUnsigned_spec [OF assms(1), of r 24 c "concat (map (\<lambda>x. to_bits 24 (ucast x)) cs) @ rest"] Cons.prems(2)
  obtain r1 where r1: "ReadUnsigned E r 24 = (c, r1)"
    "remaining r1 = concat (map (\<lambda>x. to_bits 24 (ucast x)) cs) @ rest" by auto
  from Cons.IH [OF _ r1(2)] Cons.prems(1) r1(1) show ?case by auto
qed simp

lemma read_armor_spec:
  assumes "stream_laws E flushed remaining" "list_all2 (\<le>) as1 ms"
    and "remaining r = concat (map (\<lambda>(a, m). range_bits (unat m) (ucast a)) (zip as1 ms)) @ rest"
  shows "\<exists>r'. read_armor E ms r = (as1, r') \<and> remaining r' = rest"
  using assms(2,3)
proof (induction as1 ms arbitrary: r rule: list_all2_induct)
  case (Cons a as1 m ms)
  obtain r1 where r1: "ReadRange E r 0 m = (a, r1)"
    "remaining r1 = concat (map (\<lambda>(a, m). range_bits (unat m) (ucast a)) (zip as1 ms)) @ rest"
    using ReadRange_spec [OF assms(1) byte_widths(3) Cons.hyps(1)] Cons.prems by fastforce
  from Cons.IH [OF r1(2)] r1(1) show ?case by auto
qed simp

lemma ArmorDeserialize_spec:
  assumes "stream_laws E flushed remaining" "customization_ok c"
    and "remaining r = customization_bits c @ rest"
  shows "\<exists>r'. ArmorDeserialize E r = (c, r') \<and> remaining r' = rest"
proof -
  from assms(2) have ok: "length (Colors c) = 5" "\<forall>x \<in> set (Colors c). x < 0x1000000"
    "list_all2 (\<le>) (Armor c) MaxArmorIndices" by (simp_all add: customization_ok_def)
  note rem = assms(3) [unfolded customization_bits_def append.assoc]
  from read_colors_spec [OF assms(1) ok(2) rem] obtain r1 where r1: "read_colors E 5 r = (Colors c, r1)"
    "remaining r1 = concat (map (\<lambda>(a, m). range_bits (unat m) (ucast a)) (zip (Armor c) MaxArmorIndices))
      @ range_bits 0xFFFFFFFF (ucast (Unknown1C c)) @ rest" by (auto simp: ok(1))
  from read_armor_spec [OF assms(1) ok(3) r1(2)] obtain r2 where
    r2: "read_armor E MaxArmorIndices r1 = (Armor c, r2)"
    "remaining r2 = range_bits 0xFFFFFFFF (ucast (Unknown1C c)) @ rest" by blast
  have max: "(0xFFFFFFFF :: u32) = - 1" by simp
  have "\<exists>r'. ReadRange E r2 0 0xFFFFFFFF = (Unknown1C c, r') \<and> remaining r' = rest"
    by (rule ReadRange_spec [OF assms(1) byte_widths(1)]) (simp_all add: r2(2), simp add: max)
  with r1(1) r2(1) show ?thesis by (auto simp: ArmorDeserialize_def)
qed

interpretation armor: packet_codec ArmorSerialize "\<lambda>E r. some_of (ArmorDeserialize E r)"
  customization_bits customization_ok
proof (unfold_locales, goal_cases)
  case (1 E flushed remaining s m)
  then show ?case using ArmorSerialize_spec [OF 1(1,2), of m] by (simp add: writes_def)
qed (simp add: ArmorDeserialize_spec)

interpretation uid: packet_codec "\<lambda>E s (d :: u64). WriteUnsigned E s d 64" "\<lambda>E r. some_of (ReadUnsigned E r 64)"
  "to_bits 64" "\<lambda>_. True"
proof (unfold_locales, goal_cases)
  case (1 E flushed remaining s m)
  then show ?case using writes_unsigned [OF 1(1,2), of 64 m] by (simp add: writes_def)
next
  case (2 E flushed remaining m r rest)
  then show ?case using ReadUnsigned_spec [OF 2(1), of r 64 m rest] by (simp add: take_bit_word_eq_self)
qed

subsection \<open>Structures as bytes\<close>

lemma bytes_customization_bytes:
  assumes "length (Colors c) = 5" "length (Armor c) = 7"
  shows "bytes_customization (customization_bytes c) = c"
proof -
  obtain c0 c1 c2 c3 c4 where cs: "Colors c = [c0, c1, c2, c3, c4]"
    using assms(1) by (auto simp: numeral_eq_Suc length_Suc_conv)
  have up: "[0..<5] = [0, 1, 2, 3, 4 :: nat]" by (simp add: upt_rec)
  have "bytes_customization (customization_bytes c)
      = \<lparr>Colors = Colors c, Armor = Armor c, Unknown1C = Unknown1C c\<rparr>"
    by (simp add: bytes_customization_def customization_bytes_def cs up assms(2) le_word_le_bytes_full)
  then show ?thesis by simp
qed

lemma length_customization_bytes:
  "length (Colors c) = 5 \<Longrightarrow> length (Armor c) = 7 \<Longrightarrow> length (customization_bytes c) = sizeof_PlayerCustomization"
  by (simp add: customization_bytes_def sizeof_PlayerCustomization_def length_concat o_def sum_list_triv)

lemma customization_ok_lengths: "customization_ok c \<Longrightarrow> length (Colors c) = 5 \<and> length (Armor c) = 7"
  by (auto simp: customization_ok_def MaxArmorIndices_def dest: list_all2_lengthD)

text \<open>A typed extension is a packet format on bytes when its structure is one.\<close>

lemma typed_extension_codec:
  assumes "packet_codec ser (\<lambda>E r. some_of (deser E r)) enc wfd"
    and "\<And>d. wfd d \<Longrightarrow> from_bytes (to_bytes d) = d"
  shows "packet_codec (SerializeData (typed_extension n to_bytes from_bytes build ap ser deser))
    (\<lambda>E r. some_of (DeserializeData (typed_extension n to_bytes from_bytes build ap ser deser) E r))
    (\<lambda>bs. enc (from_bytes bs)) (\<lambda>bs. \<exists>d. wfd d \<and> bs = to_bytes d)"
  using packet_codec.ser_spec [OF assms(1)] packet_codec.deser_spec [OF assms(1)]
  by unfold_locales (fastforce simp: typed_extension_def assms(2))+

lemma no_extension_codec:
  "packet_codec (ExtenderSerializeData []) (\<lambda>E r. some_of (ExtenderDeserializeData [] E r)) (\<lambda>_. []) (\<lambda>bs. bs = [])"
  by unfold_locales simp_all

lemma extension_codec_Cons:
  assumes "packet_codec (SerializeData x) (\<lambda>E r. some_of (DeserializeData x E r)) encx wfx"
    and "packet_codec (ExtenderSerializeData xs) (\<lambda>E r. some_of (ExtenderDeserializeData xs E r)) enc wfs"
    and "\<And>bs. wfx bs \<Longrightarrow> length bs = GetDataSize x"
  shows "packet_codec (ExtenderSerializeData (x # xs)) (\<lambda>E r. some_of (ExtenderDeserializeData (x # xs) E r))
    (\<lambda>bs. encx (take (GetDataSize x) bs) @ enc (drop (GetDataSize x) bs))
    (\<lambda>bs. wfx (take (GetDataSize x) bs) \<and> wfs (drop (GetDataSize x) bs))"
proof (unfold_locales, goal_cases)
  case (1 E flushed remaining s bs)
  have "stream_ok (SerializeData x E s (take (GetDataSize x) bs))
    \<and> written flushed (SerializeData x E s (take (GetDataSize x) bs))
      = written flushed s @ encx (take (GetDataSize x) bs)"
    using packet_codec.ser_spec [OF assms(1) 1(1,2)] 1(3) by blast
  with packet_codec.ser_spec [OF assms(2) 1(1)] 1(3) show ?case by simp
next
  case (2 E flushed remaining bs r rest)
  then have "wfx (take (GetDataSize x) bs)" by blast
  from packet_codec.deser_spec [OF assms(1) 2(1) this] 2(3) obtain r1 where
    r1: "DeserializeData x E r = (take (GetDataSize x) bs, r1)"
    "remaining r1 = enc (drop (GetDataSize x) bs) @ rest" by fastforce
  have "wfs (drop (GetDataSize x) bs)" using 2(2) by blast
  from packet_codec.deser_spec [OF assms(2) 2(1) this r1(2)] r1(1) show ?case by auto
qed

definition extended_data :: "PlayerCustomization \<Rightarrow> u64 \<Rightarrow> u8 list" where
  "extended_data c uid = customization_bytes c @ le_bytes 8 uid"

lemma player_extensions_codec:
  "packet_codec (ExtenderSerializeData (PlayerExtensions tables playerVars uid))
     (\<lambda>E r. some_of (ExtenderDeserializeData (PlayerExtensions tables playerVars uid) E r))
     (\<lambda>bs. customization_bits (bytes_customization (take 32 bs)) @ to_bits 64 (le_word (take 8 (drop 32 bs))) @ [])
     (\<lambda>bs. (\<exists>c. customization_ok c \<and> take 32 bs = customization_bytes c)
        \<and> (\<exists>d :: u64. True \<and> take 8 (drop 32 bs) = le_bytes 8 d) \<and> drop 8 (drop 32 bs) = [])"
proof -
  let ?A = "ArmorExtension tables playerVars" and ?U = "UidExtension uid"
  have a: "packet_codec (SerializeData ?A) (\<lambda>E r. some_of (DeserializeData ?A E r))
      (\<lambda>bs. customization_bits (bytes_customization bs)) (\<lambda>bs. \<exists>c. customization_ok c \<and> bs = customization_bytes c)"
    unfolding ArmorExtension_def
    by (rule typed_extension_codec [OF armor.packet_codec_axioms])
      (simp add: bytes_customization_bytes customization_ok_lengths)
  have u: "packet_codec (SerializeData ?U) (\<lambda>E r. some_of (DeserializeData ?U E r))
      (\<lambda>bs. to_bits 64 (le_word bs)) (\<lambda>bs. \<exists>d :: u64. True \<and> bs = le_bytes 8 d)"
    unfolding UidExtension_def
    by (rule typed_extension_codec [OF uid.packet_codec_axioms]) (simp add: le_word_le_bytes_full)
  have sa: "GetDataSize ?A = 32" "GetDataSize ?U = 8"
    by (simp_all add: ArmorExtension_def UidExtension_def typed_extension_def sizeof_PlayerCustomization_def)
  have lu: "length bs = GetDataSize ?U" if "\<exists>d :: u64. True \<and> bs = le_bytes 8 d" for bs
    using that by (auto simp: sa)
  have la: "length bs = GetDataSize ?A" if "\<exists>c. customization_ok c \<and> bs = customization_bytes c" for bs
    using that length_customization_bytes customization_ok_lengths
    by (auto simp: sa sizeof_PlayerCustomization_def)
  note one = extension_codec_Cons [OF u no_extension_codec lu, unfolded sa]
  show ?thesis
    unfolding PlayerExtensions_def by (rule extension_codec_Cons [OF a one la, unfolded sa])
qed

text \<open>The extended properties reach the host: what the client builds from its preferences is read
  back byte by byte from the packet, and applying it gives the player the client's UID, its colors,
  and each armor piece the host's own tables know. The name is left alone.\<close>

theorem customization_reaches_host:
  assumes "stream_laws E flushed remaining" "stream_ok s" "written flushed s = []"
    and "BuildPlayerCustomization tables playerVars = Inr c" "customization_ok c"
    and "ExtenderBuildData (PlayerExtensions tables playerVars uid) i = Inr sent"
    and "remaining r = written flushed
          (ExtenderSerializeData (PlayerExtensions tables playerVars uid) E s sent) @ rest"
  shows "\<exists>r' p'. ExtenderDeserializeData (PlayerExtensions tables' playerVars' uid') E r = (sent, r')
    \<and> remaining r' = rest
    \<and> ExtenderApplyData (PlayerExtensions tables' playerVars' uid') j p sent = p'
    \<and> PropUid p' = uid \<and> PropName p' = PropName p \<and> ClientName p' = ClientName p
    \<and> Colors (Customization p') = Colors c
    \<and> Armor (Customization p') = map2 ValidateArmorPiece tables' (Armor c)"
proof -
  note len = customization_ok_lengths [OF assms(5)]
  have lb: "length (customization_bytes c) = 32"
    using length_customization_bytes len by (simp add: sizeof_PlayerCustomization_def)
  have sent: "sent = extended_data c uid"
    using assms(4,6) by (simp add: PlayerExtensions_def ArmorExtension_def UidExtension_def
        typed_extension_def extended_data_def)
  have wf: "(\<exists>c. customization_ok c \<and> take 32 sent = customization_bytes c)
      \<and> (\<exists>d :: u64. True \<and> take 8 (drop 32 sent) = le_bytes 8 d) \<and> drop 8 (drop 32 sent) = []"
    using assms(5) lb by (auto simp: sent extended_data_def)
  have enc: "remaining r = (customization_bits (bytes_customization (take 32 sent))
      @ to_bits 64 (le_word (take 8 (drop 32 sent))) @ []) @ rest"
    using packet_codec.ser_spec [OF player_extensions_codec assms(1,2) wf] assms(3,7) by simp
  obtain r' where r': "ExtenderDeserializeData (PlayerExtensions tables' playerVars' uid') E r = (sent, r')"
    "remaining r' = rest"
    using packet_codec.deser_spec [OF player_extensions_codec [of tables' playerVars' uid'] assms(1) wf enc] by auto
  have "bytes_customization (customization_bytes c) = c" using bytes_customization_bytes len by simp
  with lb r' show ?thesis
    by (simp add: PlayerExtensions_def ArmorExtension_def UidExtension_def typed_extension_def
        sizeof_PlayerCustomization_def sent extended_data_def ArmorApplyData_def le_word_le_bytes_full)
qed

text \<open>Whatever bytes arrive, the armor a player ends up with is in the host's tables, or is the first
  piece.\<close>

lemma ValidateArmorPiece_known:
  "ValidateArmorPiece t i \<in> insert 0 (set (map snd t))"
  by (simp add: ValidateArmorPiece_def)

lemma applied_armor_known:
  assumes "length (Armor d) = length tables" "k < length tables"
  shows "Armor (Customization (ArmorApplyData tables p d)) ! k \<in> insert 0 (set (map snd (tables ! k)))"
  using assms ValidateArmorPiece_known by (simp add: ArmorApplyData_def)

subsection \<open>The hooks of the player properties packet\<close>

definition PlayerPropertiesPacketHeaderSize :: nat where "PlayerPropertiesPacketHeaderSize = 0x18"

definition PlayerPropertiesSize :: nat where "PlayerPropertiesSize = 0x30"

definition PlayerPropertiesPacketFooterSize :: nat where "PlayerPropertiesPacketFooterSize = 0x4"

definition GetPlayerPropertiesPacketSize :: "('e, 'r) Extension list \<Rightarrow> nat" where
  "GetPlayerPropertiesPacketSize exts =
     PlayerPropertiesPacketHeaderSize + PlayerPropertiesSize + GetTotalSize exts + PlayerPropertiesPacketFooterSize"

text \<open>The name at the start of the data, and the data with another name there.\<close>

definition name_of_data :: "u8 list \<Rightarrow> wchar list" where
  "name_of_data bs = map (\<lambda>i. le_word (take 2 (drop (2 * i) bs))) [0..<16]"

definition with_name :: "wchar list \<Rightarrow> u8 list \<Rightarrow> u8 list" where
  "with_name nm bs = concat (map (le_bytes 2) nm) @ drop 32 bs"

datatype properties_update =
    NotSent
  | AppliedLocally "u8 list"
  | NoChannel
  | SentToHost int "u8 list"

definition PeerRequestPlayerDesiredPropertiesUpdate :: "('e, 'r) Extension list \<Rightarrow> Session \<Rightarrow> u8 list
    \<Rightarrow> u32 \<Rightarrow> u32 \<Rightarrow> u8 list \<Rightarrow> u32 \<Rightarrow> (bool \<times> properties_update) res" where
  "PeerRequestPlayerDesiredPropertiesUpdate exts s init_header arg0 arg4 properties argC =
     (if SessionType s = 3 then Inr (False, NotSent)
      else rbind (GetPeerPlayer s (LocalPeerIndex s)) (\<lambda>playerIndex.
        if playerIndex = - 1 then Inr (False, NotSent)
        else rbind (ExtenderBuildData exts playerIndex) (\<lambda>ext_data.
          let extendedProperties = take PlayerPropertiesSize properties @ ext_data in
          if SessionType s = 6 \<or> SessionType s = 7 then Inr (True, AppliedLocally extendedProperties)
          else rbind (array_at (PeerChannelIndex s) (HostPeerIndex s)) (\<lambda>channelIndex.
            if channelIndex = - 1 then Inr (True, NoChannel)
            else Inr (True, SentToHost channelIndex
              (take 0x10 init_header @ le_bytes 4 arg0 @ le_bytes 4 arg4 @ extendedProperties @ le_bytes 4 argC))))))"

definition SerializePlayerProperties :: "('e, 'r) Extension list \<Rightarrow> (('e, 'r) StreamOps \<Rightarrow> 'e BitStream \<Rightarrow> u8 list \<Rightarrow> 'e BitStream)
    \<Rightarrow> ('e, 'r) StreamOps \<Rightarrow> 'e BitStream \<Rightarrow> u8 list \<Rightarrow> 'e BitStream" where
  "SerializePlayerProperties exts EngineSerialize E stream buffer =
     ExtenderSerializeData exts E (EngineSerialize E stream buffer) (drop PlayerPropertiesSize buffer)"

definition DeserializePlayerProperties :: "('e, 'r) Extension list \<Rightarrow> (('e, 'r) StreamOps \<Rightarrow> 'r \<Rightarrow> u8 list option \<times> 'r)
    \<Rightarrow> ('e, 'r) StreamOps \<Rightarrow> 'r \<Rightarrow> u8 list option \<times> 'r" where
  "DeserializePlayerProperties exts EngineDeserialize E stream =
     (case EngineDeserialize E stream of
        (None, r1) \<Rightarrow> (None, r1)
      | (Some base, r1) \<Rightarrow> (let (d, r2) = ExtenderDeserializeData exts E r1 in (Some (base @ d), r2)))"

definition Clamp :: "int \<Rightarrow> int \<Rightarrow> int \<Rightarrow> int" where
  "Clamp n low high = (if high \<le> n then high else if n \<le> low then low else n)"

definition Network_GetMaxPlayers :: "int \<Rightarrow> int" where
  "Network_GetMaxPlayers VarServerMaxPlayers = Clamp VarServerMaxPlayers 1 16"

definition demo_tables :: "ArmorTable list" where
  "demo_tables = (let t = [(''base'', 0), (''mark_v'', 3)] in [t, t, t, t, t, t, t])"

definition demo_vars :: PlayerVars where
  "demo_vars = \<lparr>VarColorsPrimary = ''#ff8000'', VarColorsSecondary = ''#10'', VarColorsLights = '''',
     VarColorsVisor = ''red'', VarColorsHolo = ''#0'', VarArmor = [''mark_v'', ''none'', ''base'', ''base'', ''mark_v'', ''base'', ''mark_v''],
     VarRepresentation = ''elite''\<rparr>"

definition demo_customization :: PlayerCustomization where
  "demo_customization = \<lparr>Colors = [0xFF8000, 0x10, 0, 0, 0], Armor = [3, 0, 0, 0, 3, 0, 3], Unknown1C = 0xCC\<rparr>"

definition demo_props :: PlayerProps where
  "demo_props = \<lparr>ClientName = wide [], PropName = wide ''Guest'', PropUid = 0, PlayerRepresentation = 0,
     Customization = \<lparr>Colors = replicate 5 0, Armor = replicate 7 0, Unknown1C = 0\<rparr>\<rparr>"

lemma demo_customization_built: "BuildPlayerCustomization demo_tables demo_vars = Inr demo_customization"
  by (simp add: BuildPlayerCustomization_def demo_vars_def color_value_def demo_tables_def
      demo_customization_def GetArmorIndex_def stoi_hex_def scan_number_def c_str_def split_sign_def
      split_base_def has_hex_prefix_def is_digit_in_def digit_val_def digits_value_def isdigit_def
      islower_def isupper_def isspace_def ord_of_def NUL_def Let_def)

lemma demo_customization_ok: "customization_ok demo_customization"
  by code_simp

theorem customization_reaches_host_witness:
  "\<exists>r' p'. ExtenderDeserializeData (PlayerExtensions (replicate 7 []) demo_vars 0) list_ops
      (written id (ExtenderSerializeData (PlayerExtensions demo_tables demo_vars 99) list_ops empty_stream
        (extended_data demo_customization 99))) = (extended_data demo_customization 99, r')
    \<and> id r' = []
    \<and> ExtenderApplyData (PlayerExtensions (replicate 7 []) demo_vars 0 :: (bool list, bool list) Extension list) 1
        demo_props (extended_data demo_customization 99) = p'
    \<and> PropUid p' = 99 \<and> PropName p' = PropName demo_props \<and> ClientName p' = ClientName demo_props
    \<and> Colors (Customization p') = Colors demo_customization
    \<and> Armor (Customization p') = map2 ValidateArmorPiece (replicate 7 []) (Armor demo_customization)"
proof -
  have "ExtenderBuildData (PlayerExtensions demo_tables demo_vars 99 :: (bool list, bool list) Extension list) 0
      = Inr (extended_data demo_customization 99)"
    by (simp add: PlayerExtensions_def ArmorExtension_def UidExtension_def typed_extension_def
        demo_customization_built extended_data_def)
  from customization_reaches_host [OF list_stream_laws _ _ demo_customization_built demo_customization_ok this,
      of empty_stream _ "[]" "replicate 7 []" demo_vars 0 1 demo_props]
  show ?thesis by simp
qed

text \<open>A color preference that begins with a hash mark and is no number in range makes the building of the
  properties fail: the exception of \<open>std::stoi\<close> is not caught.\<close>

lemma bad_color_throws:
  "BuildPlayerCustomization tables (v\<lparr>VarColorsPrimary := ''#''\<rparr>) = Inl InvalidArgument"
  by (simp add: BuildPlayerCustomization_def color_value_def stoi_hex_def scan_number_def c_str_def
      split_sign_def split_base_def has_hex_prefix_def)

lemma max_players_range: "1 \<le> Network_GetMaxPlayers n \<and> Network_GetMaxPlayers n \<le> 16"
  by (simp add: Network_GetMaxPlayers_def Clamp_def)

text \<open>A client's packet carries the base properties and the extension data between its header and its
  footer, and has the size the packet type was registered with.\<close>

lemma length_PlayerExtensions_data:
  assumes "BuildPlayerCustomization tables playerVars = Inr c" "length (VarArmor playerVars) = 7" "length tables = 7"
  shows "ExtenderBuildData (PlayerExtensions tables playerVars uid) i = Inr (extended_data c uid)"
    and "length (extended_data c uid) = GetTotalSize (PlayerExtensions tables playerVars uid)"
proof -
  have c: "length (Colors c) = 5" "length (Armor c) = 7"
    using assms by (auto simp: BuildPlayerCustomization_def rbind_Inr_iff)
  show "ExtenderBuildData (PlayerExtensions tables playerVars uid) i = Inr (extended_data c uid)"
    using assms(1) by (simp add: PlayerExtensions_def ArmorExtension_def UidExtension_def
        typed_extension_def extended_data_def)
  show "length (extended_data c uid) = GetTotalSize (PlayerExtensions tables playerVars uid)"
    using length_customization_bytes [OF c]
    by (simp add: PlayerExtensions_def ArmorExtension_def UidExtension_def typed_extension_def extended_data_def)
qed

lemma properties_packet_size:
  assumes "PeerRequestPlayerDesiredPropertiesUpdate exts s hdr arg0 arg4 props argC = Inr (True, SentToHost ch packet)"
    and "length hdr = 0x10" "PlayerPropertiesSize \<le> length props"
    and "\<And>i d. ExtenderBuildData exts i = Inr d \<Longrightarrow> length d = GetTotalSize exts"
  shows "length packet = GetPlayerPropertiesPacketSize exts"
  using assms
  by (auto simp: PeerRequestPlayerDesiredPropertiesUpdate_def rbind_Inr_iff GetPlayerPropertiesPacketSize_def
      PlayerPropertiesPacketHeaderSize_def PlayerPropertiesPacketFooterSize_def Let_def split: if_splits)

end
