(* ===== verification/PlayerUpdates.thy ===== *)
theory PlayerUpdates
  imports PlayerProperties Voting
begin

text \<open>
  The host's side of a player properties packet in \<open>Patches/Network.cpp\<close>: the name is sanitized or
  kept, the engine applies the base properties, the extensions theirs, and the vote learns that the
  player joined. The second half follows a player's name through a session.
\<close>

definition ApplyPlayerPropertiesExtended :: "('e, 'r) Extension list \<Rightarrow> (u8 list \<Rightarrow> PlayerProps \<Rightarrow> PlayerProps)
    \<Rightarrow> VotingConfig \<Rightarrow> Session option \<Rightarrow> Session \<Rightarrow> nat \<Rightarrow> PlayerProps \<Rightarrow> u8 list \<Rightarrow> VotingState
    \<Rightarrow> (PlayerProps \<times> VotingState \<times> VotingEffect list) res" where
  "ApplyPlayerPropertiesExtended exts EngineApply cfg active s playerIndex properties d v =
     rbind (array_at (Peers s) (HostPeerIndex s)) (\<lambda>host.
       let d1 = (if PropName properties ! 0 \<noteq> 0 \<and> \<not> OwnsPlayer host playerIndex
                 then with_name (PropName properties) d
                 else with_name (SanitizePlayerName (name_of_data d)) d);
           p1 = EngineApply d1 properties;
           p2 = ExtenderApplyData exts (int playerIndex) p1 (drop PlayerPropertiesSize d1)
       in rbind (PlayerJoinedVoteInProgress cfg active (int playerIndex) v) (\<lambda>(v', es). Inr (p2, v', es)))"

lemma take_wide_bytes:
  "i < length nm \<Longrightarrow> take 2 (drop (2 * i) (concat (map (le_bytes 2) (nm :: wchar list)) @ rest)) = le_bytes 2 (nm ! i)"
proof (induction nm arbitrary: i)
  case (Cons w nm)
  then show ?case by (cases i) simp_all
qed simp

lemma name_of_data_with_name:
  assumes "length nm = 16"
  shows "name_of_data (with_name nm d) = nm"
proof (rule nth_equalityI)
  show "length (name_of_data (with_name nm d)) = length nm" by (simp add: name_of_data_def assms)
  fix i assume "i < length (name_of_data (with_name nm d))"
  then have "i < length nm" by (simp add: name_of_data_def assms)
  then show "name_of_data (with_name nm d) ! i = nm ! i"
    unfolding name_of_data_def with_name_def using assms
    by (simp only: take_wide_bytes nth_map_upt) (simp add: take_wide_bytes le_word_le_bytes_full)
qed

text \<open>What the engine does with names, as \<open>Blam/BlamPlayers.hpp\<close> describes it: a packet's base
  properties go to the client properties, and an update of the membership copies them to the player.\<close>

definition engine_names :: "(u8 list \<Rightarrow> PlayerProps \<Rightarrow> PlayerProps) \<Rightarrow> (PlayerProps \<Rightarrow> PlayerProps) \<Rightarrow> bool" where
  "engine_names EngineApply MembershipUpdate \<longleftrightarrow>
     (\<forall>d p. PropName (EngineApply d p) = PropName p \<and> ClientName (EngineApply d p) = name_of_data d)
   \<and> (\<forall>p. PropName (MembershipUpdate p) = ClientName p \<and> ClientName (MembershipUpdate p) = ClientName p)"

definition keeps_names :: "('e, 'r) Extension list \<Rightarrow> bool" where
  "keeps_names exts \<longleftrightarrow> (\<forall>i p d. PropName (ExtenderApplyData exts i p d) = PropName p
     \<and> ClientName (ExtenderApplyData exts i p d) = ClientName p)"

lemma PlayerExtensions_keep_names: "keeps_names (PlayerExtensions tables playerVars uid)"
  by (simp add: keeps_names_def PlayerExtensions_def ArmorExtension_def UidExtension_def
      typed_extension_def ArmorApplyData_def)

text \<open>A player of a client in a session: properties packets arrive and the membership is updated, in
  any order.\<close>

inductive player_step :: "('e, 'r) Extension list \<Rightarrow> (u8 list \<Rightarrow> PlayerProps \<Rightarrow> PlayerProps)
    \<Rightarrow> (PlayerProps \<Rightarrow> PlayerProps) \<Rightarrow> nat \<Rightarrow> PlayerProps \<Rightarrow> PlayerProps \<Rightarrow> bool"
  for exts EngineApply MembershipUpdate playerIndex where
  packet: "ApplyPlayerPropertiesExtended exts EngineApply cfg active s playerIndex p d v = Inr (p', v', es) \<Longrightarrow>
      (\<And>host. array_at (Peers s) (HostPeerIndex s) = Inr host \<Longrightarrow> \<not> OwnsPlayer host playerIndex) \<Longrightarrow>
      player_step exts EngineApply MembershipUpdate playerIndex p p'"
| update: "player_step exts EngineApply MembershipUpdate playerIndex p (MembershipUpdate p)"

definition no_name :: "wchar list" where
  "no_name = replicate 16 0"

definition names_ok :: "PlayerProps \<Rightarrow> bool" where
  "names_ok p \<longleftrightarrow> (ClientName p = no_name \<or> proper_name (ClientName p))
     \<and> (PropName p = no_name \<or> proper_name (PropName p) \<and> ClientName p = PropName p)"

lemma no_name_nth: "no_name ! 0 = 0"
  by (simp add: no_name_def)

lemma proper_name_nth: "proper_name nm \<Longrightarrow> nm ! 0 \<noteq> 0 \<and> length nm = 16"
proof -
  assume p: "proper_name nm"
  then have "nm = wide_str nm @ replicate (16 - length (wide_str nm)) 0" "wide_str nm \<noteq> []"
    "name_char (hd (wide_str nm))" by (simp_all add: proper_name_def)
  then have "nm ! 0 = hd (wide_str nm)" by (metis hd_conv_nth length_greater_0_conv nth_append)
  with p show ?thesis by (auto simp: proper_name_def dest: name_char_nonzero)
qed

lemma packet_names:
  assumes "engine_names EngineApply MembershipUpdate" "keeps_names exts"
    and "ApplyPlayerPropertiesExtended exts EngineApply cfg active s playerIndex p d v = Inr (p', v', es)"
    and "\<And>host. array_at (Peers s) (HostPeerIndex s) = Inr host \<Longrightarrow> \<not> OwnsPlayer host playerIndex"
    and "length (PropName p) = 16"
  shows "PropName p' = PropName p
    \<and> ClientName p' = (if PropName p ! 0 \<noteq> 0 then PropName p else SanitizePlayerName (name_of_data d))"
proof -
  have l: "length (SanitizePlayerName (name_of_data d)) = 16"
    using sanitized_proper [of "name_of_data d"] by (simp add: name_of_data_def proper_name_def)
  obtain host where h: "array_at (Peers s) (HostPeerIndex s) = Inr host"
    using assms(3) by (auto simp: ApplyPlayerPropertiesExtended_def rbind_Inr_iff)
  with assms(4) have "\<not> OwnsPlayer host playerIndex" by blast
  with h assms l show ?thesis
    by (auto simp: ApplyPlayerPropertiesExtended_def rbind_Inr_iff Let_def engine_names_def keeps_names_def
        name_of_data_with_name)
qed

lemma player_step_names:
  assumes "engine_names EngineApply MembershipUpdate" "keeps_names exts"
    and "player_step exts EngineApply MembershipUpdate playerIndex p p'" "names_ok p"
  shows "names_ok p' \<and> (PropName p \<noteq> no_name \<longrightarrow> PropName p' = PropName p)"
  using assms(3)
proof cases
  case (packet cfg active s d v v' es)
  have len: "length (PropName p) = 16"
    using assms(4) by (auto simp: names_ok_def no_name_def dest: proper_name_nth)
  have "proper_name (SanitizePlayerName (name_of_data d))"
    by (rule sanitized_proper) (simp add: name_of_data_def)
  with packet_names [OF assms(1,2) packet(1,2) len] assms(4) show ?thesis
    by (auto simp: names_ok_def no_name_nth dest: proper_name_nth)
next
  case update
  with assms(1,4) show ?thesis by (auto simp: engine_names_def names_ok_def)
qed

lemma player_steps_names:
  assumes "engine_names EngineApply MembershipUpdate" "keeps_names exts"
    and "(player_step exts EngineApply MembershipUpdate playerIndex)\<^sup>*\<^sup>* p p'" "names_ok p"
  shows "names_ok p' \<and> (PropName p \<noteq> no_name \<longrightarrow> PropName p' = PropName p)"
  using assms(3,4)
proof (induction rule: rtranclp_induct)
  case (step p1 p2)
  then show ?case using player_step_names [OF assms(1,2) step.hyps(2)] by auto
qed simp

text \<open>C15. Whatever packets a client sends and whenever the membership is updated in between, the name
  of its player is either still empty or a proper one, and once it is not empty it never changes
  again.\<close>

theorem name_fixed_once_shown:
  assumes "engine_names EngineApply MembershipUpdate"
    and "step = player_step (PlayerExtensions tables playerVars uid) EngineApply MembershipUpdate playerIndex"
    and "PropName p = no_name" "ClientName p = no_name"
    and "step\<^sup>*\<^sup>* p p1" "step\<^sup>*\<^sup>* p1 p2"
  shows "(PropName p1 = no_name \<or> proper_name (PropName p1))
    \<and> (PropName p1 \<noteq> no_name \<longrightarrow> PropName p2 = PropName p1)"
proof -
  have "names_ok p" using assms(3,4) by (simp add: names_ok_def)
  from player_steps_names [OF assms(1) PlayerExtensions_keep_names assms(5) [unfolded assms(2)] this]
  have "names_ok p1" by blast
  with player_steps_names [OF assms(1) PlayerExtensions_keep_names assms(6) [unfolded assms(2)] this]
  show ?thesis by (auto simp: names_ok_def)
qed

text \<open>An engine as described, and a client's player of \<open>demo_session\<close> whose two packets ask for different
  names, with an update of the membership after each.\<close>

definition demo_apply :: "u8 list \<Rightarrow> PlayerProps \<Rightarrow> PlayerProps" where
  "demo_apply d p = p\<lparr>ClientName := name_of_data d\<rparr>"

definition demo_update :: "PlayerProps \<Rightarrow> PlayerProps" where
  "demo_update p = p\<lparr>PropName := ClientName p\<rparr>"

lemma demo_engine_names: "engine_names demo_apply demo_update"
  by (simp add: engine_names_def demo_apply_def demo_update_def)

definition demo_new_player :: PlayerProps where
  "demo_new_player = demo_props\<lparr>PropName := no_name, ClientName := no_name\<rparr>"

definition demo_step :: "PlayerProps \<Rightarrow> PlayerProps \<Rightarrow> bool" where
  "demo_step = player_step (PlayerExtensions [] demo_vars 0 :: (bool list, bool list) Extension list)
     demo_apply demo_update 1"

definition demo_packet :: "string \<Rightarrow> u8 list" where
  "demo_packet nm = with_name (wide nm) (replicate 48 0)"

lemma demo_packet_step:
  assumes "length (wide nm) = 16"
  shows "\<exists>p'. demo_step p p' \<and> (PropName p ! 0 = 0 \<longrightarrow> ClientName p' = SanitizePlayerName (wide nm))"
proof -
  let ?exts = "PlayerExtensions [] demo_vars 0 :: (bool list, bool list) Extension list"
  let ?d = "if PropName p ! 0 \<noteq> 0 then with_name (PropName p) (demo_packet nm)
      else with_name (SanitizePlayerName (wide nm)) (demo_packet nm)"
  let ?p' = "ExtenderApplyData ?exts 1 (demo_apply ?d p) (drop PlayerPropertiesSize ?d)"
  have keep: "keeps_names ?exts" by (rule PlayerExtensions_keep_names)
  have h: "array_at (Peers demo_session) 0 = Inr \<lparr>ConnectionState = PeerEstablished, PlayerMask0 = 0\<rparr>"
    by (simp add: array_at_def demo_session_def)
  have o: "\<not> OwnsPlayer \<lparr>ConnectionState = PeerEstablished, PlayerMask0 = 0\<rparr> n" for n by (simp add: OwnsPlayer_def)
  have "ApplyPlayerPropertiesExtended ?exts demo_apply (demo_config 0) None demo_session 1 p (demo_packet nm)
      (initial_voting) = Inr (?p', initial_voting, [])"
    using assms o by (simp add: ApplyPlayerPropertiesExtended_def h PlayerJoinedVoteInProgress_def Let_def
        demo_packet_def name_of_data_with_name)
  then have "demo_step p ?p'" unfolding demo_step_def by (rule player_step.packet) (simp add: h o)
  moreover have "ClientName ?p' = SanitizePlayerName (wide nm)" if "PropName p ! 0 = 0"
    using that proper_name_nth [OF sanitized_proper [OF assms]] keep
    by (simp add: keeps_names_def demo_apply_def name_of_data_with_name)
  ultimately show ?thesis by blast
qed

theorem name_fixed_once_shown_witness:
  "\<exists>p1 p2. demo_step\<^sup>*\<^sup>* demo_new_player p1 \<and> demo_step\<^sup>*\<^sup>* p1 p2
     \<and> (\<exists>q. demo_step p1 q \<and> p2 = demo_update q) \<and> proper_name (PropName p1) \<and> PropName p2 = PropName p1"
proof -
  have len: "length (wide ''Alice'') = 16" "length (wide ''Bob'') = 16" by (simp_all add: wide_def)
  have new: "PropName demo_new_player = no_name" "ClientName demo_new_player = no_name"
    by (simp_all add: demo_new_player_def)
  obtain q1 where q1: "demo_step demo_new_player q1" "ClientName q1 = SanitizePlayerName (wide ''Alice'')"
    using demo_packet_step [OF len(1), of demo_new_player] new no_name_nth by auto
  obtain q2 where q2: "demo_step (demo_update q1) q2"
    using demo_packet_step [OF len(2)] by blast
  have u: "demo_step q (demo_update q)" for q unfolding demo_step_def by (rule player_step.update)
  have s1: "demo_step\<^sup>*\<^sup>* demo_new_player (demo_update q1)" by (rule rtranclp.rtrancl_into_rtrancl [OF r_into_rtranclp [of demo_step, OF q1(1)] u])
  have s2: "demo_step\<^sup>*\<^sup>* (demo_update q1) (demo_update q2)" by (rule rtranclp.rtrancl_into_rtrancl [OF r_into_rtranclp [of demo_step, OF q2] u])
  have pr: "proper_name (PropName (demo_update q1))"
    using q1(2) sanitized_proper [OF len(1)] by (simp add: demo_update_def)
  then have "PropName (demo_update q1) \<noteq> no_name" using proper_name_nth no_name_nth by metis
  with name_fixed_once_shown [OF demo_engine_names demo_step_def new s1 s2]
  have "PropName (demo_update q2) = PropName (demo_update q1)" by blast
  then show ?thesis
    by (intro exI [of _ "demo_update q1"] exI [of _ "demo_update q2"] conjI s1 s2 pr exI [of _ q2] q2 refl)
qed

end
