(* ===== verification/Connect.thy ===== *)
theory Connect
  imports Json Session Strings StdNum
begin

text \<open>
  \<open>CommandServerConnect\<close> of \<open>Modules/ModuleServer.cpp\<close>: the address argument, the query of the server's
  information over HTTP, the checks of the answer, and the data the game is started to join with.
  Name lookup, the HTTP request and the JSON parser are parameters.
\<close>

subsection \<open>What the machine answers\<close>

text \<open>A failed lookup gives the return value and the socket error, a successful one the addresses found,
  each with whether it is IPv4 and its number in network byte order.\<close>

record ConnectEnv =
  getaddrinfo :: "string \<Rightarrow> (int \<times> int) + (bool \<times> u32) list"
  SendRequest :: "string \<Rightarrow> string \<Rightarrow> string \<Rightarrow> (u32 \<times> u32) + (string \<times> string)"
  parse_document :: "string \<Rightarrow> Json option"
  GameVersion :: string
  EldewritoVersion :: string

text \<open>What is written for the game: the syslink block of 0x176 bytes, and the two identifiers.\<close>

record JoinData =
  SyslinkData :: "u8 list"
  joinId :: "u8 list"
  joinAddr :: "u8 list"

definition put_bytes :: "nat \<Rightarrow> u8 list \<Rightarrow> u8 list \<Rightarrow> u8 list" where
  "put_bytes off bs buf = take off buf @ bs @ drop (off + length bs) buf"

definition syslink_block :: "u8 list \<Rightarrow> u32 \<Rightarrow> u16 \<Rightarrow> u8 list" where
  "syslink_block xnetInfo rawIpaddr gamePort =
     put_bytes 0x174 (le_bytes 2 gamePort) (put_bytes 0x170 (le_bytes 4 rawIpaddr)
       (put_bytes 0x9E xnetInfo (put_bytes 0 (le_bytes 4 (1 :: u32)) (replicate 0x176 0))))"

subsection \<open>The command\<close>

text \<open>The part after the colon is the port; \<open>std::stoi\<close> throws when it is not a number.\<close>

definition split_address :: "string \<Rightarrow> (string \<times> int) res" where
  "split_address address = (case find_index (\<lambda>c. c = CHR '':'') address of
     None \<Rightarrow> Inr (address, 11775)
   | Some portOffset \<Rightarrow>
       if portOffset + 1 < length address then
         rbind (stoi (drop (portOffset + 1) address)) (\<lambda>p.
           Inr (take portOffset address, uint (of_int p :: u16)))
       else Inr (address, 11775))"

definition lookup_error :: "string \<Rightarrow> int \<Rightarrow> int \<Rightarrow> string" where
  "lookup_error address retval error =
     ''Unable to lookup '' @ address @ '' ('' @ dec_int retval @ ''): '' @
     (if error \<noteq> 0 then
        (if error = 11001 then ''Host not found.''
         else if error = 11004 then ''No data record found.''
         else ''Function failed with error '' @ dec_int error @ ''.'')
      else ''Unknown error.'')"

definition first_ipv4 :: "(bool \<times> u32) list \<Rightarrow> u32" where
  "first_ipv4 info = (case find fst info of None \<Rightarrow> 0 | Some (_, w) \<Rightarrow> byteswap_ulong w)"

definition expected_header :: string where "expected_header = ''HTTP/1.1 200 OK''"

text \<open>A member that is there and of the kind asked for.\<close>

definition has :: "(string \<times> Json) list \<Rightarrow> string \<Rightarrow> (Json \<Rightarrow> bool) \<Rightarrow> bool" where
  "has kvs key kind = (case map_of kvs key of None \<Rightarrow> False | Some v \<Rightarrow> kind v)"

definition get_string :: "(string \<times> Json) list \<Rightarrow> string \<Rightarrow> string" where
  "get_string kvs key = (case map_of kvs key of Some (JString s) \<Rightarrow> c_str s | _ \<Rightarrow> [])"

type_synonym connect_result = "(bool \<times> string \<times> JoinData option) res"

definition read_server_info :: "ConnectEnv \<Rightarrow> string \<Rightarrow> u32 \<Rightarrow> (string \<times> Json) list \<Rightarrow> connect_result" where
  "read_server_info env address rawIpaddr json =
     (if \<not> has json ''gameVersion'' is_string \<or> \<not> has json ''eldewritoVersion'' is_string
         \<or> \<not> has json ''port'' is_number
      then Inr (False, ''Server query JSON response is missing data.'', None)
      else if \<not> has json ''xnkid'' is_string \<or> \<not> has json ''xnaddr'' is_string
      then Inr (False, ''Incorrect password specified.'', None)
      else if GameVersion env \<noteq> get_string json ''gameVersion''
      then Inr (False, ''Server is running a different game version.'', None)
      else if EldewritoVersion env \<noteq> get_string json ''eldewritoVersion''
      then Inr (False, ''Server is running a different ElDewrito version.'', None)
      else (let xnkid = get_string json ''xnkid''; xnaddr = get_string json ''xnaddr'' in
        if length xnkid \<noteq> 0x10 * 2 \<or> length xnaddr \<noteq> 0x10 * 2
        then Inr (False, ''Server query XNet info is invalid.'', None)
        else rbind (json_int (the (map_of json ''port''))) (\<lambda>port.
             rbind (HexStringToBytes xnkid 0x10) (\<lambda>kid.
             rbind (HexStringToBytes xnaddr 0x10) (\<lambda>addr.
               Inr (True, ''Attempting connection to '' @ address @ ''...'',
                 Some \<lparr>SyslinkData = syslink_block (kid @ addr) rawIpaddr (of_int port),
                       joinId = kid, joinAddr = addr\<rparr>))))))"

definition query_server :: "ConnectEnv \<Rightarrow> string \<Rightarrow> string \<Rightarrow> int \<Rightarrow> string \<Rightarrow> u32 \<Rightarrow> connect_result" where
  "query_server env address host httpPort password rawIpaddr =
     (case SendRequest env (''http://'' @ host @ '':'' @ dec_int httpPort @ ''/'')
             (if password = [] then [] else ''dorito'') password of
        Inl (lastError, code) \<Rightarrow>
          Inr (False, ''Unable to connect to server. (error: '' @ dec_int (sint lastError) @ ''/'' @ to_string32 code @ '')'', None)
      | Inr (header, body) \<Rightarrow>
          if length header < length expected_header then Inr (False, ''Invalid server query response.'', None)
          else if take (length expected_header) header \<noteq> expected_header
          then Inr (False, ''Invalid server query header response.'', None)
          else (case parse_document env (c_str body) of
             Some (JObject json) \<Rightarrow> read_server_info env address rawIpaddr json
           | _ \<Rightarrow> Inr (False, ''Invalid server query JSON response.'', None)))"

definition CommandServerConnect :: "ConnectEnv \<Rightarrow> string list \<Rightarrow> connect_result" where
  "CommandServerConnect env Arguments = (case Arguments of
     [] \<Rightarrow> Inr (False, ''Invalid arguments.'', None)
   | address # rest \<Rightarrow>
       (let password = (case rest of [] \<Rightarrow> [] | p # _ \<Rightarrow> p) in
        rbind (split_address address) (\<lambda>(host, httpPort).
        case getaddrinfo env (c_str host) of
          Inl (retval, error) \<Rightarrow> Inr (False, lookup_error address retval error, None)
        | Inr info \<Rightarrow>
            (let rawIpaddr = first_ipv4 info in
             if rawIpaddr = 0 then Inr (False, ''Unable to lookup '' @ address @ '': No records found.'', None)
             else query_server env address host httpPort password rawIpaddr))))"

subsection \<open>Joining the session a server advertises\<close>

lemma length_BytesToHexString: "length (BytesToHexString bs) = 2 * length bs"
  by (induction bs) (simp_all add: BytesToHexString_def byte_hex_def)

lemma put_bytes_length: "off + length bs \<le> length buf \<Longrightarrow> length (put_bytes off bs buf) = length buf"
  by (simp add: put_bytes_def)

lemma take_put_bytes:
  assumes "off + length bs \<le> length buf"
  shows "take (length bs) (drop off (put_bytes off bs buf)) = bs"
  using assms by (simp add: put_bytes_def)

lemma take_before_put_bytes:
  assumes "off + length bs \<le> length buf" "off' + n \<le> off"
  shows "take n (drop off' (put_bytes off bs buf)) = take n (drop off' buf)"
proof -
  have "drop off' (put_bytes off bs buf) = take (off - off') (drop off' buf) @ bs @ drop (off + length bs) buf"
    using assms by (simp add: put_bytes_def drop_take)
  moreover have "length (take (off - off') (drop off' buf)) = off - off'" using assms by simp
  moreover have "n \<le> off - off'" using assms(2) by simp
  ultimately show ?thesis by (simp add: min_def)
qed

lemma syslink_block_parts:
  assumes "length xnetInfo = 0x20"
  shows "length (syslink_block xnetInfo ip port) = 0x176"
    and "take 0x20 (drop 0x9E (syslink_block xnetInfo ip port)) = xnetInfo"
    and "take 4 (drop 0x170 (syslink_block xnetInfo ip port)) = le_bytes 4 ip"
    and "take 2 (drop 0x174 (syslink_block xnetInfo ip port)) = le_bytes 2 port"
proof -
  let ?b0 = "put_bytes 0 (le_bytes 4 (1 :: u32)) (replicate 0x176 (0::u8))"
  let ?b1 = "put_bytes 0x9E xnetInfo ?b0"
  let ?b2 = "put_bytes 0x170 (le_bytes 4 ip) ?b1"
  have l0: "length ?b0 = 0x176" by (simp add: put_bytes_length)
  have l1: "length ?b1 = 0x176" using assms l0 by (simp add: put_bytes_length)
  have l2: "length ?b2 = 0x176" using l1 by (simp add: put_bytes_length)
  show "length (syslink_block xnetInfo ip port) = 0x176"
    unfolding syslink_block_def using l2 by (simp add: put_bytes_length)
  show "take 2 (drop 0x174 (syslink_block xnetInfo ip port)) = le_bytes 2 port"
    unfolding syslink_block_def using take_put_bytes [where off = "0x174" and bs = "le_bytes 2 port" and buf = ?b2] l2 by simp
  show "take 4 (drop 0x170 (syslink_block xnetInfo ip port)) = le_bytes 4 ip"
    unfolding syslink_block_def
    using take_before_put_bytes [where off = "0x174" and bs = "le_bytes 2 port" and buf = ?b2 and off' = "0x170" and n = 4] take_put_bytes [where off = "0x170" and bs = "le_bytes 4 ip" and buf = ?b1]
      l1 l2 by simp
  show "take 0x20 (drop 0x9E (syslink_block xnetInfo ip port)) = xnetInfo"
    unfolding syslink_block_def
    using take_before_put_bytes [where off = "0x174" and bs = "le_bytes 2 port" and buf = ?b2 and off' = "0x9E" and n = "0x20"]
      take_before_put_bytes [where off = "0x170" and bs = "le_bytes 4 ip" and buf = ?b1 and off' = "0x9E" and n = "0x20"]
      take_put_bytes [where off = "0x9E" and bs = xnetInfo and buf = ?b0] l0 l1 l2 assms by simp
qed

text \<open>What a server of the same versions advertises.\<close>

definition advertises :: "(string \<times> Json) list \<Rightarrow> ConnectEnv \<Rightarrow> u8 list \<Rightarrow> u8 list \<Rightarrow> int \<Rightarrow> bool" where
  "advertises json env kid addr port \<longleftrightarrow>
     map_of json ''gameVersion'' = Some (JString (GameVersion env))
   \<and> map_of json ''eldewritoVersion'' = Some (JString (EldewritoVersion env))
   \<and> map_of json ''port'' = Some (JInt port)
   \<and> map_of json ''xnkid'' = Some (JString (BytesToHexString kid))
   \<and> map_of json ''xnaddr'' = Some (JString (BytesToHexString addr))"

lemma hex_no_nul: "c_str (BytesToHexString bs) = BytesToHexString bs"
proof (rule c_str_id)
  have n: "b div 16 < 16" "b mod 16 < 16" if "b < 256" for b :: nat using that by auto
  have h: "hex_char n \<noteq> NUL" if "n < 16" for n
  proof -
    have "\<forall>c \<in> set ''0123456789abcdef''. c \<noteq> NUL" by (simp add: NUL_def)
    moreover have "hex_char n \<in> set ''0123456789abcdef''" unfolding hex_char_def using that by (intro nth_mem) simp
    ultimately show ?thesis by blast
  qed
  have "unat (b::u8) < 256" for b
  proof -
    have "unat b < 2 ^ LENGTH(8)" by (rule unsigned_less)
    then show ?thesis by simp
  qed
  then show "NUL \<notin> set (BytesToHexString bs)"
    using h n by (auto simp: BytesToHexString_def byte_hex_def dest: sym)
qed

text \<open>A document that advertises a session is read as data to join it.\<close>

lemma read_server_info_advertised:
  assumes "advertises json env kid addr port" "length kid = 16" "length addr = 16"
    and "NUL \<notin> set (GameVersion env)" "NUL \<notin> set (EldewritoVersion env)" "json_int (JInt port) = Inr port"
  shows "read_server_info env address ip json = Inr (True, ''Attempting connection to '' @ address @ ''...'',
    Some \<lparr>SyslinkData = syslink_block (kid @ addr) ip (of_int port), joinId = kid, joinAddr = addr\<rparr>)"
proof -
  have v: "c_str (GameVersion env) = GameVersion env" "c_str (EldewritoVersion env) = EldewritoVersion env"
    using assms(4,5) by (simp_all add: c_str_id)
  have h: "HexStringToBytes (BytesToHexString kid) 16 = Inr kid" "HexStringToBytes (BytesToHexString addr) 16 = Inr addr"
    using HexStringToBytes_append [of kid "[]"] HexStringToBytes_append [of addr "[]"] assms(2,3) by simp_all
  show ?thesis
    using assms v h
    by (simp add: read_server_info_def advertises_def has_def is_string_def is_number_def get_string_def
        hex_no_nul length_BytesToHexString)
qed

text \<open>Connecting to a server that answers with our versions and its two 16-byte identifiers in
  hexadecimal starts a join with exactly those identifiers, the first IPv4 address found for its name
  and the port it advertises: the identifiers, address and port are read back from the syslink block.\<close>

theorem connect_joins_advertised_session:
  assumes "split_address address = Inr (host, httpPort)"
    and "getaddrinfo env (c_str host) = Inr info" "first_ipv4 info = ip" "ip \<noteq> 0"
    and "SendRequest env (''http://'' @ host @ '':'' @ dec_int httpPort @ ''/'') [] [] = Inr (header, body)"
    and "take 15 header = ''HTTP/1.1 200 OK''"
    and "parse_document env (c_str body) = Some (JObject json)"
    and "advertises json env kid addr port" "length kid = 16" "length addr = 16"
    and "NUL \<notin> set (GameVersion env)" "NUL \<notin> set (EldewritoVersion env)" "0 \<le> port" "port < 65536"
  shows "\<exists>jd. CommandServerConnect env [address] = Inr (True, ''Attempting connection to '' @ address @ ''...'', Some jd)
    \<and> joinId jd = kid \<and> joinAddr jd = addr \<and> length (SyslinkData jd) = 0x176
    \<and> take 32 (drop 0x9E (SyslinkData jd)) = kid @ addr
    \<and> take 4 (drop 0x170 (SyslinkData jd)) = le_bytes 4 ip
    \<and> take 2 (drop 0x174 (SyslinkData jd)) = le_bytes 2 (of_int port :: u16)"
proof -
  let ?jd = "\<lparr>SyslinkData = syslink_block (kid @ addr) ip (of_int port), joinId = kid, joinAddr = addr\<rparr>"
  have "json_int (JInt port) = Inr port" using assms(13,14) by (simp add: json_int_def)
  then have info: "read_server_info env address ip json
      = Inr (True, ''Attempting connection to '' @ address @ ''...'', Some ?jd)"
    using assms(8-12) by (intro read_server_info_advertised)
  have e: "length expected_header = 15" "expected_header = ''HTTP/1.1 200 OK''"
    by (simp_all add: expected_header_def)
  have "length header \<ge> 15"
  proof -
    have "length (take 15 header) = length ''HTTP/1.1 200 OK''" using assms(6) by simp
    then show ?thesis by simp
  qed
  then have "CommandServerConnect env [address] = Inr (True, ''Attempting connection to '' @ address @ ''...'', Some ?jd)"
    using assms(1-5,7) info e assms(6) [folded e(2)] by (simp add: CommandServerConnect_def query_server_def)
  with syslink_block_parts [of "kid @ addr" ip "of_int port"] assms(9,10) show ?thesis by simp
qed

text \<open>A port that is not a number ends the game: the exception of \<open>std::stoi\<close> is not caught.\<close>

lemma connect_bad_port: "split_address ''host:abc'' = Inl InvalidArgument"
proof -
  have "find_index (\<lambda>c. c = CHR '':'') ''host:abc'' = Some 4" by simp
  then show ?thesis
    by (simp add: split_address_def stoi_def scan_number_def c_str_def NUL_def isspace_def ord_of_def split_sign_def
        split_base_def is_digit_in_def digit_val_def isdigit_def islower_def)
qed

definition demo_server_info :: "(string \<times> Json) list" where
  "demo_server_info = [(''gameVersion'', JString ''1.106708''), (''eldewritoVersion'', JString ''0.5.1''),
     (''port'', JInt 11774), (''xnkid'', JString (BytesToHexString (replicate 16 1))),
     (''xnaddr'', JString (BytesToHexString (replicate 16 2)))]"

definition demo_connect :: ConnectEnv where
  "demo_connect = \<lparr>getaddrinfo = (\<lambda>_. Inr [(False, 7), (True, 0x0200A8C0)]),
     SendRequest = (\<lambda>_ _ _. Inr (''HTTP/1.1 200 OK'', ''{}'')), parse_document = (\<lambda>_. Some (JObject demo_server_info)),
     GameVersion = ''1.106708'', EldewritoVersion = ''0.5.1''\<rparr>"

theorem connect_joins_advertised_session_witness:
  "\<exists>jd. CommandServerConnect demo_connect [''example.org'']
      = Inr (True, ''Attempting connection to '' @ ''example.org'' @ ''...'', Some jd)
    \<and> joinId jd = replicate 16 1 \<and> take 4 (drop 0x170 (SyslinkData jd)) = le_bytes 4 (byteswap_ulong 0x0200A8C0)"
proof -
  have s: "split_address ''example.org'' = Inr (''example.org'', 11775)" by (simp add: split_address_def)
  have f: "first_ipv4 [(False, 7), (True, 0x0200A8C0)] = byteswap_ulong 0x0200A8C0" by (simp add: first_ipv4_def)
  have nz: "byteswap_ulong 0x0200A8C0 \<noteq> 0" by (simp add: byteswap_ulong_def)
  have t: "take 15 ''HTTP/1.1 200 OK'' = ''HTTP/1.1 200 OK''" by (rule take_all) simp
  have adv: "advertises demo_server_info demo_connect (replicate 16 1) (replicate 16 2) 11774"
    by (simp add: advertises_def demo_server_info_def demo_connect_def)
  have "\<exists>jd. CommandServerConnect demo_connect [''example.org'']
      = Inr (True, ''Attempting connection to '' @ ''example.org'' @ ''...'', Some jd)
    \<and> joinId jd = replicate 16 1 \<and> joinAddr jd = replicate 16 2 \<and> length (SyslinkData jd) = 0x176
    \<and> take 32 (drop 0x9E (SyslinkData jd)) = replicate 16 1 @ replicate 16 2
    \<and> take 4 (drop 0x170 (SyslinkData jd)) = le_bytes 4 (byteswap_ulong 0x0200A8C0)
    \<and> take 2 (drop 0x174 (SyslinkData jd)) = le_bytes 2 (of_int 11774 :: u16)"
    by (rule connect_joins_advertised_session [OF s _ f nz _ _ _ adv])
      (simp_all only: t demo_connect_def ConnectEnv.simps, simp_all add: NUL_def)
  then show ?thesis by blast
qed

end
