(* ===== verification/VarSync.thy ===== *)
theory VarSync
  imports CommandMap CustomPackets
begin

text \<open>
  \<open>Server/VariableSynchronization.cpp\<close>: variables of the host that are mirrored on every client.
  A binding joins a server variable and a client variable; the host copies a changed server variable
  to its own client variable and sends the values a peer has not got yet, the peers it has sent to
  being marked in a bit set of the binding; a client sets its client variables from the packets.
  The state is the command map's, with the bindings added. The order in which \<open>std::unordered_map\<close>
  is iterated is not specified: \<open>rehash\<close> stands for the order after an insertion. The 32-bit hash of
  a string comes from OpenSSL and is a parameter.
\<close>

subsection \<open>Data\<close>

type_synonym SyncID = u32

definition MaxStringLength :: nat where "MaxStringLength = 512"

record SynchronizationBinding =
  SyncId :: SyncID
  ServerVariable :: nat
  ClientVariable :: nat
  SynchronizedPeers :: "17 word"

record 'h SyncState = "'h MapState" +
  syncBindings :: "SynchronizationBinding list"

text \<open>An element of an update packet. The union is the member written last; \<open>NoValue\<close> is memory that
  nothing was written to. Reading a member that was not written is undefined.\<close>

datatype SyncValue = IntValue u64 | FloatValue f32 | StringValue string | NoValue

record SyncUpdatePacketVar =
  UpdateID :: SyncID
  UpdateType :: CommandType
  UpdateValue :: SyncValue

definition int_member :: "SyncValue \<Rightarrow> u64 res" where
  "int_member v = (case v of IntValue i \<Rightarrow> Inr i | _ \<Rightarrow> Inl Undefined)"

definition float_member :: "SyncValue \<Rightarrow> f32 res" where
  "float_member v = (case v of FloatValue f \<Rightarrow> Inr f | _ \<Rightarrow> Inl Undefined)"

definition string_member :: "SyncValue \<Rightarrow> string res" where
  "string_member v = (case v of StringValue t \<Rightarrow> Inr t | _ \<Rightarrow> Inl Undefined)"

text \<open>What a tick of the host does besides changing the state: packets handed to the channel of a peer.\<close>

datatype SyncEffect = SyncSent (sync_peer: int) (sync_channel: "int option") (sync_vars: "SyncUpdatePacketVar list")

subsection \<open>Bindings\<close>

definition GenerateID :: "(string \<Rightarrow> u32 option) \<Rightarrow> string \<Rightarrow> string \<Rightarrow> SyncID res" where
  "GenerateID hash32 serverName clientName = (case hash32 (serverName @ clientName) of
     None \<Rightarrow> Inl (RuntimeError ''Failed to generate sync ID'')
   | Some result \<Rightarrow> Inr result)"

definition find_binding :: "SynchronizationBinding list \<Rightarrow> SyncID \<Rightarrow> SynchronizationBinding option" where
  "find_binding bs i = find (\<lambda>b. SyncId b = i) bs"

definition AddBinding :: "(SynchronizationBinding list \<Rightarrow> SynchronizationBinding list)
    \<Rightarrow> SynchronizationBinding \<Rightarrow> SynchronizationBinding list \<Rightarrow> SynchronizationBinding list res" where
  "AddBinding rehash binding bs =
     (if find_binding bs (SyncId binding) \<noteq> None then Inl (RuntimeError ''Duplicate sync ID'')
      else Inr (rehash (bs @ [binding])))"

definition Synchronize :: "(string \<Rightarrow> u32 option) \<Rightarrow> (SynchronizationBinding list \<Rightarrow> SynchronizationBinding list)
    \<Rightarrow> nat \<Rightarrow> nat \<Rightarrow> ('h, 'm) SyncState_scheme \<Rightarrow> ('h, 'm) SyncState_scheme res" where
  "Synchronize hash32 rehash serverVariable clientVariable s =
     (let sv = Commands s ! serverVariable; cv = Commands s ! clientVariable in
      if Type sv \<noteq> Type cv then Inl (RuntimeError ''Server and client variable types do not match'')
      else rbind (GenerateID hash32 (Name sv) (Name cv)) (\<lambda>i.
        rbind (AddBinding rehash \<lparr>SyncId = i, ServerVariable = serverVariable,
            ClientVariable = clientVariable, SynchronizedPeers = 0\<rparr> (syncBindings s)) (\<lambda>bs.
          Inr (s\<lparr>syncBindings := bs\<rparr>))))"

subsection \<open>Comparing and setting variables\<close>

definition CompareVariables :: "'h Command \<Rightarrow> 'h Command \<Rightarrow> bool res" where
  "CompareVariables lhs rhs =
     (if Type lhs \<noteq> Type rhs then Inl (RuntimeError ''Cannot compare variables of different types'')
      else case Type lhs of
        TypeVariableInt \<Rightarrow> Inr (ValueInt lhs = ValueInt rhs)
      | TypeVariableInt64 \<Rightarrow> Inr (ValueInt64 lhs = ValueInt64 rhs)
      | TypeVariableFloat \<Rightarrow> Inr (f32_eq (ValueFloat lhs) (ValueFloat rhs))
      | TypeVariableString \<Rightarrow> Inr (ValueString lhs = ValueString rhs)
      | TypeCommand \<Rightarrow> Inl (RuntimeError ''Unsupported variable type''))"

text \<open>The update event of a variable, when it has one; its answer is not used.\<close>

definition notify_event :: "('h, 'm) handlers \<Rightarrow> nat \<Rightarrow> ('h, 'm) MapState_scheme \<Rightarrow> ('h, 'm) MapState_scheme res" where
  "notify_event disp i s = (let var = Commands s ! i in
     if UpdateEvent var = None then Inr s
     else rbind (call_event disp var [ValueString var] '''' s) (\<lambda>(_, _, s'). Inr s'))"

definition copy_value :: "'h Command \<Rightarrow> 'h Command \<Rightarrow> 'h Command res" where
  "copy_value var value =
     (if Type var \<noteq> Type value
      then Inl (RuntimeError ''Cannot set a variable of one type to a variable of another type'')
      else (let v = var\<lparr>ValueString := ValueString value\<rparr> in
        case Type var of
          TypeVariableInt \<Rightarrow> Inr (v\<lparr>ValueInt := ValueInt value\<rparr>)
        | TypeVariableInt64 \<Rightarrow> Inr (v\<lparr>ValueInt64 := ValueInt64 value\<rparr>)
        | TypeVariableFloat \<Rightarrow> Inr (v\<lparr>ValueFloat := ValueFloat value\<rparr>)
        | TypeVariableString \<Rightarrow> Inr v
        | TypeCommand \<Rightarrow> Inl (RuntimeError ''Unsupported variable type'')))"

definition SetVariableToVariable :: "('h, 'm) handlers \<Rightarrow> nat \<Rightarrow> nat
    \<Rightarrow> ('h, 'm) MapState_scheme \<Rightarrow> ('h, 'm) MapState_scheme res" where
  "SetVariableToVariable disp var value s =
     rbind (copy_value (Commands s ! var) (Commands s ! value)) (\<lambda>c.
       notify_event disp var (set_command var c s))"

text \<open>Setting a variable from a packet: nothing happens when the types differ.\<close>

definition update_value :: "FloatOps \<Rightarrow> 'h Command \<Rightarrow> SyncUpdatePacketVar \<Rightarrow> 'h Command option res" where
  "update_value fo var value =
     (if Type var \<noteq> UpdateType value then Inr None
      else case Type var of
        TypeVariableInt \<Rightarrow> rbind (int_member (UpdateValue value)) (\<lambda>i. let v = (ucast i :: u32) in
          Inr (Some (var\<lparr>ValueInt := v, ValueString := to_string32 v\<rparr>)))
      | TypeVariableInt64 \<Rightarrow> rbind (int_member (UpdateValue value)) (\<lambda>i.
          Inr (Some (var\<lparr>ValueInt64 := i, ValueString := to_string64 i\<rparr>)))
      | TypeVariableFloat \<Rightarrow> rbind (float_member (UpdateValue value)) (\<lambda>f.
          Inr (Some (var\<lparr>ValueFloat := f, ValueString := print_float fo f\<rparr>)))
      | TypeVariableString \<Rightarrow> rbind (string_member (UpdateValue value)) (\<lambda>t.
          Inr (Some (var\<lparr>ValueString := t\<rparr>)))
      | TypeCommand \<Rightarrow> Inr None)"

definition SetVariableToUpdate :: "FloatOps \<Rightarrow> ('h, 'm) handlers \<Rightarrow> nat \<Rightarrow> SyncUpdatePacketVar
    \<Rightarrow> ('h, 'm) MapState_scheme \<Rightarrow> ('h, 'm) MapState_scheme res" where
  "SetVariableToUpdate fo disp var value s = rbind (update_value fo (Commands s ! var) value) (\<lambda>new. case new of
     None \<Rightarrow> Inr s
   | Some c \<Rightarrow> notify_event disp var (set_command var c s))"

subsection \<open>The host\<close>

definition reset_peers :: "nat \<Rightarrow> ('h, 'm) SyncState_scheme \<Rightarrow> ('h, 'm) SyncState_scheme" where
  "reset_peers k s = s\<lparr>syncBindings := (syncBindings s)[k := (syncBindings s ! k)\<lparr>SynchronizedPeers := 0\<rparr>]\<rparr>"

text \<open>The bindings are visited by position. An update event that removed bindings would leave the
  iterator dangling.\<close>

definition TickBinding :: "('h, 'm SyncState_ext) handlers \<Rightarrow> nat \<Rightarrow> ('h, 'm) SyncState_scheme
    \<Rightarrow> ('h, 'm) SyncState_scheme res" where
  "TickBinding disp k s =
     (if length (syncBindings s) \<le> k then Inl Undefined
      else (let b = syncBindings s ! k in
        rbind (CompareVariables (Commands s ! ServerVariable b) (Commands s ! ClientVariable b)) (\<lambda>same.
        if same then Inr s
        else rbind (SetVariableToVariable disp (ClientVariable b) (ServerVariable b) s) (\<lambda>s'.
          if length (syncBindings s') \<le> k then Inl Undefined else Inr (reset_peers k s')))))"

fun tick_bindings_loop :: "('h, 'm SyncState_ext) handlers \<Rightarrow> nat list \<Rightarrow> ('h, 'm) SyncState_scheme
    \<Rightarrow> ('h, 'm) SyncState_scheme res" where
  "tick_bindings_loop disp [] s = Inr s"
| "tick_bindings_loop disp (k # ks) s = rbind (TickBinding disp k s) (tick_bindings_loop disp ks)"

definition TickBindings :: "('h, 'm SyncState_ext) handlers \<Rightarrow> ('h, 'm) SyncState_scheme
    \<Rightarrow> ('h, 'm) SyncState_scheme res" where
  "TickBindings disp s = tick_bindings_loop disp [0..<length (syncBindings s)] s"

definition FindOutOfDateBindings :: "nat \<Rightarrow> SynchronizationBinding list \<Rightarrow> SynchronizationBinding list" where
  "FindOutOfDateBindings peerIndex bs = filter (\<lambda>b. \<not> bit (SynchronizedPeers b) peerIndex) bs"

definition BuildVariableUpdate :: "SyncID \<Rightarrow> 'h Command \<Rightarrow> SyncUpdatePacketVar res" where
  "BuildVariableUpdate i var =
     (let result = (\<lambda>v. Inr \<lparr>UpdateID = i, UpdateType = Type var, UpdateValue = v\<rparr>) in
     case Type var of
       TypeVariableInt \<Rightarrow> result (IntValue (ucast (ValueInt var)))
     | TypeVariableInt64 \<Rightarrow> result (IntValue (ValueInt64 var))
     | TypeVariableFloat \<Rightarrow> result (FloatValue (ValueFloat var))
     | TypeVariableString \<Rightarrow> result (StringValue (trunc_copy (MaxStringLength + 1) (ValueString var)))
     | TypeCommand \<Rightarrow> Inl (RuntimeError ''Unsupported variable type''))"

fun BuildUpdatePacket :: "'h Command list \<Rightarrow> SynchronizationBinding list \<Rightarrow> SyncUpdatePacketVar list res" where
  "BuildUpdatePacket cmds [] = Inr []"
| "BuildUpdatePacket cmds (b # bs) =
     rbind (BuildVariableUpdate (SyncId b) (cmds ! ServerVariable b)) (\<lambda>u.
     rbind (BuildUpdatePacket cmds bs) (\<lambda>us. Inr (u # us)))"

definition mark_peer :: "nat \<Rightarrow> SynchronizationBinding \<Rightarrow> SynchronizationBinding" where
  "mark_peer peerIndex b = b\<lparr>SynchronizedPeers := set_bit peerIndex (SynchronizedPeers b)\<rparr>"

definition SynchronizePeer :: "Session option \<Rightarrow> nat \<Rightarrow> ('h, 'm) SyncState_scheme
    \<Rightarrow> (SyncEffect list \<times> ('h, 'm) SyncState_scheme) res" where
  "SynchronizePeer active peerIndex s =
     (let outOfDateBindings = FindOutOfDateBindings peerIndex (syncBindings s) in
      if outOfDateBindings = [] then Inr ([], s)
      else rbind (BuildUpdatePacket (Commands s) outOfDateBindings) (\<lambda>packet.
        rbind (SendPacket active (int peerIndex)) (\<lambda>channel.
          Inr ([SyncSent (int peerIndex) channel packet],
               s\<lparr>syncBindings := map (\<lambda>b. if bit (SynchronizedPeers b) peerIndex then b else mark_peer peerIndex b)
                  (syncBindings s)\<rparr>))))"

definition IsPeerReady :: "Session \<Rightarrow> int \<Rightarrow> bool res" where
  "IsPeerReady session peerIndex =
     (if peerIndex = LocalPeerIndex session then Inr False
      else rbind (array_at (Peers session) peerIndex) (\<lambda>p.
        if \<not> PeerIsEstablished p then Inr False
        else rbind (array_at (PeerUnavailable session) peerIndex) (\<lambda>unavailable.
          if unavailable then Inr False
          else rbind (array_at (PeerChannelIndex session) peerIndex) (\<lambda>c. Inr (0 \<le> c)))))"

fun synchronize_peers_loop :: "Session \<Rightarrow> nat list \<Rightarrow> 17 word \<Rightarrow> ('h, 'm) SyncState_scheme
    \<Rightarrow> (17 word \<times> SyncEffect list \<times> ('h, 'm) SyncState_scheme) res" where
  "synchronize_peers_loop session [] visitedPeers s = Inr (visitedPeers, [], s)"
| "synchronize_peers_loop session (peer # peers) visitedPeers s =
     rbind (if int peer = LocalPeerIndex session then Inr False else IsPeerReady session (int peer)) (\<lambda>ready.
     if \<not> ready then synchronize_peers_loop session peers visitedPeers s
     else rbind (SynchronizePeer (Some session) peer s) (\<lambda>(es, s').
       rbind (synchronize_peers_loop session peers (set_bit peer visitedPeers) s') (\<lambda>(v, es', s'').
         Inr (v, es @ es', s''))))"

definition SynchronizePeers :: "Session \<Rightarrow> ('h, 'm) SyncState_scheme
    \<Rightarrow> (SyncEffect list \<times> ('h, 'm) SyncState_scheme) res" where
  "SynchronizePeers session s =
     rbind (synchronize_peers_loop session (connected_peers session) 0 s) (\<lambda>(visitedPeers, es, s').
       Inr (es, s'\<lparr>syncBindings := map (\<lambda>b. b\<lparr>SynchronizedPeers := SynchronizedPeers b AND visitedPeers\<rparr>)
                  (syncBindings s')\<rparr>))"

definition HostTick :: "('h, 'm SyncState_ext) handlers \<Rightarrow> Session
    \<Rightarrow> ('h, 'm) SyncState_scheme \<Rightarrow> (SyncEffect list \<times> ('h, 'm) SyncState_scheme) res" where
  "HostTick disp session s = rbind (TickBindings disp s) (SynchronizePeers session)"

definition SyncTick :: "('h, 'm SyncState_ext) handlers
    \<Rightarrow> ('h, 'm) SyncState_scheme \<Rightarrow> (SyncEffect list \<times> ('h, 'm) SyncState_scheme) res" where
  "SyncTick disp s = (case ActiveSession s of
     None \<Rightarrow> Inr ([], s)
   | Some session \<Rightarrow> if IsHost session then HostTick disp session s else Inr ([], s))"

subsection \<open>The packet\<close>

definition command_type_code :: "CommandType \<Rightarrow> u32" where
  "command_type_code t = (case t of TypeCommand \<Rightarrow> 0 | TypeVariableInt \<Rightarrow> 1 | TypeVariableInt64 \<Rightarrow> 2
     | TypeVariableFloat \<Rightarrow> 3 | TypeVariableString \<Rightarrow> 4)"

definition write_update :: "('e, 'r) StreamOps \<Rightarrow> 'e BitStream \<Rightarrow> SyncUpdatePacketVar \<Rightarrow> 'e BitStream res" where
  "write_update E stream var =
     (let s1 = WriteUnsigned E stream (UpdateID var) 32;
          s2 = WriteRange E s1 (command_type_code (UpdateType var)) 0 (5 - 1) in
      case UpdateType var of
        TypeVariableInt \<Rightarrow> rbind (int_member (UpdateValue var)) (\<lambda>i. Inr (WriteUnsigned E s2 i 32))
      | TypeVariableInt64 \<Rightarrow> rbind (int_member (UpdateValue var)) (\<lambda>i. Inr (WriteUnsigned E s2 i 64))
      | TypeVariableFloat \<Rightarrow> rbind (float_member (UpdateValue var)) (\<lambda>f. Inr (WriteBlock E s2 32 (le_bytes 4 f)))
      | TypeVariableString \<Rightarrow> rbind (string_member (UpdateValue var)) (\<lambda>t.
          Inr (WriteString E s2 (MaxStringLength + 1) t))
      | TypeCommand \<Rightarrow> Inl (RuntimeError ''Unsupported variable type''))"

fun SyncSerialize :: "('e, 'r) StreamOps \<Rightarrow> 'e BitStream \<Rightarrow> SyncUpdatePacketVar list \<Rightarrow> 'e BitStream res" where
  "SyncSerialize E stream [] = Inr stream"
| "SyncSerialize E stream (var # extraData) =
     rbind (write_update E stream var) (\<lambda>s. SyncSerialize E s extraData)"

text \<open>Reading one element. A string that \<open>ReadString\<close> refuses leaves the characters of the array as
  they were: its result is not looked at.\<close>

definition read_update :: "('e, 'r) StreamOps \<Rightarrow> 'r \<Rightarrow> SyncUpdatePacketVar option \<times> 'r" where
  "read_update E r =
     (let (i, r1) = ReadUnsigned E r 32; (t, r2) = ReadRange E r1 (0::u32) (5 - 1) in
      if t = 1 then (let (v, r3) = ReadUnsigned E r2 32 in
        (Some \<lparr>UpdateID = i, UpdateType = TypeVariableInt, UpdateValue = IntValue v\<rparr>, r3))
      else if t = 2 then (let (v, r3) = ReadUnsigned E r2 64 in
        (Some \<lparr>UpdateID = i, UpdateType = TypeVariableInt64, UpdateValue = IntValue v\<rparr>, r3))
      else if t = 3 then (let (bytes, r3) = ReadBlock E r2 32 in
        (Some \<lparr>UpdateID = i, UpdateType = TypeVariableFloat, UpdateValue = FloatValue (le_word bytes)\<rparr>, r3))
      else if t = 4 then (let (str, r3) = ReadString E r2 (MaxStringLength + 1) in
        (Some \<lparr>UpdateID = i, UpdateType = TypeVariableString,
           UpdateValue = (case str of None \<Rightarrow> NoValue | Some t' \<Rightarrow> StringValue t')\<rparr>, r3))
      else (None, r2))"

fun read_updates :: "('e, 'r) StreamOps \<Rightarrow> nat \<Rightarrow> 'r \<Rightarrow> SyncUpdatePacketVar list option \<times> 'r" where
  "read_updates E 0 r = (Some [], r)"
| "read_updates E (Suc n) r = (case read_update E r of
     (None, r1) \<Rightarrow> (None, r1)
   | (Some var, r1) \<Rightarrow> (let (vars, r2) = read_updates E n r1 in (map_option ((#) var) vars, r2)))"

definition SyncDeserialize :: "('e, 'r) StreamOps \<Rightarrow> 'r \<Rightarrow> int \<Rightarrow> SyncUpdatePacketVar list option \<times> 'r" where
  "SyncDeserialize E r extraDataCount = read_updates E (nat extraDataCount) r"

text \<open>The handler: at least one element, of 528 bytes, after the 32 bytes of the packet. A packet whose
  serialisation throws is left as far as it was written; those of \<open>BuildUpdatePacket\<close> never throw.\<close>

definition sync_handler :: "('e, 'r, unit \<times> SyncUpdatePacketVar list) RawPacketHandler" where
  "sync_handler = (let (lo, hi) = variadic_min 32 528 1 in
     variadic_handler 32 528 lo hi
       (\<lambda>E s _ extra. case SyncSerialize E s extra of Inl _ \<Rightarrow> s | Inr s' \<Rightarrow> s')
       (\<lambda>E r n. let (vars, r') = SyncDeserialize E r n in (map_option (Pair ()) vars, r')))"

subsection \<open>The client\<close>

fun handle_updates :: "FloatOps \<Rightarrow> ('h, 'm SyncState_ext) handlers \<Rightarrow> SyncUpdatePacketVar list
    \<Rightarrow> ('h, 'm) SyncState_scheme \<Rightarrow> ('h, 'm) SyncState_scheme res" where
  "handle_updates fo disp [] s = Inr s"
| "handle_updates fo disp (value # values) s = (case find_binding (syncBindings s) (UpdateID value) of
     None \<Rightarrow> handle_updates fo disp values s
   | Some b \<Rightarrow> rbind (SetVariableToUpdate fo disp (ClientVariable b) value s) (handle_updates fo disp values))"

definition SyncHandlePacket :: "FloatOps \<Rightarrow> ('h, 'm SyncState_ext) handlers \<Rightarrow> SyncUpdatePacketVar list
    \<Rightarrow> ('h, 'm) SyncState_scheme \<Rightarrow> ('h, 'm) SyncState_scheme res" where
  "SyncHandlePacket fo disp packet s = (case ActiveSession s of
     None \<Rightarrow> Inr s
   | Some session \<Rightarrow> if IsHost session then Inr s else handle_updates fo disp packet s)"

end
