(* ===== verification/SyncProtocol.thy ===== *)
theory SyncProtocol
  imports VarSync
begin

text \<open>
  What the synchronisation of variables guarantees: a tick of the host brings its client variables up
  to date, sends every ready peer the values it has not got, and a peer that applies what it is sent
  ends with the values of the host's server variables.
\<close>

subsection \<open>Values\<close>

definition f32_same :: "f32 \<Rightarrow> f32 \<Rightarrow> bool" where
  "f32_same f g \<longleftrightarrow> f32_eq f g \<or> (f32_is_nan f \<and> f32_is_nan g)"

lemma f32_same_refl [simp]: "f32_same f f"
  by (auto simp: f32_same_def f32_eq_def)

lemma f32_same_trans: "f32_same f g \<Longrightarrow> f32_same g h \<Longrightarrow> f32_same f h"
  by (auto simp: f32_same_def f32_eq_def)

text \<open>Two variables of the same type hold the same value; a variable of a client reflects a variable
  of the host, its text cut to the size of the packet's field.\<close>

definition same_value :: "'h Command \<Rightarrow> 'h Command \<Rightarrow> bool" where
  "same_value c d \<longleftrightarrow> Type c = Type d \<and> (case Type c of
     TypeVariableInt \<Rightarrow> ValueInt c = ValueInt d
   | TypeVariableInt64 \<Rightarrow> ValueInt64 c = ValueInt64 d
   | TypeVariableFloat \<Rightarrow> f32_same (ValueFloat c) (ValueFloat d)
   | TypeVariableString \<Rightarrow> ValueString c = ValueString d
   | TypeCommand \<Rightarrow> False)"

definition reflects :: "'h Command \<Rightarrow> 'k Command \<Rightarrow> bool" where
  "reflects c d \<longleftrightarrow> Type c = Type d \<and> (case Type c of
     TypeVariableInt \<Rightarrow> ValueInt c = ValueInt d
   | TypeVariableInt64 \<Rightarrow> ValueInt64 c = ValueInt64 d
   | TypeVariableFloat \<Rightarrow> f32_same (ValueFloat c) (ValueFloat d)
   | TypeVariableString \<Rightarrow> ValueString d = trunc_copy (MaxStringLength + 1) (ValueString c)
   | TypeCommand \<Rightarrow> False)"

lemma same_reflects: "same_value c c' \<Longrightarrow> reflects c' d \<Longrightarrow> reflects c d"
  by (auto simp: same_value_def reflects_def split: CommandType.splits intro: f32_same_trans)

lemma CompareVariables_same:
  "CompareVariables c d = Inr True \<Longrightarrow> same_value c d"
  by (auto simp: CompareVariables_def same_value_def f32_same_def split: CommandType.splits if_splits)

lemma CompareVariables_ok:
  "Type c = Type d \<Longrightarrow> Type c \<noteq> TypeCommand \<Longrightarrow> \<exists>r. CompareVariables c d = Inr r"
  by (cases "Type c") (simp_all add: CompareVariables_def)

lemma copy_value_ok:
  assumes "Type var = Type value" "Type var \<noteq> TypeCommand"
  shows "\<exists>c. copy_value var value = Inr c \<and> same_value value c \<and> Type c = Type var"
  using assms by (cases "Type var") (simp_all add: copy_value_def same_value_def Let_def)

lemma BuildVariableUpdate_ok:
  assumes "Type c \<noteq> TypeCommand"
  shows "\<exists>u. BuildVariableUpdate i c = Inr u \<and> UpdateID u = i \<and> UpdateType u = Type c
    \<and> (\<forall>fo d. Type d = Type c \<longrightarrow> (\<exists>d'. update_value fo d u = Inr (Some d') \<and> reflects c d' \<and> Type d' = Type d))"
proof -
  have "ucast (ucast (ValueInt c) :: u64) = ValueInt c"
    by (auto intro!: bit_word_eqI simp: bit_simps)
  with assms show ?thesis
    by (cases "Type c")
      (simp_all add: BuildVariableUpdate_def update_value_def reflects_def int_member_def float_member_def
        string_member_def Let_def)
qed

subsection \<open>Well-formed states\<close>

definition binding_ok :: "'h Command list \<Rightarrow> SynchronizationBinding \<Rightarrow> bool" where
  "binding_ok cmds b \<longleftrightarrow> ServerVariable b < length cmds \<and> ClientVariable b < length cmds
     \<and> Type (cmds ! ServerVariable b) = Type (cmds ! ClientVariable b)
     \<and> Type (cmds ! ServerVariable b) \<noteq> TypeCommand"

text \<open>The bindings have different IDs, no client variable is bound twice or is a server variable.\<close>

definition bindings_ok :: "'h Command list \<Rightarrow> SynchronizationBinding list \<Rightarrow> bool" where
  "bindings_ok cmds bs \<longleftrightarrow> (\<forall>b \<in> set bs. binding_ok cmds b)
     \<and> distinct (map SyncId bs) \<and> distinct (map ClientVariable bs)
     \<and> (\<forall>b \<in> set bs. \<forall>c \<in> set bs. ServerVariable b \<noteq> ClientVariable c)"

definition sync_ok :: "('h, 'm) SyncState_scheme \<Rightarrow> bool" where
  "sync_ok s \<longleftrightarrow> bindings_ok (Commands s) (syncBindings s)"

text \<open>The update events of the synchronised variables return, and change no variable and no binding.\<close>

definition quiet_events :: "('h, 'm SyncState_ext) handlers \<Rightarrow> bool" where
  "quiet_events disp \<longleftrightarrow> (\<forall>h args out s. \<exists>b o' s'. disp h args out s = Inr (b, o', s')
     \<and> Commands s' = Commands s \<and> syncBindings s' = syncBindings s \<and> ActiveSession s' = ActiveSession s)"

lemma notify_event_quiet:
  assumes "quiet_events disp"
  shows "\<exists>s'. notify_event disp i s = Inr s' \<and> Commands s' = Commands s \<and> syncBindings s' = syncBindings s
    \<and> ActiveSession s' = ActiveSession s"
proof (cases "UpdateEvent (Commands s ! i)")
  case (Some h)
  obtain b o' s' where "disp h [ValueString (Commands s ! i)] '''' s = Inr (b, o', s')"
    "Commands s' = Commands s" "syncBindings s' = syncBindings s" "ActiveSession s' = ActiveSession s"
    using assms unfolding quiet_events_def by blast
  with Some show ?thesis by (simp add: notify_event_def call_event_def Let_def)
qed (simp add: notify_event_def Let_def)

lemma SetVariableToVariable_quiet:
  assumes "quiet_events disp" "Type (Commands s ! i) = Type (Commands s ! j)" "Type (Commands s ! i) \<noteq> TypeCommand"
  shows "\<exists>c s'. SetVariableToVariable disp i j s = Inr s' \<and> Commands s' = (Commands s)[i := c]
    \<and> same_value (Commands s ! j) c \<and> Type c = Type (Commands s ! i)
    \<and> syncBindings s' = syncBindings s"
proof -
  obtain c where c: "copy_value (Commands s ! i) (Commands s ! j) = Inr c"
    "same_value (Commands s ! j) c" "Type c = Type (Commands s ! i)"
    using copy_value_ok [OF assms(2,3)] by blast
  obtain s' where "notify_event disp i (set_command i c s) = Inr s'"
    "Commands s' = Commands (set_command i c s)" "syncBindings s' = syncBindings (set_command i c s)"
    using notify_event_quiet [OF assms(1)] by blast
  with c show ?thesis
    by (intro exI [of _ c] exI [of _ s']) (simp add: SetVariableToVariable_def set_command_def)
qed

subsection \<open>The tick of the host\<close>

text \<open>What never changes of a binding.\<close>

definition static :: "SynchronizationBinding \<Rightarrow> SyncID \<times> nat \<times> nat" where
  "static b = (SyncId b, ServerVariable b, ClientVariable b)"

lemma static_update [simp]: "static (b\<lparr>SynchronizedPeers := w\<rparr>) = static b" "static (mark_peer p b) = static b"
  by (simp_all add: static_def mark_peer_def)

lemma static_members: "static b = static c \<Longrightarrow> SyncId b = SyncId c"
  "static b = static c \<Longrightarrow> ServerVariable b = ServerVariable c"
  "static b = static c \<Longrightarrow> ClientVariable b = ClientVariable c"
  by (simp_all add: static_def)

lemma bindings_ok_cong:
  assumes "map static bs' = map static bs" "length cmds' = length cmds"
    and "\<And>i. i < length cmds \<Longrightarrow> Type (cmds' ! i) = Type (cmds ! i)" "bindings_ok cmds bs"
  shows "bindings_ok cmds' bs'"
proof -
  have maps: "map SyncId bs' = map SyncId bs" "map ClientVariable bs' = map ClientVariable bs"
    using arg_cong [OF assms(1), of "map fst"] arg_cong [OF assms(1), of "map (\<lambda>x. snd (snd x))"]
    by (simp_all add: static_def o_def)
  have ex: "\<exists>c \<in> set bs. static b = static c" if "b \<in> set bs'" for b
    using that arg_cong [OF assms(1), of set] by (auto simp: image_iff)
  have "binding_ok cmds' b" if b: "b \<in> set bs'" for b
  proof -
    obtain c where c: "c \<in> set bs" "static b = static c" using ex [OF b] by blast
    then have "binding_ok cmds c" using assms(4) by (simp add: bindings_ok_def)
    then show ?thesis using static_members [OF c(2)] assms(2,3) by (auto simp: binding_ok_def)
  qed
  moreover have "ServerVariable b \<noteq> ClientVariable c" if bc: "b \<in> set bs'" "c \<in> set bs'" for b c
  proof -
    obtain b0 c0 where "b0 \<in> set bs" "static b = static b0" "c0 \<in> set bs" "static c = static c0"
      using ex [OF bc(1)] ex [OF bc(2)] by blast
    then show ?thesis using assms(4) static_members by (metis bindings_ok_def)
  qed
  ultimately show ?thesis using assms(4) maps by (simp add: bindings_ok_def)
qed

definition unchanged :: "'h Command list \<Rightarrow> SynchronizationBinding \<Rightarrow> bool" where
  "unchanged cmds b \<longleftrightarrow> CompareVariables (cmds ! ServerVariable b) (cmds ! ClientVariable b) = Inr True"

text \<open>What visiting the bindings at the positions \<open>ks\<close> does: their client variables get the value of
  the server variables, the changed ones are to be sent again, everything else stays.\<close>

definition ticked :: "nat set \<Rightarrow> ('h, 'm) SyncState_scheme \<Rightarrow> ('h, 'm) SyncState_scheme \<Rightarrow> bool" where
  "ticked ks s s' \<longleftrightarrow> length (Commands s') = length (Commands s)
    \<and> (\<forall>i. Type (Commands s' ! i) = Type (Commands s ! i))
    \<and> (\<forall>i. (\<forall>k \<in> ks. i \<noteq> ClientVariable (syncBindings s ! k)) \<longrightarrow> Commands s' ! i = Commands s ! i)
    \<and> (\<forall>k \<in> ks. same_value (Commands s ! ServerVariable (syncBindings s ! k))
          (Commands s' ! ClientVariable (syncBindings s ! k))
        \<and> (unchanged (Commands s) (syncBindings s ! k) \<longrightarrow>
             Commands s' ! ClientVariable (syncBindings s ! k) = Commands s ! ClientVariable (syncBindings s ! k)))
    \<and> length (syncBindings s') = length (syncBindings s)
    \<and> (\<forall>k < length (syncBindings s). syncBindings s' ! k =
         (if k \<in> ks \<and> \<not> unchanged (Commands s) (syncBindings s ! k)
          then (syncBindings s ! k)\<lparr>SynchronizedPeers := 0\<rparr> else syncBindings s ! k))"

lemma tickedD:
  assumes "ticked ks s s'"
  shows "length (Commands s') = length (Commands s)" "Type (Commands s' ! i) = Type (Commands s ! i)"
    "(\<And>k. k \<in> ks \<Longrightarrow> i \<noteq> ClientVariable (syncBindings s ! k)) \<Longrightarrow> Commands s' ! i = Commands s ! i"
    "k \<in> ks \<Longrightarrow> same_value (Commands s ! ServerVariable (syncBindings s ! k))
          (Commands s' ! ClientVariable (syncBindings s ! k))"
    "k \<in> ks \<Longrightarrow> unchanged (Commands s) (syncBindings s ! k) \<Longrightarrow>
       Commands s' ! ClientVariable (syncBindings s ! k) = Commands s ! ClientVariable (syncBindings s ! k)"
    "length (syncBindings s') = length (syncBindings s)"
    "k < length (syncBindings s) \<Longrightarrow> syncBindings s' ! k =
       (if k \<in> ks \<and> \<not> unchanged (Commands s) (syncBindings s ! k)
        then (syncBindings s ! k)\<lparr>SynchronizedPeers := 0\<rparr> else syncBindings s ! k)"
  using assms unfolding ticked_def by blast+

lemma ticked_static: "ticked ks s s' \<Longrightarrow> map static (syncBindings s') = map static (syncBindings s)"
  by (rule nth_equalityI) (simp_all add: tickedD(6,7))

lemma ticked_ok: "ticked ks s s' \<Longrightarrow> sync_ok s \<Longrightarrow> sync_ok s'"
  unfolding sync_ok_def by (rule bindings_ok_cong) (simp_all add: ticked_static tickedD(1,2))

lemma bindings_apart:
  assumes "bindings_ok cmds bs" "j < length bs" "k < length bs"
  shows "ServerVariable (bs ! j) \<noteq> ClientVariable (bs ! k)"
    "j \<noteq> k \<Longrightarrow> ClientVariable (bs ! j) \<noteq> ClientVariable (bs ! k)"
proof -
  have "bs ! j \<in> set bs" "bs ! k \<in> set bs" using assms by simp_all
  then show "ServerVariable (bs ! j) \<noteq> ClientVariable (bs ! k)"
    using assms(1) unfolding bindings_ok_def by blast
  show "j \<noteq> k \<Longrightarrow> ClientVariable (bs ! j) \<noteq> ClientVariable (bs ! k)"
    using assms by (auto simp: bindings_ok_def distinct_conv_nth)
qed

lemma ticked_trans:
  assumes "ticked ks s s1" "ticked js s1 s2" "sync_ok s" "ks \<inter> js = {}"
    and "ks \<union> js \<subseteq> {..<length (syncBindings s)}"
  shows "ticked (ks \<union> js) s s2"
proof -
  note d1 = tickedD [OF assms(1)] and d2 = tickedD [OF assms(2)]
  note apart = bindings_apart [OF assms(3) [unfolded sync_ok_def]]
  have bnd: "k < length (syncBindings s)" if "k \<in> ks \<union> js" for k using assms(5) that by auto
  have cv: "ClientVariable (syncBindings s1 ! k) = ClientVariable (syncBindings s ! k)"
    if "k < length (syncBindings s)" for k using d1(7) [OF that] by simp
  have sv: "Commands s1 ! ServerVariable (syncBindings s ! j) = Commands s ! ServerVariable (syncBindings s ! j)"
    if "j < length (syncBindings s)" for j using that bnd by (intro d1(3) apart(1)) auto
  have late: "Commands s1 ! ClientVariable (syncBindings s ! j) = Commands s ! ClientVariable (syncBindings s ! j)
      \<and> syncBindings s1 ! j = syncBindings s ! j
      \<and> unchanged (Commands s1) (syncBindings s ! j) = unchanged (Commands s) (syncBindings s ! j)"
    if j: "j < length (syncBindings s)" "j \<notin> ks" for j
  proof -
    have "Commands s1 ! ClientVariable (syncBindings s ! j) = Commands s ! ClientVariable (syncBindings s ! j)"
      using j bnd by (intro d1(3) apart(2)) auto
    with sv [OF j(1)] d1(7) [OF j(1)] j show ?thesis by (simp add: unchanged_def)
  qed
  have early: "Commands s2 ! ClientVariable (syncBindings s ! k) = Commands s1 ! ClientVariable (syncBindings s ! k)"
    if "k \<in> ks" for k
    using that bnd assms(4) cv by (intro d2(3)) (metis UnI1 UnI2 apart(2) disjoint_iff)
  show ?thesis
    unfolding ticked_def
  proof (intro conjI allI ballI impI)
    fix i assume i: "\<forall>k \<in> ks \<union> js. i \<noteq> ClientVariable (syncBindings s ! k)"
    then have "Commands s2 ! i = Commands s1 ! i" using bnd cv by (intro d2(3)) auto
    then show "Commands s2 ! i = Commands s ! i" using d1(3) i by simp
  next
    fix k assume k: "k \<in> ks \<union> js"
    show "same_value (Commands s ! ServerVariable (syncBindings s ! k))
        (Commands s2 ! ClientVariable (syncBindings s ! k))"
      using k d1(4) d2(4) early late [of k] sv [of k] bnd by (cases "k \<in> ks") fastforce+
  next
    fix k assume k: "k \<in> ks \<union> js" "unchanged (Commands s) (syncBindings s ! k)"
    then show "Commands s2 ! ClientVariable (syncBindings s ! k) = Commands s ! ClientVariable (syncBindings s ! k)"
      using d1(5) d2(5) early late [of k] bnd by (cases "k \<in> ks") fastforce+
  next
    fix k assume "k < length (syncBindings s)"
    then show "syncBindings s2 ! k = (if k \<in> ks \<union> js \<and> \<not> unchanged (Commands s) (syncBindings s ! k)
        then (syncBindings s ! k)\<lparr>SynchronizedPeers := 0\<rparr> else syncBindings s ! k)"
      using d1(6,7) d2(7) late [of k] assms(4) by (cases "k \<in> ks") auto
  qed (simp_all add: d1 d2)
qed

lemma TickBinding_quiet:
  assumes "quiet_events disp" "sync_ok s" "k < length (syncBindings s)"
  shows "\<exists>s'. TickBinding disp k s = Inr s' \<and> ticked {k} s s'"
proof -
  let ?b = "syncBindings s ! k"
  have "binding_ok (Commands s) ?b" using assms(2,3) by (simp add: sync_ok_def bindings_ok_def)
  then have t: "Type (Commands s ! ServerVariable ?b) = Type (Commands s ! ClientVariable ?b)"
    "Type (Commands s ! ClientVariable ?b) \<noteq> TypeCommand" "Type (Commands s ! ServerVariable ?b) \<noteq> TypeCommand"
    "ClientVariable ?b < length (Commands s)"
    by (auto simp: binding_ok_def)
  show ?thesis
  proof (cases "unchanged (Commands s) ?b")
    case True
    then show ?thesis
      using assms(3) CompareVariables_same [of "Commands s ! ServerVariable ?b"]
      by (intro exI [of _ s]) (simp add: TickBinding_def ticked_def unchanged_def Let_def)
  next
    case False
    then have cmp: "CompareVariables (Commands s ! ServerVariable ?b) (Commands s ! ClientVariable ?b) = Inr False"
      using CompareVariables_ok [OF t(1,3)] by (auto simp: unchanged_def)
    obtain c s' where "SetVariableToVariable disp (ClientVariable ?b) (ServerVariable ?b) s = Inr s'"
      "Commands s' = (Commands s)[ClientVariable ?b := c]" "same_value (Commands s ! ServerVariable ?b) c"
      "Type c = Type (Commands s ! ClientVariable ?b)" "syncBindings s' = syncBindings s"
      using SetVariableToVariable_quiet [OF assms(1) t(1)[symmetric] t(2)] by blast
    with cmp False assms(3) t(4) show ?thesis
      by (intro exI [of _ "reset_peers k s'"])
        (simp add: TickBinding_def reset_peers_def ticked_def nth_list_update Let_def)
  qed
qed

lemma tick_bindings_loop_quiet:
  assumes "quiet_events disp" "sync_ok s" "distinct ks" "set ks \<subseteq> {..<length (syncBindings s)}"
  shows "\<exists>s'. tick_bindings_loop disp ks s = Inr s' \<and> ticked (set ks) s s'"
  using assms(2-4)
proof (induction ks arbitrary: s)
  case (Cons k ks)
  then obtain s1 where s1: "TickBinding disp k s = Inr s1" "ticked {k} s s1"
    using TickBinding_quiet [OF assms(1)] by fastforce
  obtain s' where "tick_bindings_loop disp ks s1 = Inr s'" "ticked (set ks) s1 s'"
    using Cons.IH [OF ticked_ok [OF s1(2)]] Cons.prems tickedD(6) [OF s1(2)] by fastforce
  with s1 ticked_trans [OF s1(2), of "set ks" s'] Cons.prems show ?case by fastforce
qed (simp add: ticked_def)

lemma TickBindings_quiet:
  assumes "quiet_events disp" "sync_ok s"
  shows "\<exists>s'. TickBindings disp s = Inr s' \<and> ticked {..<length (syncBindings s)} s s'"
proof -
  have "{..<length (syncBindings s)} = set [0..<length (syncBindings s)]" by auto
  then show ?thesis
    unfolding TickBindings_def using tick_bindings_loop_quiet [OF assms, of "[0..<length (syncBindings s)]"] by simp
qed

subsection \<open>The packets of a tick\<close>

definition ready_peers :: "Session \<Rightarrow> nat list" where
  "ready_peers session = filter (\<lambda>p. IsPeerReady session (int p) = Inr True) (connected_peers session)"

definition built :: "'h Command list \<Rightarrow> SynchronizationBinding \<Rightarrow> SyncUpdatePacketVar" where
  "built cmds b = (case BuildVariableUpdate (SyncId b) (cmds ! ServerVariable b) of 
     Inr u \<Rightarrow> u | Inl _ \<Rightarrow> \<lparr>UpdateID = SyncId b, UpdateType = TypeCommand, UpdateValue = NoValue\<rparr>)"

definition sent_to :: "Session \<Rightarrow> 'h Command list \<Rightarrow> SynchronizationBinding list
    \<Rightarrow> nat \<Rightarrow> SyncEffect list" where
  "sent_to session cmds bs p =
     (if FindOutOfDateBindings p bs = [] then []
      else [SyncSent (int p) (Some (PeerChannelIndex session ! p)) (map (built cmds) (FindOutOfDateBindings p bs))])"

lemma IsPeerReady_ok:
  assumes "session_ok session" "p < MaxPeers"
  shows "\<exists>r. IsPeerReady session (int p) = Inr r"
    "IsPeerReady session (int p) = Inr True \<Longrightarrow> 0 \<le> PeerChannelIndex session ! p \<and> int p \<noteq> LocalPeerIndex session"
  using assms by (auto simp: IsPeerReady_def session_ok_def array_at_nat split: if_splits)

lemma BuildUpdatePacket_built:
  "\<forall>b \<in> set bs. binding_ok cmds b \<Longrightarrow> BuildUpdatePacket cmds bs = Inr (map (built cmds) bs)"
proof (induction bs)
  case (Cons b bs)
  then have "Type (cmds ! ServerVariable b) \<noteq> TypeCommand" by (auto simp: binding_ok_def)
  then obtain u where "BuildVariableUpdate (SyncId b) (cmds ! ServerVariable b) = Inr u"
    using BuildVariableUpdate_ok by blast
  with Cons show ?case by (simp add: built_def)
qed simp

lemma mark_marked: "bit (SynchronizedPeers b) p \<Longrightarrow> mark_peer p b = b"
proof -
  assume "bit (SynchronizedPeers b) p"
  then have "set_bit p (SynchronizedPeers b) = SynchronizedPeers b"
    by (auto intro!: bit_word_eqI simp: bit_simps)
  then show ?thesis by (simp add: mark_peer_def)
qed

lemma bit_mark_peer: "bit (SynchronizedPeers (mark_peer p b)) q \<longleftrightarrow> bit (SynchronizedPeers b) q \<or> (p = q \<and> q < 17)"
  by (auto simp: mark_peer_def bit_simps)

lemma SynchronizePeer_ok:
  assumes "session_ok session" "p < MaxPeers" "IsPeerReady session (int p) = Inr True"
    and "\<forall>b \<in> set (syncBindings s). binding_ok (Commands s) b"
  shows "SynchronizePeer (Some session) p s = Inr (sent_to session (Commands s) (syncBindings s) p,
    s\<lparr>syncBindings := map (mark_peer p) (syncBindings s)\<rparr>)"
proof -
  let ?o = "FindOutOfDateBindings p (syncBindings s)"
  have c: "SendPacket (Some session) (int p) = Inr (Some (PeerChannelIndex session ! p))"
    using assms(1,2) IsPeerReady_ok(2) [OF assms(1-3)] by (simp add: SendPacket_def session_ok_def array_at_nat)
  have m: "map (\<lambda>b. if bit (SynchronizedPeers b) p then b else mark_peer p b) (syncBindings s)
      = map (mark_peer p) (syncBindings s)"
    by (simp add: mark_marked)
  have b: "BuildUpdatePacket (Commands s) ?o = Inr (map (built (Commands s)) ?o)"
    using assms(4) by (intro BuildUpdatePacket_built) (simp add: FindOutOfDateBindings_def)
  have e: "?o = [] \<Longrightarrow> map (mark_peer p) (syncBindings s) = syncBindings s"
    by (rule map_idI) (auto simp: FindOutOfDateBindings_def filter_empty_conv mark_marked)
  show ?thesis using b c m e by (simp add: SynchronizePeer_def sent_to_def Let_def)
qed

lemma sent_to_mark:
  assumes "p \<noteq> q"
  shows "sent_to session cmds (map (mark_peer q) bs) p = sent_to session cmds bs p"
proof -
  have "FindOutOfDateBindings p (map (mark_peer q) bs) = map (mark_peer q) (FindOutOfDateBindings p bs)"
    using assms by (simp add: FindOutOfDateBindings_def filter_map o_def bit_mark_peer)
  moreover have "built cmds (mark_peer q b) = built cmds b" for b
    by (simp add: built_def mark_peer_def split: sum.split)
  ultimately show ?thesis by (simp add: sent_to_def o_def)
qed

lemma binding_ok_mark [simp]: "binding_ok cmds (mark_peer p b) = binding_ok cmds b"
  by (simp add: binding_ok_def mark_peer_def)

definition mark_all :: "nat list \<Rightarrow> SynchronizationBinding \<Rightarrow> SynchronizationBinding" where
  "mark_all ps b = foldl (\<lambda>b p. mark_peer p b) b ps"

lemma mark_all_facts:
  "static (mark_all ps b) = static b"
  "q < 17 \<Longrightarrow> bit (SynchronizedPeers (mark_all ps b)) q \<longleftrightarrow> bit (SynchronizedPeers b) q \<or> q \<in> set ps"
  unfolding mark_all_def by (induction ps arbitrary: b) (auto simp: bit_mark_peer)

lemma bit_foldl_set_bit:
  "q < 17 \<Longrightarrow> bit (foldl (\<lambda>w p. set_bit p w) (w :: 17 word) ps) q \<longleftrightarrow> bit w q \<or> q \<in> set ps"
  by (induction ps arbitrary: w) (auto simp: bit_simps)

lemma synchronize_peers_loop_ok:
  assumes "session_ok session" "distinct ps" "\<forall>p \<in> set ps. p < MaxPeers"
    and "\<forall>b \<in> set (syncBindings s). binding_ok (Commands s) b"
    and "rs = filter (\<lambda>p. IsPeerReady session (int p) = Inr True) ps"
  shows "synchronize_peers_loop session ps v s = Inr (foldl (\<lambda>w p. set_bit p w) v rs,
    concat (map (sent_to session (Commands s) (syncBindings s)) rs),
    s\<lparr>syncBindings := map (mark_all rs) (syncBindings s)\<rparr>)"
  using assms(2-5)
proof (induction ps arbitrary: v s rs)
  case Nil
  have "map (mark_all []) (syncBindings s) = syncBindings s" by (rule map_idI) (simp add: mark_all_def)
  with Nil show ?case by simp
next
  case (Cons p ps)
  have p: "p < MaxPeers" using Cons.prems by simp
  show ?case
  proof (cases "IsPeerReady session (int p) = Inr True")
    case False
    then have "int p = LocalPeerIndex session \<or> IsPeerReady session (int p) = Inr False"
      using IsPeerReady_ok(1) [OF assms(1) p] by auto
    with False Cons show ?thesis by auto
  next
    case True
    let ?rs = "filter (\<lambda>p. IsPeerReady session (int p) = Inr True) ps"
    let ?s = "s\<lparr>syncBindings := map (mark_peer p) (syncBindings s)\<rparr>"
    have l: "int p \<noteq> LocalPeerIndex session" using IsPeerReady_ok(2) [OF assms(1) p True] by blast
    have "\<forall>b \<in> set (syncBindings ?s). binding_ok (Commands ?s) b" using Cons.prems(3) by simp
    note IH = Cons.IH [OF _ _ this refl, of "set_bit p v"]
    have "map (sent_to session (Commands s) (map (mark_peer p) (syncBindings s))) ?rs
        = map (sent_to session (Commands s) (syncBindings s)) ?rs"
      using Cons.prems(1) by (intro map_cong refl sent_to_mark) auto
    with True l IH Cons.prems SynchronizePeer_ok [OF assms(1) p True Cons.prems(3)]
    show ?thesis by (simp add: mark_all_def o_def)
  qed
qed

text \<open>A tick of the host, in one statement.\<close>

lemma HostTick_summary:
  assumes "quiet_events disp" "sync_ok s" "session_ok session"
  shows "\<exists>es mid s'. HostTick disp session s = Inr (es, s') \<and> ticked {..<length (syncBindings s)} s mid
    \<and> Commands s' = Commands mid \<and> map static (syncBindings s') = map static (syncBindings s)
    \<and> (\<forall>b \<in> set (syncBindings s'). \<forall>q < 17. bit (SynchronizedPeers b) q \<longleftrightarrow> q \<in> set (ready_peers session))
    \<and> es = concat (map (sent_to session (Commands mid) (syncBindings mid)) (ready_peers session))"
proof -
  obtain mid where mid: "TickBindings disp s = Inr mid" "ticked {..<length (syncBindings s)} s mid"
    using TickBindings_quiet [OF assms(1,2)] by blast
  have "\<forall>b \<in> set (syncBindings mid). binding_ok (Commands mid) b"
    using ticked_ok [OF mid(2) assms(2)] by (simp add: sync_ok_def bindings_ok_def)
  moreover have "distinct (connected_peers session)" "\<forall>p \<in> set (connected_peers session). p < MaxPeers"
    using assms(3) by (simp_all add: session_ok_def)
  ultimately have l: "synchronize_peers_loop session (connected_peers session) 0 mid =
      Inr (foldl (\<lambda>w p. set_bit p w) 0 (ready_peers session),
        concat (map (sent_to session (Commands mid) (syncBindings mid)) (ready_peers session)),
        mid\<lparr>syncBindings := map (mark_all (ready_peers session)) (syncBindings mid)\<rparr>)"
    using synchronize_peers_loop_ok [OF assms(3)] unfolding ready_peers_def by blast
  let ?keep = "foldl (\<lambda>w p. set_bit p w) 0 (ready_peers session)"
  let ?bs = "map (\<lambda>b. b\<lparr>SynchronizedPeers := SynchronizedPeers b AND ?keep\<rparr>)
    (map (mark_all (ready_peers session)) (syncBindings mid))"
  show ?thesis
  proof (intro exI conjI)
    show "HostTick disp session s = Inr (concat (map (sent_to session (Commands mid) (syncBindings mid))
        (ready_peers session)), mid\<lparr>syncBindings := ?bs\<rparr>)"
      using mid(1) by (simp add: HostTick_def SynchronizePeers_def l)
    show "map static (syncBindings (mid\<lparr>syncBindings := ?bs\<rparr>)) = map static (syncBindings s)"
      by (simp add: o_def mark_all_facts ticked_static [OF mid(2)])
    show "\<forall>b \<in> set (syncBindings (mid\<lparr>syncBindings := ?bs\<rparr>)). \<forall>q < 17.
        bit (SynchronizedPeers b) q \<longleftrightarrow> q \<in> set (ready_peers session)"
      by (auto simp: bit_and_iff bit_foldl_set_bit mark_all_facts)
  qed (simp_all add: mid(2))
qed

subsection \<open>The client\<close>

text \<open>The client variable bound to an ID.\<close>

definition client_of :: "('h, 'm) SyncState_scheme \<Rightarrow> SyncID \<Rightarrow> nat" where
  "client_of r i = ClientVariable (the (find_binding (syncBindings r) i))"

definition client_var :: "('h, 'm) SyncState_scheme \<Rightarrow> SyncID \<Rightarrow> 'h Command" where
  "client_var r i = Commands r ! client_of r i"

text \<open>The client knows the binding, with variables of the host's type.\<close>

definition knows :: "('h, 'm) SyncState_scheme \<Rightarrow> 'k Command list \<Rightarrow> SynchronizationBinding \<Rightarrow> bool" where
  "knows r cmds b \<longleftrightarrow> find_binding (syncBindings r) (SyncId b) \<noteq> None
     \<and> Type (client_var r (SyncId b)) = Type (cmds ! ServerVariable b)"

lemma find_binding_member:
  assumes "find_binding bs i = Some b"
  shows "b \<in> set bs" "SyncId b = i"
  using find_SomeD [of "\<lambda>b. SyncId b = i" bs b] assms by (simp_all add: find_binding_def)

lemma client_of_inj:
  assumes "sync_ok r" "find_binding (syncBindings r) i \<noteq> None" "find_binding (syncBindings r) j \<noteq> None" "i \<noteq> j"
  shows "client_of r i \<noteq> client_of r j"
proof -
  obtain b c where bc: "find_binding (syncBindings r) i = Some b" "find_binding (syncBindings r) j = Some c"
    using assms(2,3) by auto
  note m = find_binding_member [OF bc(1)] find_binding_member [OF bc(2)]
  have "b \<noteq> c" using m assms(4) by auto
  then have "ClientVariable b \<noteq> ClientVariable c"
    using m(1,3) assms(1) by (auto simp: sync_ok_def bindings_ok_def distinct_map inj_on_def)
  with bc show ?thesis by (simp add: client_of_def)
qed

lemma client_of_bound:
  "sync_ok r \<Longrightarrow> find_binding (syncBindings r) i \<noteq> None \<Longrightarrow> client_of r i < length (Commands r)"
  using find_binding_member(1) by (fastforce simp: client_of_def sync_ok_def bindings_ok_def binding_ok_def)

text \<open>One update.\<close>

lemma SetVariableToUpdate_quiet:
  fixes r :: "('h, 'm) SyncState_scheme"
  assumes "quiet_events disp" "sync_ok r" "binding_ok cmds b" "knows r cmds b"
  shows "\<exists>d r'. SetVariableToUpdate fo disp (client_of r (SyncId b)) (built cmds b) r = Inr r'
    \<and> Commands r' = (Commands r)[client_of r (SyncId b) := d] \<and> syncBindings r' = syncBindings r
    \<and> ActiveSession r' = ActiveSession r
    \<and> reflects (cmds ! ServerVariable b) d \<and> Type d = Type (client_var r (SyncId b))"
proof -
  have "Type (cmds ! ServerVariable b) \<noteq> TypeCommand" using assms(3) by (auto simp: binding_ok_def)
  then obtain u where u: "BuildVariableUpdate (SyncId b) (cmds ! ServerVariable b) = Inr u"
    "\<forall>fo (d :: 'h Command). Type d = Type (cmds ! ServerVariable b) \<longrightarrow>
      (\<exists>d'. update_value fo d u = Inr (Some d') \<and> reflects (cmds ! ServerVariable b) d' \<and> Type d' = Type d)"
    using BuildVariableUpdate_ok by blast
  then obtain d where d: "update_value fo (client_var r (SyncId b)) u = Inr (Some d)"
    "reflects (cmds ! ServerVariable b) d" "Type d = Type (client_var r (SyncId b))"
    using assms(4) unfolding knows_def by blast
  obtain r' where "notify_event disp (client_of r (SyncId b)) (set_command (client_of r (SyncId b)) d r) = Inr r'"
    "Commands r' = Commands (set_command (client_of r (SyncId b)) d r)"
    "syncBindings r' = syncBindings (set_command (client_of r (SyncId b)) d r)"
    "ActiveSession r' = ActiveSession (set_command (client_of r (SyncId b)) d r)"
    using notify_event_quiet [OF assms(1)] by blast
  with u(1) d show ?thesis
    by (intro exI [of _ d] exI [of _ r'])
      (simp add: SetVariableToUpdate_def built_def client_var_def set_command_def)
qed

lemma handle_updates_quiet:
  assumes "quiet_events disp" "sync_ok r" "distinct (map SyncId bs)"
    and "\<forall>b \<in> set bs. binding_ok cmds b \<and> knows r cmds b"
  shows "\<exists>r'. handle_updates fo disp (map (built cmds) bs) r = Inr r'
    \<and> length (Commands r') = length (Commands r) \<and> (\<forall>i. Type (Commands r' ! i) = Type (Commands r ! i))
    \<and> syncBindings r' = syncBindings r \<and> ActiveSession r' = ActiveSession r
    \<and> (\<forall>b \<in> set bs. reflects (cmds ! ServerVariable b) (client_var r' (SyncId b)))
    \<and> (\<forall>i. (\<forall>b \<in> set bs. i \<noteq> client_of r (SyncId b)) \<longrightarrow> Commands r' ! i = Commands r ! i)"
  using assms(2-4)
proof (induction bs arbitrary: r)
  case (Cons b bs)
  let ?i = "client_of r (SyncId b)"
  have b: "binding_ok cmds b" "knows r cmds b" using Cons.prems(3) by simp_all
  then obtain c where c: "find_binding (syncBindings r) (SyncId b) = Some c" by (auto simp: knows_def)
  obtain d r1 where r1: "SetVariableToUpdate fo disp ?i (built cmds b) r = Inr r1"
    "Commands r1 = (Commands r)[?i := d]" "syncBindings r1 = syncBindings r" "ActiveSession r1 = ActiveSession r"
    "reflects (cmds ! ServerVariable b) d" "Type d = Type (client_var r (SyncId b))"
    using SetVariableToUpdate_quiet [OF assms(1) Cons.prems(1) b] by blast
  have i: "?i < length (Commands r)" using client_of_bound [OF Cons.prems(1)] c by simp
  have same: "client_of r1 j = client_of r j" for j by (simp add: client_of_def r1(3))
  have ty: "Type (Commands r1 ! j) = Type (Commands r ! j)" for j
    using r1(2,6) i by (cases "j = ?i") (simp_all add: client_var_def)
  have ok1: "sync_ok r1"
    using bindings_ok_cong [OF refl _ ty] Cons.prems(1) by (simp add: sync_ok_def r1(2,3))
  have "\<forall>b \<in> set bs. binding_ok cmds b \<and> knows r1 cmds b"
    using Cons.prems(3) by (simp add: knows_def client_var_def same ty r1(3))
  with Cons.IH [OF ok1] Cons.prems(2) obtain r' where r':
    "handle_updates fo disp (map (built cmds) bs) r1 = Inr r'"
    "length (Commands r') = length (Commands r1)" "\<forall>i. Type (Commands r' ! i) = Type (Commands r1 ! i)"
    "syncBindings r' = syncBindings r1" "ActiveSession r' = ActiveSession r1"
    "\<forall>b \<in> set bs. reflects (cmds ! ServerVariable b) (client_var r' (SyncId b))"
    "\<forall>i. (\<forall>b \<in> set bs. i \<noteq> client_of r1 (SyncId b)) \<longrightarrow> Commands r' ! i = Commands r1 ! i"
    by auto
  have id: "UpdateID (built cmds b) = SyncId b"
    using b(1) BuildVariableUpdate_ok [of "cmds ! ServerVariable b" "SyncId b"]
    by (auto simp: built_def binding_ok_def)
  have "?i \<noteq> client_of r (SyncId b')" if "b' \<in> set bs" for b'
    using that Cons.prems by (intro client_of_inj) (auto simp: knows_def)
  then have keep: "Commands r' ! ?i = d" using r'(7) r1(2) i same by simp
  then have "client_var r' (SyncId b) = d" by (simp add: client_var_def client_of_def r'(4) r1(3))
  moreover have "handle_updates fo disp (map (built cmds) (b # bs)) r = Inr r'"
    using c r1(1) r'(1) by (simp add: id client_of_def)
  moreover have "Commands r' ! j = Commands r ! j" if "\<forall>b' \<in> set (b # bs). j \<noteq> client_of r (SyncId b')" for j
    using that r'(7) r1(2) same by simp
  ultimately show ?case
    using r' r1 ty by (intro exI [of _ r']) simp
qed simp

subsection \<open>A tick, delivered\<close>

text \<open>The packets of a tick that reach a peer, and the peer handling packets one after the other.\<close>

definition packets_for :: "nat \<Rightarrow> SyncEffect list \<Rightarrow> SyncUpdatePacketVar list list" where
  "packets_for p es = map sync_vars (filter (\<lambda>e. sync_peer e = int p \<and> sync_channel e \<noteq> None) es)"

fun handle_packets :: "FloatOps \<Rightarrow> ('h, 'm SyncState_ext) handlers \<Rightarrow> SyncUpdatePacketVar list list
    \<Rightarrow> ('h, 'm) SyncState_scheme \<Rightarrow> ('h, 'm) SyncState_scheme res" where
  "handle_packets fo disp [] r = Inr r"
| "handle_packets fo disp (u # us) r = rbind (SyncHandlePacket fo disp u r) (handle_packets fo disp us)"

text \<open>A peer is in step with the host when the client variables of the bindings that are marked as sent
  reflect the host's own client variables.\<close>

definition in_step :: "nat \<Rightarrow> ('h, 'm) SyncState_scheme \<Rightarrow> ('h, 'n) SyncState_scheme \<Rightarrow> bool" where
  "in_step p host r \<longleftrightarrow> (\<forall>b \<in> set (syncBindings host). bit (SynchronizedPeers b) p \<longrightarrow>
     reflects (Commands host ! ClientVariable b) (client_var r (SyncId b)))"

lemma packets_for_sent:
  assumes "distinct rs" "p \<in> set rs"
  shows "packets_for p (concat (map (sent_to session cmds bs) rs)) =
    (if FindOutOfDateBindings p bs = [] then [] else [map (built cmds) (FindOutOfDateBindings p bs)])"
proof -
  have other: "packets_for p (concat (map (sent_to session cmds bs) qs)) = []" if "p \<notin> set qs" for qs
    using that by (induction qs) (auto simp: packets_for_def sent_to_def)
  obtain xs ys where rs: "rs = xs @ p # ys" using split_list [OF assms(2)] by blast
  then have "p \<notin> set xs" "p \<notin> set ys" using assms(1) by auto
  with other [of xs] other [of ys] show ?thesis by (simp add: rs packets_for_def sent_to_def)
qed

lemma same_value_sym: "same_value c d \<Longrightarrow> same_value d c"
  by (auto simp: same_value_def f32_same_def f32_eq_def split: CommandType.splits)

lemma ticked_values:
  assumes "ticked {..<length (syncBindings s)} s mid" "sync_ok s" "b \<in> set (syncBindings mid)"
  shows "same_value (Commands mid ! ServerVariable b) (Commands mid ! ClientVariable b)"
    "\<exists>b0 \<in> set (syncBindings s). static b0 = static b"
    "bit (SynchronizedPeers b) p \<Longrightarrow> b \<in> set (syncBindings s) \<and> Commands mid ! ClientVariable b = Commands s ! ClientVariable b"
proof -
  note d = tickedD [OF assms(1)]
  obtain k where k: "k < length (syncBindings s)" "b = syncBindings mid ! k"
    using assms(3) d(6) by (auto simp: in_set_conv_nth)
  let ?b0 = "syncBindings s ! k"
  have st: "static b = static ?b0" using k d(7) [OF k(1)] by simp
  note m = static_members [OF st]
  have "Commands mid ! ServerVariable ?b0 = Commands s ! ServerVariable ?b0"
    using bindings_apart(1) [OF assms(2) [unfolded sync_ok_def] k(1)] by (intro d(3)) simp
  then show "same_value (Commands mid ! ServerVariable b) (Commands mid ! ClientVariable b)"
    using d(4) [of k] k(1) m by simp
  show "\<exists>b0 \<in> set (syncBindings s). static b0 = static b" using st k(1) by force
  assume bit: "bit (SynchronizedPeers b) p"
  then have "unchanged (Commands s) ?b0" "b = ?b0" using d(7) [OF k(1)] k by (auto split: if_splits)
  then show "b \<in> set (syncBindings s) \<and> Commands mid ! ClientVariable b = Commands s ! ClientVariable b"
    using d(5) [of k] k(1) by simp
qed

text \<open>What a ready peer makes of the tick.\<close>

lemma delivered_tick:
  assumes "quiet_events disp" "sync_ok mid" "sync_ok r" "ActiveSession r = Some rs" "\<not> IsHost rs"
    and "\<forall>b \<in> set (syncBindings mid). knows r (Commands mid) b"
    and "\<forall>b \<in> set (syncBindings mid). bit (SynchronizedPeers b) p \<longrightarrow>
           reflects (Commands mid ! ServerVariable b) (client_var r (SyncId b))"
    and "pk = (if FindOutOfDateBindings p (syncBindings mid) = [] then []
           else [map (built (Commands mid)) (FindOutOfDateBindings p (syncBindings mid))])"
  shows "\<exists>r'. handle_packets fo disp pk r = Inr r' \<and> sync_ok r' \<and> ActiveSession r' = Some rs
    \<and> (\<forall>b \<in> set (syncBindings mid). knows r' (Commands mid) b
         \<and> reflects (Commands mid ! ServerVariable b) (client_var r' (SyncId b)))"
proof -
  let ?o = "FindOutOfDateBindings p (syncBindings mid)"
  have sub: "set ?o \<subseteq> set (syncBindings mid)" by (auto simp: FindOutOfDateBindings_def)
  have dist: "distinct (map SyncId ?o)" "distinct (map SyncId (syncBindings mid))"
    using assms(2) by (simp_all add: FindOutOfDateBindings_def sync_ok_def bindings_ok_def distinct_map_filter)
  have "\<forall>b \<in> set ?o. binding_ok (Commands mid) b \<and> knows r (Commands mid) b"
    using sub assms(2,6) by (auto simp: sync_ok_def bindings_ok_def)
  then obtain r' where r': "handle_updates fo disp (map (built (Commands mid)) ?o) r = Inr r'"
    "length (Commands r') = length (Commands r)" "\<forall>i. Type (Commands r' ! i) = Type (Commands r ! i)"
    "syncBindings r' = syncBindings r" "ActiveSession r' = ActiveSession r"
    "\<forall>b \<in> set ?o. reflects (Commands mid ! ServerVariable b) (client_var r' (SyncId b))"
    "\<forall>i. (\<forall>b \<in> set ?o. i \<noteq> client_of r (SyncId b)) \<longrightarrow> Commands r' ! i = Commands r ! i"
    using handle_updates_quiet [OF assms(1,3) dist(1)] by blast
  have same: "client_of r' i = client_of r i" for i by (simp add: client_of_def r'(4))
  have "handle_packets fo disp pk r = Inr r'"
    using r'(1) by (cases "?o = []") (simp_all add: assms(4,5,8) SyncHandlePacket_def)
  moreover have "sync_ok r'"
    using bindings_ok_cong [OF refl _ r'(3) [rule_format]] assms(3) r'(2) by (simp add: sync_ok_def r'(4))
  moreover have "knows r' (Commands mid) b" if "b \<in> set (syncBindings mid)" for b
    using assms(6) that r'(3) by (simp add: knows_def client_var_def same r'(4))
  moreover have "reflects (Commands mid ! ServerVariable b) (client_var r' (SyncId b))"
    if b: "b \<in> set (syncBindings mid)" for b
  proof (cases "b \<in> set ?o")
    case False
    have "client_of r (SyncId b) \<noteq> client_of r (SyncId c)" if c: "c \<in> set ?o" for c
    proof -
      have "SyncId b \<noteq> SyncId c" using dist(2) b c False sub by (auto simp: distinct_map inj_on_def)
      then show ?thesis using assms(3,6) b c sub by (intro client_of_inj) (auto simp: knows_def)
    qed
    then have "client_var r' (SyncId b) = client_var r (SyncId b)" using r'(7) by (simp add: client_var_def same)
    moreover have "bit (SynchronizedPeers b) p" using b False by (simp add: FindOutOfDateBindings_def)
    ultimately show ?thesis using assms(7) b by simp
  qed (use r'(6) in blast)
  ultimately show ?thesis using r'(5) assms(4) by (intro exI [of _ r']) simp
qed

text \<open>C9. One tick of the host brings every ready peer that is in step up to date: the tick returns, the
  peer handles the packets it is sent without an error, its client variables then reflect the host's
  server variables for every binding, and the peer is in step again.\<close>

theorem host_tick_reaches_clients:
  assumes "quiet_events disp" "quiet_events disp'" "sync_ok host" "sync_ok r"
    and "ActiveSession host = Some session" "IsHost session" "session_ok session" "p \<in> set (ready_peers session)"
    and "ActiveSession r = Some rs" "\<not> IsHost rs"
    and "\<forall>b \<in> set (syncBindings host). knows r (Commands host) b" "in_step p host r"
  shows "\<exists>es host' r'. SyncTick disp host = Inr (es, host')
    \<and> handle_packets fo disp' (packets_for p es) r = Inr r'
    \<and> map static (syncBindings host') = map static (syncBindings host) \<and> in_step p host' r'
    \<and> (\<forall>b \<in> set (syncBindings host').
         reflects (Commands host' ! ServerVariable b) (client_var r' (SyncId b)))"
proof -
  obtain es mid host' where t: "HostTick disp session host = Inr (es, host')"
    "ticked {..<length (syncBindings host)} host mid" "Commands host' = Commands mid"
    "map static (syncBindings host') = map static (syncBindings host)"
    "es = concat (map (sent_to session (Commands mid) (syncBindings mid)) (ready_peers session))"
    using HostTick_summary [OF assms(1,3,7)] by blast
  note v = ticked_values [OF t(2) assms(3)]
  have kn: "\<forall>b \<in> set (syncBindings mid). knows r (Commands mid) b"
  proof
    fix b assume "b \<in> set (syncBindings mid)"
    from v(2) [OF this] obtain b0 where b0: "b0 \<in> set (syncBindings host)" "static b0 = static b" by blast
    show "knows r (Commands mid) b"
      using bspec [OF assms(11) b0(1)] static_members [OF b0(2)] tickedD(2) [OF t(2)] by (simp add: knows_def)
  qed
  have old: "\<forall>b \<in> set (syncBindings mid). bit (SynchronizedPeers b) p \<longrightarrow>
      reflects (Commands mid ! ServerVariable b) (client_var r (SyncId b))"
    using v assms(12) same_reflects by (metis in_step_def)
  have "distinct (ready_peers session)" using assms(7) by (simp add: ready_peers_def session_ok_def)
  note pk = packets_for_sent [OF this assms(8), of session "Commands mid" "syncBindings mid", folded t(5)]
  obtain r' where r': "handle_packets fo disp' (packets_for p es) r = Inr r'"
    "\<forall>b \<in> set (syncBindings mid). reflects (Commands mid ! ServerVariable b) (client_var r' (SyncId b))"
    using delivered_tick [OF assms(2) ticked_ok [OF t(2) assms(3)] assms(4,9,10) kn old pk] by blast
  have st: "map static (syncBindings host') = map static (syncBindings mid)"
    using t(4) ticked_static [OF t(2)] by simp
  have all: "reflects (Commands host' ! ServerVariable b) (client_var r' (SyncId b))
      \<and> same_value (Commands host' ! ServerVariable b) (Commands host' ! ClientVariable b)"
    if "b \<in> set (syncBindings host')" for b
  proof -
    have "static b \<in> set (map static (syncBindings mid))" using that by (simp flip: st)
    then obtain c where "c \<in> set (syncBindings mid)" "static b = static c" by auto
    then show ?thesis using r'(2) v(1) static_members [of b c] t(3) by simp
  qed
  then have "in_step p host' r'" using same_value_sym same_reflects by (metis in_step_def)
  then show ?thesis
    using t(1,4) r'(1) all assms(5,6) by (intro exI [of _ es] exI [of _ host'] exI [of _ r']) (simp add: SyncTick_def)
qed

text \<open>A host with one synchronised variable, just changed to 5, and a client that has not got it.\<close>

definition demo_variable :: "string \<Rightarrow> u32 \<Rightarrow> nat Command" where
  "demo_variable n v = \<lparr>Name = n, ModuleName = [], ShortName = [], Description = [], Flags = 0,
     Type = TypeVariableInt, UpdateEvent = None, ValueInt = v, ValueInt64 = 0, ValueFloat = 0,
     ValueString = to_string32 v, DefaultValueInt = 0, DefaultValueInt64 = 0, DefaultValueFloat = 0,
     DefaultValueString = [], ValueIntMin = 0, ValueIntMax = 0, ValueInt64Min = 0, ValueInt64Max = 0,
     ValueFloatMin = 0, ValueFloatMax = 0, CommandArgs = []\<rparr>"

definition demo_sync :: "u32 \<Rightarrow> Session \<Rightarrow> nat SyncState" where
  "demo_sync v session = \<lparr>Commands = [demo_variable ''Server.Sprint'' v, demo_variable ''Server.SprintClient'' 0],
     queuedCommands = [], GameHasMenuShown = True, ActiveSession = Some session,
     syncBindings = [\<lparr>SyncId = 7, ServerVariable = 0, ClientVariable = 1, SynchronizedPeers = 0\<rparr>]\<rparr>"

definition demo_quiet :: "(nat, unit SyncState_ext) handlers" where
  "demo_quiet h args out s = Inr (True, out, s)"

definition demo_float :: FloatOps where
  "demo_float = \<lparr>stof = (\<lambda>_. Inl InvalidArgument), print_float = (\<lambda>_. [])\<rparr>"

abbreviation demo_client :: Session where
  "demo_client \<equiv> demo_session\<lparr>SessionType := 5\<rparr>"

lemma demo_quiet_events: "quiet_events demo_quiet"
  unfolding quiet_events_def demo_quiet_def by blast

lemma demo_sync_facts:
  "sync_ok (demo_sync v session)" "ActiveSession (demo_sync v session) = Some session"
  "\<not> IsHost demo_client" "(1::nat) \<in> set (ready_peers demo_session)"
  "\<forall>b \<in> set (syncBindings (demo_sync v session)). knows (demo_sync w session') (Commands (demo_sync v session)) b"
  "in_step 1 (demo_sync v session) (demo_sync w session')"
  by (simp_all add: demo_sync_def sync_ok_def bindings_ok_def binding_ok_def
      demo_variable_def IsHost_def ready_peers_def IsPeerReady_def array_at_def knows_def find_binding_def
      client_var_def client_of_def in_step_def)
    (simp_all add: demo_session_def PeerIsEstablished_def peer_state_rank_def)

theorem host_tick_reaches_clients_witness:
  "\<exists>es host' r'. SyncTick demo_quiet (demo_sync 5 demo_session) = Inr (es, host')
    \<and> handle_packets demo_float demo_quiet (packets_for 1 es) (demo_sync 0 demo_client) = Inr r'
    \<and> map static (syncBindings host') = map static (syncBindings (demo_sync 5 demo_session)) \<and> in_step 1 host' r'
    \<and> (\<forall>b \<in> set (syncBindings host').
         reflects (Commands host' ! ServerVariable b) (client_var r' (SyncId b)))"
  by (rule host_tick_reaches_clients [OF demo_quiet_events demo_quiet_events demo_sync_facts(1,1,2) _ demo_session_ok
        demo_sync_facts(4,2,3,5,6)])
    simp

subsection \<open>The packet\<close>

definition update_bits :: "SyncUpdatePacketVar \<Rightarrow> bool list" where
  "update_bits u = to_bits 32 (ucast (UpdateID u)) @ range_bits 4 (ucast (command_type_code (UpdateType u)))
     @ (case UpdateValue u of
          IntValue i \<Rightarrow> to_bits (if UpdateType u = TypeVariableInt then 32 else 64) i
        | FloatValue f \<Rightarrow> byte_bits_of (le_bytes 4 f)
        | StringValue t \<Rightarrow> string_bits (MaxStringLength + 1) t
        | NoValue \<Rightarrow> [])"

definition update_ok :: "SyncUpdatePacketVar \<Rightarrow> bool" where
  "update_ok u \<longleftrightarrow> (case UpdateType u of
     TypeVariableInt \<Rightarrow> (\<exists>i. UpdateValue u = IntValue i \<and> take_bit 32 i = i)
   | TypeVariableInt64 \<Rightarrow> (\<exists>i. UpdateValue u = IntValue i)
   | TypeVariableFloat \<Rightarrow> (\<exists>f. UpdateValue u = FloatValue f)
   | TypeVariableString \<Rightarrow> (\<exists>t. UpdateValue u = StringValue t \<and> string_fits (MaxStringLength + 1) t)
   | TypeCommand \<Rightarrow> False)"

lemma write_update_writes:
  assumes "stream_laws E flushed remaining" "stream_ok s" "update_ok u"
  shows "\<exists>s'. write_update E s u = Inr s' \<and> writes flushed s (update_bits u) s'"
proof -
  let ?s1 = "WriteUnsigned E s (UpdateID u) 32"
  let ?s2 = "WriteRange E ?s1 (command_type_code (UpdateType u)) 0 4"
  have w1: "writes flushed s (to_bits 32 (ucast (UpdateID u))) ?s1"
    by (rule writes_unsigned [OF assms(1,2)]) simp
  have w2: "writes flushed ?s1 (range_bits 4 (ucast (command_type_code (UpdateType u)))) ?s2"
    using writes_range [OF assms(1) writes_ok [OF w1] byte_widths(1), of 4 "command_type_code (UpdateType u)"] by simp
  note ok = writes_ok [OF w2]
  note w = writes_trans [OF w1 writes_trans [OF w2]]
  have i: "n \<le> 64 \<Longrightarrow> writes flushed ?s2 (to_bits n i) (WriteUnsigned E ?s2 i n)" for i :: u64 and n
    using writes_unsigned [OF assms(1) ok, of n i] by simp
  have f: "writes flushed ?s2 (byte_bits_of (le_bytes 4 f)) (WriteBlock E ?s2 32 (le_bytes 4 f))" for f :: f32
    using WriteBlock_spec [OF assms(1) ok, of "le_bytes 4 f"] by (simp add: writes_def)
  have t: "string_fits (MaxStringLength + 1) t \<Longrightarrow> writes flushed ?s2 (string_bits (MaxStringLength + 1) t)
      (WriteString E ?s2 (MaxStringLength + 1) t)" for t
    by (rule writes_string [OF assms(1) ok])
  show ?thesis
    using assms(3) w [OF i] w [OF f] w [OF t]
    by (cases "UpdateType u")
      (auto simp: update_ok_def write_update_def update_bits_def int_member_def float_member_def string_member_def Let_def)
qed

lemma read_update_reads:
  assumes "stream_laws E flushed remaining" "update_ok u" "remaining r = update_bits u @ rest"
  shows "\<exists>r'. read_update E r = (Some u, r') \<and> remaining r' = rest"
proof -
  let ?v = "case UpdateValue u of
          IntValue i \<Rightarrow> to_bits (if UpdateType u = TypeVariableInt then 32 else 64) i
        | FloatValue f \<Rightarrow> byte_bits_of (le_bytes 4 f)
        | StringValue t \<Rightarrow> string_bits (MaxStringLength + 1) t
        | NoValue \<Rightarrow> []"
  obtain r1 where r1: "ReadUnsigned E r 32 = (UpdateID u, r1)"
    "remaining r1 = range_bits 4 (ucast (command_type_code (UpdateType u))) @ ?v @ rest"
    using ReadUnsigned32_spec [OF assms(1) assms(3) [unfolded update_bits_def append_assoc]] by blast
  have c: "command_type_code (UpdateType u) \<le> 4" "unat (4::u32) = 4"
    by (cases "UpdateType u"; simp add: command_type_code_def)+
  then obtain r2 where r2: "ReadRange E r1 (0::u32) 4 = (command_type_code (UpdateType u), r2)" "remaining r2 = ?v @ rest"
    using ReadRange_spec [OF assms(1) byte_widths(1) c(1)] r1(2) by metis
  have i: "remaining r2 = to_bits n i @ rest \<Longrightarrow> n \<le> 64 \<Longrightarrow> take_bit n i = i \<Longrightarrow>
      \<exists>r'. ReadUnsigned E r2 n = (i, r') \<and> remaining r' = rest" for i :: u64 and n
    using ReadUnsigned_spec [OF assms(1), of r2 n i rest] by simp
  have f: "remaining r2 = byte_bits_of (le_bytes 4 f) @ rest \<Longrightarrow>
      \<exists>r'. ReadBlock E r2 32 = (le_bytes 4 f, r') \<and> remaining r' = rest" for f :: f32
    using ReadBlock_spec [OF assms(1), of r2 "le_bytes 4 f" rest] by simp
  have le: "le_word (le_bytes 4 f) = f" for f :: f32
    by (rule le_word_le_bytes_full) simp
  have t: "remaining r2 = string_bits (MaxStringLength + 1) t @ rest \<Longrightarrow> string_fits (MaxStringLength + 1) t \<Longrightarrow>
      \<exists>r'. ReadString E r2 (MaxStringLength + 1) = (Some t, r') \<and> remaining r' = rest" for t
    by (rule ReadString_spec [OF assms(1)])
  show ?thesis
  proof (cases "UpdateType u")
    case TypeVariableInt
    then obtain k where k: "UpdateValue u = IntValue k" "take_bit 32 k = k" using assms(2) by (auto simp: update_ok_def)
    then obtain r' where "ReadUnsigned E r2 32 = (k, r')" "remaining r' = rest"
      using i [of 32 k] r2(2) TypeVariableInt by auto
    with r1 r2 k TypeVariableInt show ?thesis by (simp add: read_update_def command_type_code_def)
  next
    case TypeVariableInt64
    then obtain k where k: "UpdateValue u = IntValue k" using assms(2) by (auto simp: update_ok_def)
    then obtain r' where "ReadUnsigned E r2 64 = (k, r')" "remaining r' = rest"
      using i [of 64 k] r2(2) TypeVariableInt64 by (auto simp: take_bit_word_eq_self)
    with r1 r2 k TypeVariableInt64 show ?thesis by (simp add: read_update_def command_type_code_def)
  next
    case TypeVariableFloat
    then obtain k where k: "UpdateValue u = FloatValue k" using assms(2) by (auto simp: update_ok_def)
    then obtain r' where "ReadBlock E r2 32 = (le_bytes 4 k, r')" "remaining r' = rest"
      using f [of k] r2(2) by auto
    with r1 r2 k TypeVariableFloat show ?thesis by (simp add: read_update_def command_type_code_def le)
  next
    case TypeVariableString
    then obtain k where k: "UpdateValue u = StringValue k" "string_fits (MaxStringLength + 1) k"
      using assms(2) by (auto simp: update_ok_def)
    then obtain r' where "ReadString E r2 (MaxStringLength + 1) = (Some k, r')" "remaining r' = rest"
      using t [of k] r2(2) by auto
    with r1 r2 k TypeVariableString show ?thesis by (simp add: read_update_def command_type_code_def)
  qed (use assms(2) in \<open>simp add: update_ok_def\<close>)
qed

lemma SyncSerialize_writes:
  assumes "stream_laws E flushed remaining" "stream_ok s" "\<forall>u \<in> set us. update_ok u"
  shows "\<exists>s'. SyncSerialize E s us = Inr s' \<and> writes flushed s (concat (map update_bits us)) s'"
  using assms(2,3)
proof (induction us arbitrary: s)
  case (Cons u us)
  then obtain s1 where s1: "write_update E s u = Inr s1" "writes flushed s (update_bits u) s1"
    using write_update_writes [OF assms(1)] by fastforce
  then obtain s' where "SyncSerialize E s1 us = Inr s'" "writes flushed s1 (concat (map update_bits us)) s'"
    using Cons writes_ok by fastforce
  with s1 writes_trans show ?case by fastforce
qed (simp add: writes_refl)

lemma read_updates_reads:
  assumes "stream_laws E flushed remaining" "\<forall>u \<in> set us. update_ok u"
    and "remaining r = concat (map update_bits us) @ rest"
  shows "\<exists>r'. read_updates E (length us) r = (Some us, r') \<and> remaining r' = rest"
  using assms(2,3)
proof (induction us arbitrary: r)
  case (Cons u us)
  then obtain r1 where r1: "read_update E r = (Some u, r1)" "remaining r1 = concat (map update_bits us) @ rest"
    using read_update_reads [OF assms(1), of u r "concat (map update_bits us) @ rest"] by auto
  with Cons obtain r' where "read_updates E (length us) r1 = (Some us, r')" "remaining r' = rest" by fastforce
  with r1 show ?case by simp
qed simp

lemma sync_handler_codec:
  assumes "\<forall>u \<in> set us. update_ok u" "us \<noteq> []" "length us < 2 ^ 21"
  shows "handler_codec (sync_handler :: ('e, 'r, unit \<times> SyncUpdatePacketVar list) RawPacketHandler)
    (\<lambda>(d, us). to_bits 32 (of_nat (length us)) @ concat (map update_bits us))
    (CalculateSize 32 528 (int (length us))) ((), us)"
proof -
  have size: "CalculateSize 32 528 (int (length us)) = 32 + int (length us) * 528"
    "CalculateSize 32 528 1 = 560"
    using CalculateSize_exact [of "int (length us)" 32 528] CalculateSize_exact [of 1 32 528] assms(3) by simp_all
  have ne: "Suc 0 \<le> length us" using assms(2) by (simp add: Suc_le_eq)
  have h: "sync_handler = variadic_handler 32 528 (CalculateSize 32 528 1) (2 ^ 31 - 1)
       (\<lambda>E s _ extra. case SyncSerialize E s extra of Inl _ \<Rightarrow> s | Inr s' \<Rightarrow> s')
       (\<lambda>E r n. let (vars, r') = SyncDeserialize E r n in (map_option (Pair ()) vars, r'))"
    by (simp add: sync_handler_def variadic_min_def)
  show ?thesis
    unfolding h
  proof (rule variadic_handler_codec [where enc = "\<lambda>us. concat (map update_bits us)"])
    show "writes flushed s (concat (map update_bits us)) (case SyncSerialize E s us of Inl _ \<Rightarrow> s | Inr s' \<Rightarrow> s')"
      if "stream_laws E flushed remaining" "stream_ok s" for E :: "('e, 'r) StreamOps" and flushed remaining and s :: "'e BitStream"
      using SyncSerialize_writes [OF that assms(1)] by auto
    show "\<exists>r'. (let (vars, r') = SyncDeserialize E r (int (length us)) in (map_option (Pair ()) vars, r'))
        = (Some ((), us), r') \<and> remaining r' = rest"
      if "stream_laws E flushed remaining" "remaining r = concat (map update_bits us) @ rest"
      for E :: "('e, 'r) StreamOps" and flushed :: "'e \<Rightarrow> bool list" and remaining r rest
      using read_updates_reads [OF that(1) assms(1) that(2)] by (auto simp: SyncDeserialize_def)
  qed (use assms(3) ne size in simp_all)
qed

lemma built_ok: "binding_ok cmds b \<Longrightarrow> update_ok (built cmds b)"
proof -
  assume "binding_ok cmds b"
  then have "Type (cmds ! ServerVariable b) \<noteq> TypeCommand" by (auto simp: binding_ok_def)
  moreover have "take_bit 32 (ucast w :: u64) = ucast w" for w :: u32
    by (rule bit_word_eqI) (use bit_imp_le_length [of w] in \<open>auto simp: bit_simps\<close>)
  moreover have "string_fits (MaxStringLength + 1) (trunc_copy (MaxStringLength + 1) t)" for t
    using trunc_copy_length [of "MaxStringLength + 1" t] trunc_copy_no_nul [of "MaxStringLength + 1" t]
    by (simp add: string_fits_def MaxStringLength_def)
  ultimately show ?thesis
    by (cases "Type (cmds ! ServerVariable b)") (simp_all add: built_def BuildVariableUpdate_def update_ok_def Let_def)
qed

text \<open>Every update packet the host builds arrives as it was built, through the serialisation of the
  elements, the variable-size packet and the dispatch on the packet type; the host's values need no
  care: texts are cut to the size of the field before they are sent.\<close>

theorem sync_packet_arrives:
  assumes "stream_laws E flushed remaining" "stream_ok s" "written flushed s = []"
    and "\<forall>b \<in> set bs. binding_ok cmds b" "bs \<noteq> []" "length bs < 2 ^ 21"
    and "length h = 16" "t guid = Some c" "Handler c = sync_handler"
    and "n = CalculateSize 32 528 (int (length bs))"
    and "remaining r = written flushed (SerializeCustomPacket E t s n
           \<lparr>Header = h, TypeGuid = guid, Data = ((), map (built cmds) bs)\<rparr>) @ rest"
  shows "BuildUpdatePacket cmds bs = Inr (map (built cmds) bs)
    \<and> (\<exists>r'. DeserializeCustomPacket E t r n
        = (Some \<lparr>Header = h, TypeGuid = guid, Data = ((), map (built cmds) bs)\<rparr>, r') \<and> remaining r' = rest)"
proof -
  let ?p = "\<lparr>Header = h, TypeGuid = guid, Data = ((), map (built cmds) bs)\<rparr>"
  let ?enc = "\<lambda>(d :: unit, us). to_bits 32 (of_nat (length us)) @ concat (map update_bits us)"
  have "\<forall>u \<in> set (map (built cmds) bs). update_ok u" using assms(4) built_ok by fastforce
  from sync_handler_codec [OF this] have codec: "handler_codec (Handler c) ?enc n (Data ?p)"
    using assms(5,6,9,10) by simp
  have n: "sizeof_PacketBase \<le> n"
    using CalculateSize_exact [of "int (length bs)" 32 528] assms(6,10) by (simp add: sizeof_PacketBase_def)
  have "remaining r = byte_bits_of (Header ?p) @ to_bits 32 (ucast (TypeGuid ?p)) @ ?enc (Data ?p) @ rest"
    using SerializeCustomPacket_spec [OF assms(1,2) _ _ codec, of t] assms(3,7,8,11) by simp
  with DeserializeCustomPacket_spec [OF assms(1) _ _ codec n] assms(7,8) BuildUpdatePacket_built [OF assms(4)]
  show ?thesis by simp
qed


text \<open>A packet table with the handler, and the packet of one variable.\<close>

definition demo_sync_table :: "(bool list, bool list, unit \<times> SyncUpdatePacketVar list) PacketTable" where
  "demo_sync_table = [5 \<mapsto> \<lparr>PacketName = ''eldewrito-sync-var'', Handler = sync_handler\<rparr>]"

definition demo_sync_packet :: "(unit \<times> SyncUpdatePacketVar list) Packet" where
  "demo_sync_packet = \<lparr>Header = replicate 16 0, TypeGuid = 5,
     Data = ((), map (built (Commands (demo_sync 5 demo_session))) (syncBindings (demo_sync 5 demo_session)))\<rparr>"

theorem sync_packet_arrives_witness:
  "BuildUpdatePacket (Commands (demo_sync 5 demo_session)) (syncBindings (demo_sync 5 demo_session))
      = Inr (snd (Data demo_sync_packet))
    \<and> (\<exists>r'. DeserializeCustomPacket list_ops demo_sync_table
          (written id (SerializeCustomPacket list_ops demo_sync_table empty_stream 560 demo_sync_packet)) 560
        = (Some demo_sync_packet, r') \<and> r' = [])"
proof -
  let ?s = "demo_sync 5 demo_session"
  have b: "\<forall>b \<in> set (syncBindings ?s). binding_ok (Commands ?s) b"
    using demo_sync_facts(1) [of 5 demo_session] by (simp add: sync_ok_def bindings_ok_def)
  have n: "560 = CalculateSize 32 528 (int (length (syncBindings ?s)))"
    by (simp add: demo_sync_def CalculateSize_def)
  show ?thesis
    using sync_packet_arrives [OF list_stream_laws empty_stream_facts b _ _ _ _ _ n, of "replicate 16 0" demo_sync_table 5 _
        "written id (SerializeCustomPacket list_ops demo_sync_table empty_stream 560 demo_sync_packet)" "[]"]
    by (simp add: demo_sync_packet_def demo_sync_table_def) (simp add: demo_sync_def)
qed

subsection \<open>Packets of any content\<close>

definition member_fits :: "SyncUpdatePacketVar \<Rightarrow> bool" where
  "member_fits u \<longleftrightarrow> (case UpdateType u of
     TypeVariableInt \<Rightarrow> (\<exists>i. UpdateValue u = IntValue i)
   | TypeVariableInt64 \<Rightarrow> (\<exists>i. UpdateValue u = IntValue i)
   | TypeVariableFloat \<Rightarrow> (\<exists>f. UpdateValue u = FloatValue f)
   | TypeVariableString \<Rightarrow> (\<exists>t. UpdateValue u = StringValue t)
   | TypeCommand \<Rightarrow> True)"

text \<open>The elements of a packet that was read: only the member of a text can be missing, when \<open>ReadString\<close> refused it.\<close>

lemma deserialized_members:
  "SyncDeserialize E rd n = (Some us, rd') \<Longrightarrow> u \<in> set us \<Longrightarrow>
     member_fits u \<or> UpdateType u = TypeVariableString \<and> UpdateValue u = NoValue"
proof -
  have one: "member_fits v \<or> UpdateType v = TypeVariableString \<and> UpdateValue v = NoValue"
    if "read_update E rd = (Some v, rd1)" for v rd rd1
    using that by (auto simp: read_update_def member_fits_def Let_def split: prod.splits if_splits option.splits)
  have "read_updates E k rd = (Some us, rd') \<Longrightarrow> u \<in> set us \<Longrightarrow>
      member_fits u \<or> UpdateType u = TypeVariableString \<and> UpdateValue u = NoValue" for k
  proof (induction k arbitrary: rd us)
    case (Suc k)
    then obtain v rd1 vs rd2 where "read_update E rd = (Some v, rd1)" "read_updates E k rd1 = (Some vs, rd2)" "us = v # vs" "rd2 = rd'"
      by (auto split: prod.splits option.splits)
    then show ?case using one Suc by auto
  qed simp
  then show "SyncDeserialize E rd n = (Some us, rd') \<Longrightarrow> u \<in> set us \<Longrightarrow>
     member_fits u \<or> UpdateType u = TypeVariableString \<and> UpdateValue u = NoValue"
    unfolding SyncDeserialize_def .
qed

text \<open>An element that names a binding whose variable has the type of the element, without a value of this type.\<close>

definition missing_member :: "('h, 'm) SyncState_scheme \<Rightarrow> SyncUpdatePacketVar \<Rightarrow> bool" where
  "missing_member r u \<longleftrightarrow> \<not> member_fits u \<and> (case find_binding (syncBindings r) (UpdateID u) of None \<Rightarrow> False
     | Some b \<Rightarrow> Type (Commands r ! ClientVariable b) = UpdateType u)"

lemma update_value_any:
  "update_value fo d u = Inl Undefined \<and> Type d = UpdateType u \<and> \<not> member_fits u
   \<or> (\<exists>new. update_value fo d u = Inr new \<and> (\<forall>c. new = Some c \<longrightarrow> Type c = Type d) \<and> (Type d = UpdateType u \<longrightarrow> member_fits u))"
proof (cases "UpdateType u")
  case TypeCommand
  then show ?thesis by (auto simp: member_fits_def update_value_def)
qed (cases "UpdateValue u"; auto simp: member_fits_def update_value_def int_member_def float_member_def string_member_def Let_def)+

definition confined :: "('h, 'm) SyncState_scheme \<Rightarrow> ('h, 'm) SyncState_scheme \<Rightarrow> bool" where
  "confined r r' \<longleftrightarrow> syncBindings r' = syncBindings r \<and> (\<forall>i. Type (Commands r' ! i) = Type (Commands r ! i))
     \<and> (\<forall>i. (\<forall>b \<in> set (syncBindings r). i \<noteq> ClientVariable b) \<longrightarrow> Commands r' ! i = Commands r ! i)"

lemma confined_refl: "confined r r"
  by (simp add: confined_def)

lemma confined_trans: "confined r r1 \<Longrightarrow> confined r1 r' \<Longrightarrow> confined r r'"
  by (simp add: confined_def)

lemma missing_member_confined: "confined r r' \<Longrightarrow> missing_member r' u = missing_member r u"
  by (auto simp: missing_member_def confined_def split: option.split)

lemma set_one_update:
  assumes "quiet_events disp" "find_binding (syncBindings r) (UpdateID u) = Some b"
  shows "if missing_member r u then SetVariableToUpdate fo disp (ClientVariable b) u r = Inl Undefined
    else \<exists>r1. SetVariableToUpdate fo disp (ClientVariable b) u r = Inr r1 \<and> confined r r1"
proof -
  let ?c = "ClientVariable b"
  have b: "b \<in> set (syncBindings r)" using find_binding_member(1) [OF assms(2)] .
  have m: "missing_member r u \<longleftrightarrow> Type (Commands r ! ?c) = UpdateType u \<and> \<not> member_fits u"
    using assms(2) by (auto simp: missing_member_def)
  consider "update_value fo (Commands r ! ?c) u = Inl Undefined" "missing_member r u"
    | new where "update_value fo (Commands r ! ?c) u = Inr new" "\<not> missing_member r u"
        "\<And>c. new = Some c \<Longrightarrow> Type c = Type (Commands r ! ?c)"
    using update_value_any [of fo "Commands r ! ?c" u] m by blast
  then show ?thesis
  proof cases
    case (2 new)
    show ?thesis
    proof (cases new)
      case None
      with 2 show ?thesis using confined_refl by (auto simp: SetVariableToUpdate_def)
    next
      case (Some c)
      obtain r1 where r1: "notify_event disp ?c (set_command ?c c r) = Inr r1"
        "Commands r1 = (Commands r)[?c := c]" "syncBindings r1 = syncBindings r"
        using notify_event_quiet [OF assms(1), of ?c "set_command ?c c r"] by (auto simp: set_command_def)
      have "confined r r1"
        unfolding confined_def r1(2,3) using 2(3) [OF Some] b
        by (cases "?c < length (Commands r)") (auto simp: nth_list_update list_update_beyond)
      with 2 Some r1(1) show ?thesis by (auto simp: SetVariableToUpdate_def)
    qed
  qed (simp add: SetVariableToUpdate_def)
qed

lemma handle_updates_confined:
  assumes "quiet_events disp"
  shows "if \<exists>u \<in> set us. missing_member r u then handle_updates fo disp us r = Inl Undefined
    else \<exists>r'. handle_updates fo disp us r = Inr r' \<and> confined r r'"
proof (induction us arbitrary: r)
  case (Cons u us)
  show ?case
  proof (cases "find_binding (syncBindings r) (UpdateID u)")
    case None
    then have "\<not> missing_member r u" by (simp add: missing_member_def)
    with None Cons [of r] show ?thesis by simp
  next
    case (Some b)
    note one = set_one_update [OF assms Some, of fo]
    show ?thesis
    proof (cases "missing_member r u")
      case True
      with one Some show ?thesis by simp
    next
      case False
      with one obtain r1 where r1: "SetVariableToUpdate fo disp (ClientVariable b) u r = Inr r1" "confined r r1" by auto
      from Cons [of r1] have "if \<exists>u \<in> set us. missing_member r u then handle_updates fo disp us r1 = Inl Undefined
          else \<exists>r'. handle_updates fo disp us r1 = Inr r' \<and> confined r1 r'"
        unfolding missing_member_confined [OF r1(2)] .
      with False Some r1 confined_trans [OF r1(2)] show ?thesis by (auto split: if_splits)
    qed
  qed
qed (simp add: confined_refl)

text \<open>C35. Whatever IDs, types and values an update packet holds: a client that handles it without reading a value that was
  never received keeps its bindings and the type of every variable, and changes only variables that are the client
  side of a binding; a host ignores it. Such a value is read exactly when an element names a binding of its type
  and holds no value of this type, and then the behaviour is undefined. (Of the packets that can be read, only those with
  an overlong text have such elements, and such a packet is accepted: see below.) The update events of
  the variables return and change no variable.\<close>

theorem updates_stay_confined:
  assumes "quiet_events disp"
  shows "case SyncHandlePacket fo disp us r of
      Inl e \<Rightarrow> e = Undefined \<and> (\<exists>u \<in> set us. missing_member r u) \<and> (\<exists>session. ActiveSession r = Some session \<and> \<not> IsHost session)
    | Inr r' \<Rightarrow> syncBindings r' = syncBindings r \<and> (\<forall>i. Type (Commands r' ! i) = Type (Commands r ! i))
        \<and> (\<forall>i. (\<forall>b \<in> set (syncBindings r). i \<noteq> ClientVariable b) \<longrightarrow> Commands r' ! i = Commands r ! i)
        \<and> (\<forall>session. ActiveSession r = Some session \<longrightarrow> (if IsHost session then r' = r else \<not> (\<exists>u \<in> set us. missing_member r u)))"
proof (cases "handle_updates fo disp us r")
  case (Inl e)
  with handle_updates_confined [OF assms, of us r fo] show ?thesis
    by (auto simp: SyncHandlePacket_def split: option.split if_splits)
next
  case (Inr r')
  with handle_updates_confined [OF assms, of us r fo] show ?thesis
    by (auto simp: SyncHandlePacket_def confined_def split: option.split if_splits)
qed

theorem updates_stay_confined_witness:
  "\<exists>r'. SyncHandlePacket demo_float demo_quiet
      [\<lparr>UpdateID = 7, UpdateType = TypeVariableString, UpdateValue = StringValue ''x''\<rparr>] (demo_sync 0 demo_client) = Inr r'
    \<and> syncBindings r' = syncBindings (demo_sync 0 demo_client)
    \<and> (\<forall>i. (\<forall>b \<in> set (syncBindings (demo_sync 0 demo_client)). i \<noteq> ClientVariable b) \<longrightarrow>
         Commands r' ! i = Commands (demo_sync 0 demo_client) ! i)"
proof -
  let ?us = "[\<lparr>UpdateID = 7, UpdateType = TypeVariableString, UpdateValue = StringValue ''x''\<rparr>]"
  have "\<not> (\<exists>u \<in> set ?us. missing_member (demo_sync 0 demo_client) u)" by (simp add: missing_member_def member_fits_def)
  with updates_stay_confined [OF demo_quiet_events, where fo = demo_float and us = ?us and r = "demo_sync 0 demo_client"]
  show ?thesis by (cases "SyncHandlePacket demo_float demo_quiet ?us (demo_sync 0 demo_client)") auto
qed

text \<open>Such a value is read: a text whose length field says more than 512 characters is refused by
  \<open>ReadString\<close>, but the packet is accepted all the same, and the client then copies a text that was
  never received out of the packet's memory. The comment says that validation is done during
  deserialization.\<close>

theorem overlong_text_is_accepted:
  assumes "stream_laws E flushed remaining" "512 < k" "k < 1024"
    and "remaining r = to_bits 32 (ucast (i :: u32)) @ range_bits 4 4 @ to_bits 10 k @ rest"
    and "ActiveSession s = Some session" "\<not> IsHost session"
    and "find_binding (syncBindings s) i = Some b" "Type (Commands s ! ClientVariable b) = TypeVariableString"
  shows "\<exists>us r'. SyncDeserialize E r 1 = (Some us, r') \<and> remaining r' = rest
    \<and> SyncHandlePacket fo disp us s = Inl Undefined"
proof -
  obtain r1 where r1: "ReadUnsigned E r 32 = (i, r1)" "remaining r1 = range_bits 4 4 @ to_bits 10 k @ rest"
    using ReadUnsigned32_spec [OF assms(1,4)] by blast
  have "remaining r1 = range_bits (unat (4::u32)) (ucast (4::u32)) @ to_bits 10 k @ rest" using r1(2) by simp
  from ReadRange_spec [OF assms(1) byte_widths(1) order_refl this]
  obtain r2 where r2: "ReadRange E r1 (0::u32) 4 = (4, r2)" "remaining r2 = to_bits 10 k @ rest" by blast
  have kn: "unat k < 1024" "512 < unat k" using assms(2,3) by (simp_all add: word_less_nat_alt)
  have k: "unat (ucast k :: u32) = unat k" "take_bit 10 k = k" "ucast (ucast k :: u32) = k"
    using kn by (simp_all add: word_unat_eq_iff unsigned_ucast_eq unsigned_take_bit_eq take_bit_nat_eq_self)
  have "remaining r2 = to_bits 10 (ucast (ucast k :: u32)) @ rest" using r2(2) by (simp add: k)
  from ReadUnsigned_spec [OF assms(1) this] k
  obtain r3 where r3: "ReadUnsigned E r2 10 = (ucast k :: u32, r3)" "remaining r3 = rest" by auto
  have "CountBits 512 = 10" by (simp add: CountBits.simps)
  moreover have "513 \<le> unat k" using kn(2) by simp
  ultimately have "ReadString E r2 513 = (None, r3)"
    using r3(1) k(1) by (simp add: ReadString_def ReadRange_def)
  then have "SyncDeserialize E r 1 = (Some [\<lparr>UpdateID = i, UpdateType = TypeVariableString, UpdateValue = NoValue\<rparr>], r3)"
    using r1(1) r2(1) by (simp add: SyncDeserialize_def read_update_def MaxStringLength_def)
  with r3(2) assms(5-8) show ?thesis
    by (intro exI conjI) (auto simp: SyncHandlePacket_def SetVariableToUpdate_def update_value_def string_member_def)
qed


theorem overlong_text_is_accepted_witness:
  "\<exists>us r'. SyncDeserialize list_ops (to_bits 32 7 @ range_bits 4 4 @ to_bits 10 600) 1 = (Some us, r') \<and> id r' = []
    \<and> SyncHandlePacket demo_float demo_quiet us ((demo_sync 0 demo_client)
        \<lparr>Commands := replicate 2 ((demo_variable ''s'' 0)\<lparr>Type := TypeVariableString\<rparr>)\<rparr>) = Inl Undefined"
  by (rule overlong_text_is_accepted [OF list_stream_laws, where i = 7 and k = 600 and rest = "[]"
        and session = demo_client and b = "\<lparr>SyncId = 7, ServerVariable = 0, ClientVariable = 1, SynchronizedPeers = 0\<rparr>"])
    (simp_all add: demo_sync_def find_binding_def demo_sync_facts(3))

text \<open>A tick that follows another, with nothing changed in between, sends nothing.\<close>

lemma same_unchanged:
  assumes "same_value c d" "\<not> f32_is_nan (ValueFloat c)"
  shows "CompareVariables c d = Inr True"
  using assms by (auto simp: same_value_def CompareVariables_def f32_same_def split: CommandType.splits)

lemma TickBindings_unchanged:
  assumes "\<forall>b \<in> set (syncBindings s). unchanged (Commands s) b"
  shows "TickBindings disp s = Inr s"
proof -
  have "tick_bindings_loop disp ks s = Inr s" if "\<forall>k \<in> set ks. k < length (syncBindings s)" for ks
    using that
  proof (induction ks)
    case (Cons k ks)
    then have "unchanged (Commands s) (syncBindings s ! k)" using assms by simp
    with Cons show ?case by (simp add: TickBinding_def unchanged_def Let_def)
  qed simp
  then show ?thesis by (simp add: TickBindings_def)
qed

lemma SynchronizePeers_settled:
  assumes "session_ok session" "\<forall>b \<in> set (syncBindings s). binding_ok (Commands s) b"
    and "\<forall>b \<in> set (syncBindings s). \<forall>q < 17. bit (SynchronizedPeers b) q \<longleftrightarrow> q \<in> set (ready_peers session)"
  shows "SynchronizePeers session s = Inr ([], s)"
proof -
  have c: "distinct (connected_peers session)" "\<forall>p \<in> set (connected_peers session). p < MaxPeers"
    using assms(1) by (simp_all add: session_ok_def)
  have none: "sent_to session (Commands s) (syncBindings s) p = []" if "p \<in> set (ready_peers session)" for p
  proof -
    have "p < 17" using that c(2) by (auto simp: ready_peers_def)
    then show ?thesis using that assms(3) by (auto simp: sent_to_def FindOutOfDateBindings_def filter_empty_conv)
  qed
  let ?mark = "mark_all (ready_peers session)"
  let ?keep = "foldl (\<lambda>w p. set_bit p w) 0 (ready_peers session) :: 17 word"
  have "(?mark b)\<lparr>SynchronizedPeers := SynchronizedPeers (?mark b) AND ?keep\<rparr> = b" if "b \<in> set (syncBindings s)" for b
  proof -
    have "SynchronizedPeers (?mark b) AND ?keep = SynchronizedPeers b"
      using assms(3) that
      by (intro bit_word_eqI) (auto simp: bit_and_iff bit_foldl_set_bit mark_all_facts)
    then show ?thesis using mark_all_facts(1) [of "ready_peers session" b]
      by (cases b; cases "?mark b") (simp add: static_def)
  qed
  then have "map ((\<lambda>b. b\<lparr>SynchronizedPeers := SynchronizedPeers b AND ?keep\<rparr>) \<circ> ?mark) (syncBindings s) = syncBindings s"
    by (intro map_idI) simp
  with synchronize_peers_loop_ok [OF assms(1) c assms(2) refl, folded ready_peers_def, of 0] none
  show ?thesis by (simp add: SynchronizePeers_def)
qed

theorem second_tick_is_silent:
  assumes "quiet_events disp" "sync_ok host" "session_ok session"
    and "HostTick disp session host = Inr (es, host')"
    and "\<forall>b \<in> set (syncBindings host'). \<not> f32_is_nan (ValueFloat (Commands host' ! ServerVariable b))"
  shows "HostTick disp session host' = Inr ([], host')"
proof -
  obtain mid where t: "ticked {..<length (syncBindings host)} host mid" "Commands host' = Commands mid"
    "map static (syncBindings host') = map static (syncBindings host)"
    "\<forall>b \<in> set (syncBindings host'). \<forall>q < 17. bit (SynchronizedPeers b) q \<longleftrightarrow> q \<in> set (ready_peers session)"
    using HostTick_summary [OF assms(1-3)] assms(4) by auto
  have st: "map static (syncBindings host') = map static (syncBindings mid)" using t(3) ticked_static [OF t(1)] by simp
  have "bindings_ok (Commands host') (syncBindings host')"
    using bindings_ok_cong [OF st refl refl] ticked_ok [OF t(1) assms(2)] t(2) by (simp add: sync_ok_def)
  then have ok: "\<forall>b \<in> set (syncBindings host'). binding_ok (Commands host') b" by (simp add: bindings_ok_def)
  have "unchanged (Commands host') b" if b: "b \<in> set (syncBindings host')" for b
  proof -
    have "static b \<in> set (map static (syncBindings mid))" using b by (simp flip: st)
    then obtain c where "c \<in> set (syncBindings mid)" "static b = static c" by auto
    then have "same_value (Commands host' ! ServerVariable b) (Commands host' ! ClientVariable b)"
      using ticked_values(1) [OF t(1) assms(2)] static_members [of b c] t(2) by simp
    then show ?thesis unfolding unchanged_def using assms(5) b by (intro same_unchanged) auto
  qed
  then show ?thesis
    using SynchronizePeers_settled [OF assms(3) ok t(4)] by (simp add: HostTick_def TickBindings_unchanged)
qed


lemma demo_host_tick:
  "\<exists>es host'. HostTick demo_quiet demo_session (demo_sync 5 demo_session) = Inr (es, host')
    \<and> map static (syncBindings host') = [(7, 0, 1)] \<and> ValueFloat (Commands host' ! 0) = 0"
proof -
  let ?s = "demo_sync 5 demo_session"
  let ?mid = "(demo_sync 5 demo_session)\<lparr>Commands := [demo_variable ''Server.Sprint'' 5,
    (demo_variable ''Server.SprintClient'' 0)\<lparr>ValueString := to_string32 5, ValueInt := 5\<rparr>]\<rparr>"
  have "TickBindings demo_quiet ?s = Inr ?mid"
    by (simp add: TickBindings_def TickBinding_def demo_sync_def CompareVariables_def demo_variable_def
        SetVariableToVariable_def copy_value_def notify_event_def set_command_def reset_peers_def Let_def)
  moreover have "sync_ok ?mid"
    using demo_sync_facts(1) [of 5 demo_session]
    by (simp add: sync_ok_def bindings_ok_def binding_ok_def demo_sync_def demo_variable_def)
  then have ok: "\<forall>b \<in> set (syncBindings ?mid). binding_ok (Commands ?mid) b" by (simp add: sync_ok_def bindings_ok_def)
  have c: "distinct (connected_peers demo_session)" "\<forall>p \<in> set (connected_peers demo_session). p < MaxPeers"
    using demo_session_ok by (simp_all add: session_ok_def)
  note l = synchronize_peers_loop_ok [OF demo_session_ok c ok refl, of 0]
  ultimately show ?thesis
    by (simp add: HostTick_def SynchronizePeers_def l [simplified] o_def mark_all_facts)
      (simp add: demo_sync_def demo_variable_def static_def)
qed

theorem second_tick_is_silent_witness:
  "\<exists>es host'. HostTick demo_quiet demo_session (demo_sync 5 demo_session) = Inr (es, host')
    \<and> HostTick demo_quiet demo_session host' = Inr ([], host')"
proof -
  obtain es host' where t: "HostTick demo_quiet demo_session (demo_sync 5 demo_session) = Inr (es, host')"
    "map static (syncBindings host') = [(7, 0, 1)]" "ValueFloat (Commands host' ! 0) = 0"
    using demo_host_tick by (elim exE conjE) (rule that)
  have "ServerVariable b = 0" if "b \<in> set (syncBindings host')" for b
  proof -
    have "static b \<in> set (map static (syncBindings host'))" using that by simp
    with t(2) show ?thesis by (simp add: static_def)
  qed
  then have "\<forall>b \<in> set (syncBindings host'). \<not> f32_is_nan (ValueFloat (Commands host' ! ServerVariable b))"
    using t(3) by (simp add: f32_is_nan_def f32_magnitude_def)
  with second_tick_is_silent [OF demo_quiet_events demo_sync_facts(1) demo_session_ok t(1)] t(1) show ?thesis by blast
qed

subsection \<open>The bindings as a registry\<close>

definition add_binding :: "(SynchronizationBinding list \<Rightarrow> SynchronizationBinding list)
    \<Rightarrow> SynchronizationBinding list \<Rightarrow> SynchronizationBinding \<Rightarrow> SynchronizationBinding list option" where
  "add_binding rehash bs b = (case AddBinding rehash b bs of Inl _ \<Rightarrow> None | Inr bs' \<Rightarrow> Some bs')"

lemma find_append: "find P (xs @ ys) = (case find P xs of None \<Rightarrow> find P ys | Some x \<Rightarrow> Some x)"
  by (induction xs) simp_all

lemma find_binding_iff:
  assumes "distinct (map SyncId bs)"
  shows "find_binding bs i = Some b \<longleftrightarrow> b \<in> set bs \<and> SyncId b = i"
  using assms unfolding find_binding_def by (induction bs) (auto simp: image_iff)

text \<open>The order of the map does not matter for a lookup.\<close>

lemma find_binding_order:
  assumes "set bs' = set bs" "distinct (map SyncId bs)" "distinct (map SyncId bs')"
  shows "find_binding bs' = find_binding bs"
  using find_binding_iff [OF assms(2)] find_binding_iff [OF assms(3)] assms(1)
  by (intro ext) (metis not_Some_eq option.exhaust)

interpretation bindings: registry "find_binding" "add_binding (\<lambda>bs. bs)" "\<lambda>b. {SyncId b}"
    "\<lambda>bs. distinct (map SyncId bs)" "\<lambda>_. True"
proof unfold_locales
  fix bs :: "SynchronizationBinding list" and b bs' i
  assume d: "distinct (map SyncId bs)"
  show "add_binding (\<lambda>bs. bs) bs b = None \<longleftrightarrow> (\<exists>k \<in> {SyncId b}. find_binding bs k \<noteq> None)"
    by (simp add: add_binding_def AddBinding_def)
  assume a: "add_binding (\<lambda>bs. bs) bs b = Some bs'"
  then have n: "find_binding bs (SyncId b) = None" "bs' = bs @ [b]"
    by (auto simp: add_binding_def AddBinding_def split: if_splits)
  then show "find_binding bs' i = (if i \<in> {SyncId b} then Some b else find_binding bs i)"
    by (simp add: find_binding_def find_append split: option.split)
  show "distinct (map SyncId bs')" using n d by (auto simp: find_binding_def find_None_iff)
qed

end
