(* ===== verification/Crypto.thy ===== *)
theory Crypto
  imports Prelude
begin

text \<open>
  \<open>Utils/Cryptography.cpp\<close>: the parts that do not call OpenSSL. The generation of random passwords
  from the bytes of the system's random source, the layout of a key in PEM form, and the 32-bit hash
  taken from a SHA-1 digest. The random source and the digest are parameters. The signatures and the
  generation of key pairs are calls of OpenSSL throughout and are not modelled.
\<close>

subsection \<open>Random passwords\<close>

text \<open>\<open>chars[i]\<close> at the length of the string is the terminating NUL.\<close>

definition random_char :: "string \<Rightarrow> u8 \<Rightarrow> char" where
  "random_char chars b = (chars @ [NUL]) ! (unat b * length chars div 256)"

definition RandomString :: "(nat \<Rightarrow> u8 list option) \<Rightarrow> nat \<Rightarrow> string \<Rightarrow> string \<Rightarrow> bool \<times> string" where
  "RandomString RandomBytes len chars out = (case RandomBytes len of
     None \<Rightarrow> (False, out)
   | Some bytes \<Rightarrow> (True, foldl (\<lambda>out i. out @ [random_char chars (bytes ! i)]) out [0..<len]))"

definition PasswordChars :: string where
  "PasswordChars = ''ABCDEFGHIJKLMNOPQRSTUVWXYZabcdefghijklmnopqrstuvwxyz1234567890!@#$%^&*''"

definition RandomPassword :: "(nat \<Rightarrow> u8 list option) \<Rightarrow> nat \<Rightarrow> string \<Rightarrow> bool \<times> string" where
  "RandomPassword RandomBytes len out = RandomString RandomBytes len PasswordChars out"

subsection \<open>Keys and hashes\<close>

definition newline :: char where "newline = CHR 0x0A"

function reformat_loop :: "string \<Rightarrow> nat \<Rightarrow> string \<Rightarrow> string" where
  "reformat_loop key pos returnKey =
     (if pos < length key then
        (let toCopy = (if 64 < length key - pos then 64 else length key - pos) in
         reformat_loop key (pos + toCopy) (returnKey @ take toCopy (drop pos key) @ [newline]))
      else returnKey)"
  by pat_completeness auto
termination by (relation "measure (\<lambda>(key, pos, _). length key - pos)") (auto simp: Let_def)

declare reformat_loop.simps [simp del]

definition key_type :: "bool \<Rightarrow> string" where
  "key_type isPrivateKey = (if isPrivateKey then ''RSA PRIVATE KEY'' else ''PUBLIC KEY'')"

definition ReformatKey :: "bool \<Rightarrow> string \<Rightarrow> string" where
  "ReformatKey isPrivateKey key =
     ''-----BEGIN '' @ key_type isPrivateKey @ ''-----'' @ [newline] @ reformat_loop key 0 ''''
     @ ''-----END '' @ key_type isPrivateKey @ ''-----'' @ [newline]"

definition Hash32 :: "(string \<Rightarrow> u8 list option) \<Rightarrow> string \<Rightarrow> u32 option" where
  "Hash32 sha1 str = map_option (\<lambda>digest.
     push_bit 24 (ucast (digest ! 0)) OR push_bit 16 (ucast (digest ! 1))
     OR push_bit 8 (ucast (digest ! 2)) OR ucast (digest ! 3)) (sha1 str)"

subsection \<open>Properties\<close>

lemma foldl_snoc_map: "foldl (\<lambda>out i. out @ [f i]) out xs = out @ map f xs"
  by (induction xs arbitrary: out) simp_all

lemma RandomString_eq:
  "RandomBytes n = Some bytes \<Longrightarrow> RandomString RandomBytes n chars out
    = (True, out @ map (\<lambda>i. random_char chars (bytes ! i)) [0..<n])"
  by (simp add: RandomString_def foldl_snoc_map)

lemma random_char_index:
  assumes "chars \<noteq> []"
  shows "unat (b :: u8) * length chars div 256 < length chars" "random_char chars b \<in> set chars"
proof -
  have "unat b < 256" using unsigned_less [of b] by simp
  then have "unat b * length chars < 256 * length chars" using assms by simp
  then show i: "unat b * length chars div 256 < length chars" by (simp add: less_mult_imp_div_less mult.commute)
  then show "random_char chars b \<in> set chars" by (simp add: random_char_def nth_append)
qed

text \<open>Every character of a set of at most 256 is drawn for some byte.\<close>

lemma random_char_onto:
  assumes "c \<in> set chars" "length chars \<le> 256"
  shows "\<exists>b. random_char chars b = c"
proof -
  let ?n = "length chars"
  obtain i where i: "i < ?n" "chars ! i = c" using assms(1) by (auto simp: in_set_conv_nth)
  let ?k = "(256 * i + ?n - 1) div ?n"
  have ge: "256 * i \<le> ?k * ?n"
  proof -
    have "256 * i + ?n - 1 < ?n + ?k * ?n" using i(1) by (intro dividend_less_div_times) linarith
    then show ?thesis using i(1) by linarith
  qed
  have "?k * ?n \<le> 256 * i + ?n - 1" by (metis div_times_less_eq_dividend)
  moreover have "256 * i + ?n - 1 < 256 * (i + 1)" using assms(2) i(1) by arith
  ultimately have less: "?k * ?n < 256 * (i + 1)" by (rule le_less_trans)
  have idx: "?k * ?n div 256 = i"
    by (rule div_nat_eqI) (use ge less in \<open>simp_all only: mult.commute Suc_eq_plus1\<close>)
  have "?k < 256"
  proof (rule ccontr)
    assume "\<not> ?k < 256"
    then have "256 * ?n \<le> ?k * ?n" by simp
    then have "256 * ?n < 256 * (i + 1)" using less by (rule le_less_trans)
    with i(1) show False by simp
  qed
  then have "unat (of_nat ?k :: u8) = ?k" by (simp add: unat_of_nat take_bit_nat_eq_self)
  with idx i show ?thesis
    by (intro exI [of _ "of_nat ?k"]) (simp only: random_char_def nth_append if_True)
qed

text \<open>A random password has the length that was asked for and consists of password characters, each of
  which can come up; without random bytes the text is left alone and the call says so.\<close>

theorem RandomPassword_spec:
  "(RandomBytes n = None \<longrightarrow> RandomPassword RandomBytes n out = (False, out))
    \<and> (\<forall>bytes. RandomBytes n = Some bytes \<longrightarrow> (\<exists>pw. RandomPassword RandomBytes n out = (True, out @ pw)
         \<and> length pw = n \<and> set pw \<subseteq> set PasswordChars))
    \<and> (\<forall>c \<in> set PasswordChars. \<exists>b. random_char PasswordChars b = c)"
proof (intro conjI allI impI ballI)
  show "RandomPassword RandomBytes n out = (False, out)" if "RandomBytes n = None"
    using that by (simp add: RandomPassword_def RandomString_def)
  fix bytes assume "RandomBytes n = Some bytes"
  then have r: "RandomPassword RandomBytes n out = (True, out @ map (\<lambda>i. random_char PasswordChars (bytes ! i)) [0..<n])"
    by (simp add: RandomPassword_def RandomString_eq)
  have "PasswordChars \<noteq> []" by (simp add: PasswordChars_def)
  with r random_char_index(2) show "\<exists>pw. RandomPassword RandomBytes n out = (True, out @ pw)
      \<and> length pw = n \<and> set pw \<subseteq> set PasswordChars"
    by (intro exI [of _ "map (\<lambda>i. random_char PasswordChars (bytes ! i)) [0..<n]"]) auto
next
  show "\<exists>b. random_char PasswordChars b = c" if "c \<in> set PasswordChars" for c
    using that by (rule random_char_onto) (simp add: PasswordChars_def)
qed

lemma reformat_loop_lines:
  assumes "pos \<le> length key"
  shows "\<exists>ls. reformat_loop key pos out = out @ concat (map (\<lambda>l. l @ [newline]) ls) \<and> concat ls = drop pos key
    \<and> (\<forall>l \<in> set ls. 0 < length l \<and> length l \<le> 64) \<and> (\<forall>l \<in> set (butlast ls). length l = 64)"
  using assms
proof (induction key pos out rule: reformat_loop.induct)
  case (1 key pos out)
  show ?case
  proof (cases "pos < length key")
    case True
    let ?n = "if 64 < length key - pos then 64 else length key - pos"
    let ?l = "take ?n (drop pos key)"
    have n: "0 < ?n" "?n \<le> 64" "pos + ?n \<le> length key" "length ?l = ?n" using True by auto
    from "1.IH" [OF True refl n(3)] obtain ls where ls:
      "reformat_loop key (pos + ?n) (out @ ?l @ [newline]) = (out @ ?l @ [newline]) @ concat (map (\<lambda>l. l @ [newline]) ls)"
      "concat ls = drop (pos + ?n) key" "\<forall>l \<in> set ls. 0 < length l \<and> length l \<le> 64"
      "\<forall>l \<in> set (butlast ls). length l = 64" by blast
    have "?n = 64" if "ls \<noteq> []"
    proof (rule ccontr)
      assume "?n \<noteq> 64"
      then have "pos + ?n = length key" using True by (auto split: if_splits)
      then have "concat ls = []" using ls(2) by simp
      with ls(3) that show False by (cases ls) auto
    qed
    moreover have "reformat_loop key pos out = reformat_loop key (pos + ?n) (out @ ?l @ [newline])"
      using True by (subst reformat_loop.simps) (simp add: Let_def)
    moreover have "?l @ concat ls = drop pos key" using ls(2) by (metis append_take_drop_id drop_drop add.commute)
    ultimately show ?thesis
      using ls(1,3,4) n by (intro exI [of _ "?l # ls"]) (auto simp del: take_drop)
  next
    case False
    with "1.prems" show ?thesis by (intro exI [of _ "[]"]) (simp add: reformat_loop.simps)
  qed
qed

text \<open>A key in PEM form: between the two marker lines stands the key, cut into lines of 64 characters, the
  last one with what is left.\<close>

lemma ReformatKey_layout:
  "\<exists>ls. ReformatKey priv key = ''-----BEGIN '' @ key_type priv @ ''-----'' @ [newline]
       @ concat (map (\<lambda>l. l @ [newline]) ls) @ ''-----END '' @ key_type priv @ ''-----'' @ [newline]
     \<and> concat ls = key \<and> (\<forall>l \<in> set ls. 0 < length l \<and> length l \<le> 64) \<and> (\<forall>l \<in> set (butlast ls). length l = 64)"
proof -
  obtain ls where "reformat_loop key 0 '''' = concat (map (\<lambda>l. l @ [newline]) ls)" "concat ls = key"
    "\<forall>l \<in> set ls. 0 < length l \<and> length l \<le> 64" "\<forall>l \<in> set (butlast ls). length l = 64"
    using reformat_loop_lines [of 0 key "''''"] by auto
  then show ?thesis by (intro exI [of _ ls]) (simp add: ReformatKey_def)
qed

text \<open>The hash is the first four bytes of the digest, most significant first.\<close>

lemma Hash32_value:
  assumes "sha1 str = Some (a # b # c # d # rest)"
  shows "Hash32 sha1 str = Some (le_word [d, c, b, a])"
proof -
  have "push_bit 24 (ucast a) OR push_bit 16 (ucast b) OR push_bit 8 (ucast c) OR ucast d
      = (le_word [d, c, b, a] :: u32)"
    by (rule bit_word_eqI) (auto simp: bit_simps)
  with assms show ?thesis by (simp add: Hash32_def)
qed

end
