(* ===== verification/Rcon.thy ===== *)
theory Rcon
  imports CommandMap Crypto
begin

text \<open>
  \<open>Server/Rcon.cpp\<close>: the remote console. A WebSocket client that speaks the protocol \<open>dew-rcon\<close> sends
  the password, and every later message of the connection is executed as a command line. The state is
  the command map's with the set of authenticated connections and whether the server thread runs. The
  WebSocket library is a parameter: whether a send or a close succeeds or throws
  \<open>websocketpp::exception\<close>. A connection handle is a number.
\<close>

subsection \<open>Data\<close>

record 'h RconState = "'h MapState" +
  authenticatedConnections :: "nat set"
  RconRunning :: bool

record WebSocketOps =
  ws_send :: "nat \<Rightarrow> string \<Rightarrow> bool"
  ws_close :: "nat \<Rightarrow> bool"

definition DefaultPasswordLength :: nat where "DefaultPasswordLength = 32"
definition ProtocolName :: string where "ProtocolName = ''dew-rcon''"
definition AcceptMessage :: string where "AcceptMessage = ''accept''"
definition DenyMessage :: string where "DenyMessage = ''deny''"

datatype RconEffect =
    RconSelected nat string
  | RconRejected nat
  | RconRan nat string
  | RconSent nat string
  | RconClosed nat string

datatype RconEvent =
    RconOpen nat "string list"
  | RconMessage nat string
  | RconClose nat

subsection \<open>Handlers\<close>

text \<open>\<open>pw\<close> is the variable \<open>VarRconPassword\<close>.\<close>

definition RconPassword :: "nat \<Rightarrow> ('h, 'm) MapState_scheme \<Rightarrow> string" where
  "RconPassword pw s = ValueString (Commands s ! pw)"

definition OnValidate :: "string list \<Rightarrow> string option" where
  "OnValidate subprotocols = (if find ((=) ProtocolName) subprotocols = None then None else Some ProtocolName)"

text \<open>The handlers return what they did, whether \<open>websocketpp::exception\<close> was thrown, and the state.\<close>

definition ProcessCommand :: "FloatOps \<Rightarrow> ('h, 'm RconState_ext) handlers \<Rightarrow> WebSocketOps \<Rightarrow> nat \<Rightarrow> string
    \<Rightarrow> ('h, 'm) RconState_scheme \<Rightarrow> (RconEffect list \<times> bool \<times> ('h, 'm) RconState_scheme) res" where
  "ProcessCommand fo disp ws hdl payload s =
     rbind (ExecuteCommand fo disp payload True s) (\<lambda>(output, s').
       if ws_send ws hdl output then Inr ([RconRan hdl payload, RconSent hdl output], False, s')
       else Inr ([RconRan hdl payload], True, s'))"

definition ProcessPassword :: "nat \<Rightarrow> WebSocketOps \<Rightarrow> nat \<Rightarrow> string
    \<Rightarrow> ('h, 'm) RconState_scheme \<Rightarrow> RconEffect list \<times> bool \<times> ('h, 'm) RconState_scheme" where
  "ProcessPassword pw ws hdl inPassword s =
     (if inPassword = RconPassword pw s then
        (let s' = s\<lparr>authenticatedConnections := insert hdl (authenticatedConnections s)\<rparr> in
         if ws_send ws hdl AcceptMessage then ([RconSent hdl AcceptMessage], False, s') else ([], True, s'))
      else if \<not> ws_send ws hdl DenyMessage then ([], True, s)
      else if \<not> ws_close ws hdl then ([RconSent hdl DenyMessage], True, s)
      else ([RconSent hdl DenyMessage, RconClosed hdl DenyMessage], False, s))"

text \<open>\<open>OnMessage\<close> catches \<open>websocketpp::lib::error_code\<close>, which is not what the library throws.\<close>

definition OnMessage :: "FloatOps \<Rightarrow> ('h, 'm RconState_ext) handlers \<Rightarrow> nat \<Rightarrow> WebSocketOps \<Rightarrow> nat \<Rightarrow> string
    \<Rightarrow> ('h, 'm) RconState_scheme \<Rightarrow> (RconEffect list \<times> bool \<times> ('h, 'm) RconState_scheme) res" where
  "OnMessage fo disp pw ws hdl msg s =
     (if hdl \<in> authenticatedConnections s then ProcessCommand fo disp ws hdl msg s
      else Inr (ProcessPassword pw ws hdl msg s))"

definition OnClose :: "nat \<Rightarrow> ('h, 'm) RconState_scheme \<Rightarrow> ('h, 'm) RconState_scheme" where
  "OnClose hdl s = s\<lparr>authenticatedConnections := authenticatedConnections s - {hdl}\<rparr>"

subsection \<open>The server thread\<close>

text \<open>One event of the server's loop. An exception of the library leaves \<open>run\<close> and ends the thread.\<close>

definition RconThread :: "FloatOps \<Rightarrow> ('h, 'm RconState_ext) handlers \<Rightarrow> nat \<Rightarrow> WebSocketOps \<Rightarrow> RconEvent
    \<Rightarrow> ('h, 'm) RconState_scheme \<Rightarrow> (RconEffect list \<times> ('h, 'm) RconState_scheme) res" where
  "RconThread fo disp pw ws ev s =
     (if \<not> RconRunning s then Inr ([], s)
      else case ev of
        RconOpen hdl subprotocols \<Rightarrow> (case OnValidate subprotocols of
            None \<Rightarrow> Inr ([RconRejected hdl], s)
          | Some protocol \<Rightarrow> Inr ([RconSelected hdl protocol], s))
      | RconMessage hdl msg \<Rightarrow> rbind (OnMessage fo disp pw ws hdl msg s) (\<lambda>(es, thrown, s').
          Inr (es, if thrown then s'\<lparr>RconRunning := False\<rparr> else s'))
      | RconClose hdl \<Rightarrow> Inr ([], OnClose hdl s))"

definition RconInitialize :: "FloatOps \<Rightarrow> ('h, 'm RconState_ext) handlers \<Rightarrow> (nat \<Rightarrow> u8 list option) \<Rightarrow> nat
    \<Rightarrow> ('h, 'm) RconState_scheme \<Rightarrow> ('h, 'm) RconState_scheme res" where
  "RconInitialize fo disp RandomBytes pw s =
     rbind (if RconPassword pw s = '''' then
              (let (_, password) = RandomPassword RandomBytes DefaultPasswordLength (RconPassword pw s) in
               rbind (ExecuteCommand fo disp ''WriteConfig'' False
                   (set_command pw ((Commands s ! pw)\<lparr>ValueString := password\<rparr>) s)) (\<lambda>(_, s'). Inr s'))
            else Inr s) (\<lambda>s'. Inr (s'\<lparr>RconRunning := True\<rparr>))"

subsection \<open>Who may run commands\<close>

text \<open>The histories of the server: the events so far, each with the password at its time. Between two
  events the rest of the program may do anything but change the server's own state.\<close>

inductive rcon_trace :: "FloatOps \<Rightarrow> ('h, 'm RconState_ext) handlers \<Rightarrow> nat \<Rightarrow> (RconEvent \<times> string) list
    \<Rightarrow> ('h, 'm) RconState_scheme \<Rightarrow> bool" for fo disp pw where
  rcon_start: "authenticatedConnections s = {} \<Longrightarrow> rcon_trace fo disp pw [] s"
| rcon_elsewhere: "rcon_trace fo disp pw tr s \<Longrightarrow> authenticatedConnections s' = authenticatedConnections s \<Longrightarrow>
    rcon_trace fo disp pw tr s'"
| rcon_event: "rcon_trace fo disp pw tr s \<Longrightarrow> RconRunning s \<Longrightarrow> RconThread fo disp pw ws ev s = Inr (es, s') \<Longrightarrow>
    rcon_trace fo disp pw (tr @ [(ev, RconPassword pw s)]) s'"

definition logged_in :: "(RconEvent \<times> string) list \<Rightarrow> nat \<Rightarrow> bool" where
  "logged_in tr hdl \<longleftrightarrow> (\<exists>i < length tr. \<exists>p. tr ! i = (RconMessage hdl p, p)
     \<and> (\<forall>j < length tr. i < j \<longrightarrow> fst (tr ! j) \<noteq> RconClose hdl))"

lemma logged_in_snoc:
  "logged_in tr hdl \<Longrightarrow> fst e \<noteq> RconClose hdl \<Longrightarrow> logged_in (tr @ [e]) hdl"
  unfolding logged_in_def
  by (elim exE conjE, rule_tac x = i in exI) (auto simp: nth_append less_Suc_eq)

lemma logged_in_now: "logged_in (tr @ [(RconMessage hdl p, p)]) hdl"
  unfolding logged_in_def by (intro exI [of _ "length tr"]) auto

interpretation connections: execution_invariant fo
    "\<lambda>s. authenticatedConnections s = A \<and> RconRunning s = r" for fo A r
  by unfold_locales (auto simp: set_command_def)

text \<open>The update events do not touch the server's own state.\<close>

definition leaves_rcon :: "('h, 'm RconState_ext) handlers \<Rightarrow> bool" where
  "leaves_rcon disp \<longleftrightarrow> (\<forall>A r. events_keep (\<lambda>s. authenticatedConnections s = A \<and> RconRunning s = r) disp)"

lemma leaves_rconD:
  assumes "leaves_rcon disp" "ExecuteCommand fo disp line user s = Inr (out, s')"
  shows "authenticatedConnections s' = authenticatedConnections s" "RconRunning s' = RconRunning s"
proof -
  have "events_keep (\<lambda>t. authenticatedConnections t = authenticatedConnections s
      \<and> RconRunning t = RconRunning s) disp"
    using assms(1) by (simp add: leaves_rcon_def)
  from connections.command_kept [OF this _ assms(2)]
  show "authenticatedConnections s' = authenticatedConnections s" "RconRunning s' = RconRunning s" by auto
qed

lemma RconThread_connections:
  assumes "leaves_rcon disp" "RconRunning s" "RconThread fo disp pw ws ev s = Inr (es, s')"
    and "h \<in> authenticatedConnections s'"
  shows "(h \<in> authenticatedConnections s \<and> ev \<noteq> RconClose h) \<or> ev = RconMessage h (RconPassword pw s)"
proof (cases ev)
  case (RconOpen hdl ps)
  with assms show ?thesis by (simp add: RconThread_def split: option.splits)
next
  case (RconClose hdl)
  with assms show ?thesis by (auto simp: RconThread_def OnClose_def)
next
  case (RconMessage hdl msg)
  show ?thesis
  proof (cases "hdl \<in> authenticatedConnections s")
    case True
    with RconMessage assms(2,3) obtain reply s1 where "ExecuteCommand fo disp msg True s = Inr (reply, s1)"
      "authenticatedConnections s' = authenticatedConnections s1"
      by (auto simp: RconThread_def OnMessage_def ProcessCommand_def rbind_Inr_iff split: if_splits)
    with leaves_rconD(1) [OF assms(1)] assms(4) RconMessage show ?thesis by simp
  next
    case False
    with RconMessage assms show ?thesis
      by (auto simp: RconThread_def OnMessage_def ProcessPassword_def Let_def split: if_splits)
  qed
qed

lemma rcon_trace_logged_in:
  assumes "leaves_rcon disp" "rcon_trace fo disp pw tr s" "h \<in> authenticatedConnections s"
  shows "logged_in tr h"
  using assms(2,3)
proof (induction rule: rcon_trace.induct)
  case (rcon_event tr s ws ev es s')
  with RconThread_connections [OF assms(1) rcon_event.hyps(2,3)] show ?case
    by (metis fst_conv logged_in_now logged_in_snoc)
qed simp_all

text \<open>C6. A message is executed as a command line only for a connection that has logged in: some earlier
  message of the same connection was the password of that time, and the connection was not closed
  since.\<close>

theorem commands_need_password:
  assumes "leaves_rcon disp" "rcon_trace fo disp pw tr s" "RconRunning s"
    and "RconThread fo disp pw ws ev s = Inr (es, s')" "RconRan hdl line \<in> set es"
  shows "ev = RconMessage hdl line \<and> (\<exists>i < length tr. \<exists>p. tr ! i = (RconMessage hdl p, p)
     \<and> (\<forall>j < length tr. i < j \<longrightarrow> fst (tr ! j) \<noteq> RconClose hdl))"
proof -
  have "ev = RconMessage hdl line \<and> hdl \<in> authenticatedConnections s"
    using assms(3-5)
    by (cases ev) (auto simp: RconThread_def OnMessage_def ProcessCommand_def ProcessPassword_def rbind_Inr_iff Let_def
        split: if_splits option.splits)
  with rcon_trace_logged_in [OF assms(1,2)] show ?thesis by (simp add: logged_in_def)
qed

text \<open>C38. One reply that the WebSocket library refuses to send, such as a text that is not valid UTF-8,
  ends the server: the command has been executed, but the exception is not the one \<open>OnMessage\<close> catches,
  and no later event of any connection is answered.\<close>

theorem unsendable_reply_ends_server:
  assumes "RconRunning s" "hdl \<in> authenticatedConnections s"
    and "ExecuteCommand fo disp line True s = Inr (reply, s1)" "\<not> ws_send ws hdl reply"
  shows "\<exists>s'. RconThread fo disp pw ws (RconMessage hdl line) s = Inr ([RconRan hdl line], s') \<and> \<not> RconRunning s'
    \<and> (\<forall>ws' ev. RconThread fo disp pw ws' ev s' = Inr ([], s'))"
  using assms by (simp add: RconThread_def OnMessage_def ProcessCommand_def)

text \<open>Starting the server without a password sets a random one of 32 characters, so that the empty
  message is no login; but the result of the random source is not looked at: without random bytes the
  password stays empty, and the empty message logs in.\<close>

theorem initial_password:
  assumes "pw < length (Commands s)" "RconPassword pw s = ''''" "hdl \<notin> authenticatedConnections s"
    and "\<And>t out t'. ExecuteCommand fo disp ''WriteConfig'' False t = Inr (out, t') \<Longrightarrow>
      RconPassword pw t' = RconPassword pw t \<and> authenticatedConnections t' = authenticatedConnections t"
    and "RconInitialize fo disp RandomBytes pw s = Inr s'"
    and "RconThread fo disp pw ws (RconMessage hdl '''') s' = Inr (es, s'')"
  shows "if RandomBytes DefaultPasswordLength = None then hdl \<in> authenticatedConnections s''
    else hdl \<notin> authenticatedConnections s''
      \<and> length (RconPassword pw s') = 32 \<and> set (RconPassword pw s') \<subseteq> set PasswordChars"
proof -
  obtain ok pass where rp: "RandomPassword RandomBytes DefaultPasswordLength '''' = (ok, pass)" by fastforce
  with assms(2,5) obtain out t where
    "ExecuteCommand fo disp ''WriteConfig'' False (set_command pw ((Commands s ! pw)\<lparr>ValueString := pass\<rparr>) s) = Inr (out, t)"
    and s': "s' = t\<lparr>RconRunning := True\<rparr>"
    by (auto simp: RconInitialize_def rbind_Inr_iff)
  from assms(4) [OF this(1)] assms(1) have t: "RconPassword pw s' = pass"
    "authenticatedConnections s' = authenticatedConnections s"
    by (simp_all add: s' RconPassword_def set_command_def)
  have run: "hdl \<in> authenticatedConnections s'' \<longleftrightarrow> pass = ''''"
    using assms(3,6) t s' by (auto simp: RconThread_def OnMessage_def ProcessPassword_def Let_def split: if_splits)
  show ?thesis
  proof (cases "RandomBytes DefaultPasswordLength")
    case None
    with rp run show ?thesis by (simp add: RandomPassword_def RandomString_def)
  next
    case (Some bytes)
    with rp have p: "pass = map (\<lambda>i. random_char PasswordChars (bytes ! i)) [0..<32]"
      by (simp add: RandomPassword_def RandomString_eq DefaultPasswordLength_def)
    have "PasswordChars \<noteq> []" by (simp add: PasswordChars_def)
    with Some p run t(1) random_char_index(2) show ?thesis by auto
  qed
qed

subsection \<open>Examples\<close>

definition demo_rcon :: "string \<Rightarrow> nat set \<Rightarrow> unit RconState" where
  "demo_rcon p A = \<lparr>Commands = [(demo_command ''P'' TypeVariableString 0)\<lparr>ValueString := p\<rparr>],
     queuedCommands = [], GameHasMenuShown = True, ActiveSession = None,
     authenticatedConnections = A, RconRunning = True\<rparr>"

definition demo_ws :: "bool \<Rightarrow> WebSocketOps" where
  "demo_ws ok = \<lparr>ws_send = (\<lambda>_ _. ok), ws_close = (\<lambda>_. ok)\<rparr>"

lemma reject_leaves_rcon: "leaves_rcon reject_all"
  by (simp add: leaves_rcon_def reject_all_keeps)

lemma demo_rcon_line:
  "ExecuteCommand demo_floats reject_all '' '' True (demo_rcon p A) = Inr (''Invalid input'', demo_rcon p A)"
  by (simp add: ExecuteCommand_def ExecuteCommandWithStatus_def CommandLineToArgvA_def argv_scan_def argv_step_def
      argv_init_def argv_blank_def c_str_def NUL_def)

theorem commands_need_password_witness:
  "RconMessage 1 '' '' = RconMessage 1 '' '' \<and> (\<exists>i < length [(RconMessage 1 ''pw'', ''pw'')]. \<exists>p.
     [(RconMessage 1 ''pw'', ''pw'')] ! i = (RconMessage 1 p, p)
     \<and> (\<forall>j < length [(RconMessage 1 ''pw'', ''pw'')]. i < j \<longrightarrow> fst ([(RconMessage 1 ''pw'', ''pw'')] ! j) \<noteq> RconClose 1))"
proof -
  have "rcon_trace demo_floats reject_all 0 [] (demo_rcon ''pw'' {})"
    by (rule rcon_start) (simp add: demo_rcon_def)
  moreover have "RconThread demo_floats reject_all 0 (demo_ws True) (RconMessage 1 ''pw'') (demo_rcon ''pw'' {})
      = Inr ([RconSent 1 AcceptMessage], demo_rcon ''pw'' {1})"
    by (simp add: RconThread_def OnMessage_def ProcessPassword_def RconPassword_def demo_rcon_def demo_ws_def)
  moreover have "RconRunning (demo_rcon ''pw'' {})" by (simp add: demo_rcon_def)
  ultimately have "rcon_trace demo_floats reject_all 0 ([] @ [(RconMessage 1 ''pw'', RconPassword 0 (demo_rcon ''pw'' {}))])
      (demo_rcon ''pw'' {1})"
    by (blast intro: rcon_event)
  then have t: "rcon_trace demo_floats reject_all 0 [(RconMessage 1 ''pw'', ''pw'')] (demo_rcon ''pw'' {1})"
    by (simp add: RconPassword_def demo_rcon_def)
  have "RconThread demo_floats reject_all 0 (demo_ws True) (RconMessage 1 '' '') (demo_rcon ''pw'' {1})
      = Inr ([RconRan 1 '' '', RconSent 1 ''Invalid input''], demo_rcon ''pw'' {1})"
    using demo_rcon_line [of "''pw''" "{1}"]
    by (simp add: RconThread_def OnMessage_def ProcessCommand_def demo_ws_def) (simp add: demo_rcon_def)
  from commands_need_password [OF reject_leaves_rcon t _ this] show ?thesis by (simp add: demo_rcon_def)
qed

theorem unsendable_reply_ends_server_witness:
  "\<exists>s'. RconThread demo_floats reject_all 0 (demo_ws False) (RconMessage 1 '' '') (demo_rcon ''pw'' {1})
      = Inr ([RconRan 1 '' ''], s') \<and> \<not> RconRunning s'
    \<and> (\<forall>ws' ev. RconThread demo_floats reject_all 0 ws' ev s' = Inr ([], s'))"
  by (rule unsendable_reply_ends_server [OF _ _ demo_rcon_line]) (simp_all add: demo_rcon_def demo_ws_def)

lemma argv_write_config: "CommandLineToArgvA ''WriteConfig'' = [''WriteConfig'']"
  by (simp add: CommandLineToArgvA_def argv_scan_def argv_step_def argv_init_def argv_blank_def start_arg_def
      put_char_def c_str_def NUL_def)

lemma demo_write_config:
  assumes "ExecuteCommand fo reject_all ''WriteConfig'' user t = Inr (out, t')"
  shows "Commands t' = Commands t" "authenticatedConnections t' = authenticatedConnections t"
  using assms
  by (auto simp: ExecuteCommand_def ExecuteCommandWithStatus_def argv_write_config call_event_def reject_all_def
      execute_variable_def unparsed_args_def rbind_Inr_iff Let_def split: if_splits option.splits)

theorem initial_password_witness:
  "\<exists>s' es s''. RconInitialize demo_floats reject_all (\<lambda>n. Some (replicate n 0)) 0 (demo_rcon '''' {}) = Inr s'
    \<and> RconThread demo_floats reject_all 0 (demo_ws True) (RconMessage 1 '''') s' = Inr (es, s'')
    \<and> (if (\<lambda>n. Some (replicate n (0::u8))) DefaultPasswordLength = None then 1 \<in> authenticatedConnections s''
       else 1 \<notin> authenticatedConnections s''
         \<and> length (RconPassword 0 s') = 32 \<and> set (RconPassword 0 s') \<subseteq> set PasswordChars)"
proof -
  let ?R = "\<lambda>n. Some (replicate n (0::u8))"
  let ?s = "demo_rcon '''' {}"
  obtain out t where "ExecuteCommand demo_floats reject_all ''WriteConfig'' False
      (set_command 0 ((Commands ?s ! 0)\<lparr>ValueString := snd (RandomPassword ?R DefaultPasswordLength '''')\<rparr>) ?s) = Inr (out, t)"
    by (simp add: ExecuteCommand_def ExecuteCommandWithStatus_def argv_write_config FindCommand_def command_matches_def
        stricmp_eq_def demo_rcon_def demo_command_def set_command_def c_str_def NUL_def)
  then have i: "RconInitialize demo_floats reject_all ?R 0 ?s = Inr (t\<lparr>RconRunning := True\<rparr>)"
    by (simp add: RconInitialize_def case_prod_beta) (simp add: RconPassword_def demo_rcon_def)
  obtain es s'' where r: "RconThread demo_floats reject_all 0 (demo_ws True) (RconMessage 1 '''') (t\<lparr>RconRunning := True\<rparr>)
      = Inr (es, s'')"
    using demo_write_config(2) [OF \<open>ExecuteCommand _ _ _ _ _ = _\<close>]
    by (simp add: RconThread_def OnMessage_def set_command_def demo_rcon_def case_prod_beta)
  have "0 < length (Commands ?s)" "RconPassword 0 ?s = ''''" "1 \<notin> authenticatedConnections ?s"
    by (simp_all add: demo_rcon_def RconPassword_def)
  then have "if ?R DefaultPasswordLength = None then 1 \<in> authenticatedConnections s''
      else 1 \<notin> authenticatedConnections s''
        \<and> length (RconPassword 0 (t\<lparr>RconRunning := True\<rparr>)) = 32
        \<and> set (RconPassword 0 (t\<lparr>RconRunning := True\<rparr>)) \<subseteq> set PasswordChars"
    by (rule initial_password [OF _ _ _ _ i r]) (simp_all add: RconPassword_def demo_write_config)
  with i r show ?thesis by (intro exI conjI)
qed

end
