(* ===== verification/NameTable.thy ===== *)
theory NameTable
  imports Strings
begin

text \<open>
  \<open>Utils/NameValueTable.hpp\<close>: an immutable table of name-value pairs with three indexes, by name, by
  lower-case name and by value. Inserting a range into a map keeps the first value of a repeated key,
  while assigning through \<open>operator[]\<close> keeps the last, so the index by name and the other two answer
  differently when names or values are repeated.
\<close>

subsection \<open>The table\<close>

record 'v NameValueTable =
  valuesInOrder :: "(string \<times> 'v) list"
  valuesByName :: "string \<rightharpoonup> 'v"
  valuesByLowercaseName :: "string \<rightharpoonup> 'v"
  valueNames :: "'v \<rightharpoonup> string"

definition insert_pair :: "('k \<rightharpoonup> 'v) \<Rightarrow> 'k \<times> 'v \<Rightarrow> ('k \<rightharpoonup> 'v)" where
  "insert_pair m kv = (if m (fst kv) = None then m(fst kv \<mapsto> snd kv) else m)"

definition NameValueTable :: "(string \<times> 'v) list \<Rightarrow> 'v NameValueTable" where
  "NameValueTable pairs = \<lparr>valuesInOrder = pairs, valuesByName = foldl insert_pair Map.empty pairs,
     valuesByLowercaseName = foldl (\<lambda>m (n, v). m(map tolower n \<mapsto> v)) Map.empty pairs,
     valueNames = foldl (\<lambda>m (n, v). m(v \<mapsto> n)) Map.empty pairs\<rparr>"

definition FindValue :: "'v NameValueTable \<Rightarrow> string \<Rightarrow> 'v option" where
  "FindValue t n = valuesByName t n"

definition FindValueIgnoreCase :: "'v NameValueTable \<Rightarrow> string \<Rightarrow> 'v option" where
  "FindValueIgnoreCase t n = valuesByLowercaseName t (map tolower n)"

definition FindName :: "'v NameValueTable \<Rightarrow> 'v \<Rightarrow> string option" where
  "FindName t v = valueNames t v"

definition ContainsName :: "'v NameValueTable \<Rightarrow> string \<Rightarrow> bool" where
  "ContainsName t n \<longleftrightarrow> FindValue t n \<noteq> None"

definition ContainsNameIgnoreCase :: "'v NameValueTable \<Rightarrow> string \<Rightarrow> bool" where
  "ContainsNameIgnoreCase t n \<longleftrightarrow> FindValueIgnoreCase t n \<noteq> None"

definition ContainsValue :: "'v NameValueTable \<Rightarrow> 'v \<Rightarrow> bool" where
  "ContainsValue t v \<longleftrightarrow> FindName t v \<noteq> None"

subsection \<open>What the indexes answer\<close>

lemma foldl_insert_pair:
  "foldl insert_pair m pairs k = (case m k of Some v \<Rightarrow> Some v | None \<Rightarrow> map_of pairs k)"
proof (induction pairs arbitrary: m)
  case (Cons kv pairs)
  then show ?case by (cases "m (fst kv)"; cases "m k") (auto simp: insert_pair_def)
qed (simp split: option.split)

lemma foldl_assign:
  "foldl (\<lambda>m (n, v). m(f n v \<mapsto> g n v)) m pairs k
    = (case map_of (rev (map (\<lambda>(n, v). (f n v, g n v)) pairs)) k of Some x \<Rightarrow> Some x | None \<Rightarrow> m k)"
  by (induction pairs arbitrary: m) (auto simp: map_add_Some_iff split: option.splits)

lemma FindValue_NameValueTable: "FindValue (NameValueTable pairs) n = map_of pairs n"
  by (simp add: FindValue_def NameValueTable_def foldl_insert_pair)

lemma FindValueIgnoreCase_NameValueTable:
  "FindValueIgnoreCase (NameValueTable pairs) n = map_of (rev (map (\<lambda>(n, v). (map tolower n, v)) pairs)) (map tolower n)"
  unfolding FindValueIgnoreCase_def NameValueTable_def
  by (simp add: foldl_assign [where f = "\<lambda>n v. map tolower n" and g = "\<lambda>n v. v", simplified] split: option.split)

lemma FindName_NameValueTable:
  "FindName (NameValueTable pairs) v = map_of (rev (map (\<lambda>(n, v). (v, n)) pairs)) v"
  unfolding FindName_def NameValueTable_def
  by (simp add: foldl_assign [where f = "\<lambda>n v. v" and g = "\<lambda>n v. n", simplified] split: option.split)

text \<open>A table in which no two names agree up to case and no two values agree.\<close>

definition table_ok :: "(string \<times> 'v) list \<Rightarrow> bool" where
  "table_ok pairs \<longleftrightarrow> distinct (map (\<lambda>p. map tolower (fst p)) pairs) \<and> distinct (map snd pairs)"

lemma table_find:
  assumes "table_ok pairs"
  shows "FindValueIgnoreCase (NameValueTable pairs) n = Some v \<longleftrightarrow> (\<exists>m. (m, v) \<in> set pairs \<and> map tolower m = map tolower n)"
    "FindName (NameValueTable pairs) v = Some n \<longleftrightarrow> (n, v) \<in> set pairs"
proof -
  have d: "distinct (map fst (rev (map (\<lambda>(n, v). (map tolower n, v)) pairs)))"
    "distinct (map fst (rev (map (\<lambda>(n, v). (v, n)) pairs)))"
    using assms by (simp_all add: table_ok_def o_def case_prod_unfold flip: rev_map)
  show "FindValueIgnoreCase (NameValueTable pairs) n = Some v \<longleftrightarrow> (\<exists>m. (m, v) \<in> set pairs \<and> map tolower m = map tolower n)"
    unfolding FindValueIgnoreCase_NameValueTable map_of_eq_Some_iff [OF d(1)] by force
  show "FindName (NameValueTable pairs) v = Some n \<longleftrightarrow> (n, v) \<in> set pairs"
    unfolding FindName_NameValueTable map_of_eq_Some_iff [OF d(2)] by force
qed

text \<open>In such a table the name of a value leads back to the value, in whatever case it is written.\<close>

lemma name_leads_back:
  assumes "table_ok pairs" "FindName (NameValueTable pairs) v = Some n" "map tolower m = map tolower n"
  shows "FindValueIgnoreCase (NameValueTable pairs) m = Some v"
  using assms table_find by metis

end
