(* ===== verification/InputTables.thy ===== *)
theory InputTables
  imports NameTable
begin

text \<open>
  The enumerations of \<open>Blam/BlamInput.hpp\<close> and the name tables at the end of
  \<open>Modules/ModuleInput.cpp\<close>. A key code is a 16-bit word and a button an 8-bit word, because the game
  writes raw values into the same arrays; \<open>0xFF\<close> is the code of an unset binding. An action is used as an
  array index only, so it is a natural number.
\<close>

subsection \<open>Codes\<close>

type_synonym ControllerButton = u8
type_synonym MouseButton = u8
type_synonym KeyCode = u16
type_synonym GameAction = nat

abbreviation (input) eControllerButtonLeftTrigger :: ControllerButton where "eControllerButtonLeftTrigger \<equiv> 0"
abbreviation (input) eControllerButtonRightTrigger :: ControllerButton where "eControllerButtonRightTrigger \<equiv> 1"
abbreviation (input) eControllerButtonDpadUp :: ControllerButton where "eControllerButtonDpadUp \<equiv> 2"
abbreviation (input) eControllerButtonDpadDown :: ControllerButton where "eControllerButtonDpadDown \<equiv> 3"
abbreviation (input) eControllerButtonDpadLeft :: ControllerButton where "eControllerButtonDpadLeft \<equiv> 4"
abbreviation (input) eControllerButtonDpadRight :: ControllerButton where "eControllerButtonDpadRight \<equiv> 5"
abbreviation (input) eControllerButtonStart :: ControllerButton where "eControllerButtonStart \<equiv> 6"
abbreviation (input) eControllerButtonSelect :: ControllerButton where "eControllerButtonSelect \<equiv> 7"
abbreviation (input) eControllerButtonLeftStick :: ControllerButton where "eControllerButtonLeftStick \<equiv> 8"
abbreviation (input) eControllerButtonRightStick :: ControllerButton where "eControllerButtonRightStick \<equiv> 9"
abbreviation (input) eControllerButtonA :: ControllerButton where "eControllerButtonA \<equiv> 10"
abbreviation (input) eControllerButtonB :: ControllerButton where "eControllerButtonB \<equiv> 11"
abbreviation (input) eControllerButtonX :: ControllerButton where "eControllerButtonX \<equiv> 12"
abbreviation (input) eControllerButtonY :: ControllerButton where "eControllerButtonY \<equiv> 13"
abbreviation (input) eControllerButtonLeftBumper :: ControllerButton where "eControllerButtonLeftBumper \<equiv> 14"
abbreviation (input) eControllerButtonRightBumper :: ControllerButton where "eControllerButtonRightBumper \<equiv> 15"

abbreviation (input) eControllerButton_Count :: ControllerButton where "eControllerButton_Count \<equiv> 16"
abbreviation (input) eControllerButton_None :: ControllerButton where "eControllerButton_None \<equiv> 255"

abbreviation (input) eKeyCodeEscape :: KeyCode where "eKeyCodeEscape \<equiv> 0"
abbreviation (input) eKeyCodeF1 :: KeyCode where "eKeyCodeF1 \<equiv> 1"
abbreviation (input) eKeyCodeF2 :: KeyCode where "eKeyCodeF2 \<equiv> 2"
abbreviation (input) eKeyCodeF3 :: KeyCode where "eKeyCodeF3 \<equiv> 3"
abbreviation (input) eKeyCodeF4 :: KeyCode where "eKeyCodeF4 \<equiv> 4"
abbreviation (input) eKeyCodeF5 :: KeyCode where "eKeyCodeF5 \<equiv> 5"
abbreviation (input) eKeyCodeF6 :: KeyCode where "eKeyCodeF6 \<equiv> 6"
abbreviation (input) eKeyCodeF7 :: KeyCode where "eKeyCodeF7 \<equiv> 7"
abbreviation (input) eKeyCodeF8 :: KeyCode where "eKeyCodeF8 \<equiv> 8"
abbreviation (input) eKeyCodeF9 :: KeyCode where "eKeyCodeF9 \<equiv> 9"
abbreviation (input) eKeyCodeF10 :: KeyCode where "eKeyCodeF10 \<equiv> 10"
abbreviation (input) eKeyCodeF11 :: KeyCode where "eKeyCodeF11 \<equiv> 11"
abbreviation (input) eKeyCodeF12 :: KeyCode where "eKeyCodeF12 \<equiv> 12"
abbreviation (input) eKeyCodePrintScreen :: KeyCode where "eKeyCodePrintScreen \<equiv> 13"
abbreviation (input) eKeyCodeF14 :: KeyCode where "eKeyCodeF14 \<equiv> 14"
abbreviation (input) eKeyCodeF15 :: KeyCode where "eKeyCodeF15 \<equiv> 15"
abbreviation (input) eKeyCodeTilde :: KeyCode where "eKeyCodeTilde \<equiv> 16"
abbreviation (input) eKeyCode1 :: KeyCode where "eKeyCode1 \<equiv> 17"
abbreviation (input) eKeyCode2 :: KeyCode where "eKeyCode2 \<equiv> 18"
abbreviation (input) eKeyCode3 :: KeyCode where "eKeyCode3 \<equiv> 19"
abbreviation (input) eKeyCode4 :: KeyCode where "eKeyCode4 \<equiv> 20"
abbreviation (input) eKeyCode5 :: KeyCode where "eKeyCode5 \<equiv> 21"
abbreviation (input) eKeyCode6 :: KeyCode where "eKeyCode6 \<equiv> 22"
abbreviation (input) eKeyCode7 :: KeyCode where "eKeyCode7 \<equiv> 23"
abbreviation (input) eKeyCode8 :: KeyCode where "eKeyCode8 \<equiv> 24"
abbreviation (input) eKeyCode9 :: KeyCode where "eKeyCode9 \<equiv> 25"
abbreviation (input) eKeyCode0 :: KeyCode where "eKeyCode0 \<equiv> 26"
abbreviation (input) eKeyCodeMinus :: KeyCode where "eKeyCodeMinus \<equiv> 27"
abbreviation (input) eKeyCodePlus :: KeyCode where "eKeyCodePlus \<equiv> 28"
abbreviation (input) eKeyCodeBack :: KeyCode where "eKeyCodeBack \<equiv> 29"
abbreviation (input) eKeyCodeTab :: KeyCode where "eKeyCodeTab \<equiv> 30"
abbreviation (input) eKeyCodeQ :: KeyCode where "eKeyCodeQ \<equiv> 31"
abbreviation (input) eKeyCodeW :: KeyCode where "eKeyCodeW \<equiv> 32"
abbreviation (input) eKeyCodeE :: KeyCode where "eKeyCodeE \<equiv> 33"
abbreviation (input) eKeyCodeR :: KeyCode where "eKeyCodeR \<equiv> 34"
abbreviation (input) eKeyCodeT :: KeyCode where "eKeyCodeT \<equiv> 35"
abbreviation (input) eKeyCodeY :: KeyCode where "eKeyCodeY \<equiv> 36"
abbreviation (input) eKeyCodeU :: KeyCode where "eKeyCodeU \<equiv> 37"
abbreviation (input) eKeyCodeI :: KeyCode where "eKeyCodeI \<equiv> 38"
abbreviation (input) eKeyCodeO :: KeyCode where "eKeyCodeO \<equiv> 39"
abbreviation (input) eKeyCodeP :: KeyCode where "eKeyCodeP \<equiv> 40"
abbreviation (input) eKeyCodeLBracket :: KeyCode where "eKeyCodeLBracket \<equiv> 41"
abbreviation (input) eKeyCodeRBracket :: KeyCode where "eKeyCodeRBracket \<equiv> 42"
abbreviation (input) eKeyCodePipe :: KeyCode where "eKeyCodePipe \<equiv> 43"
abbreviation (input) eKeyCodeCapital :: KeyCode where "eKeyCodeCapital \<equiv> 44"
abbreviation (input) eKeyCodeA :: KeyCode where "eKeyCodeA \<equiv> 45"
abbreviation (input) eKeyCodeS :: KeyCode where "eKeyCodeS \<equiv> 46"
abbreviation (input) eKeyCodeD :: KeyCode where "eKeyCodeD \<equiv> 47"
abbreviation (input) eKeyCodeF :: KeyCode where "eKeyCodeF \<equiv> 48"
abbreviation (input) eKeyCodeG :: KeyCode where "eKeyCodeG \<equiv> 49"
abbreviation (input) eKeyCodeH :: KeyCode where "eKeyCodeH \<equiv> 50"
abbreviation (input) eKeyCodeJ :: KeyCode where "eKeyCodeJ \<equiv> 51"
abbreviation (input) eKeyCodeK :: KeyCode where "eKeyCodeK \<equiv> 52"
abbreviation (input) eKeyCodeL :: KeyCode where "eKeyCodeL \<equiv> 53"
abbreviation (input) eKeyCodeColon :: KeyCode where "eKeyCodeColon \<equiv> 54"
abbreviation (input) eKeyCodeQuote :: KeyCode where "eKeyCodeQuote \<equiv> 55"
abbreviation (input) eKeyCodeEnter :: KeyCode where "eKeyCodeEnter \<equiv> 56"
abbreviation (input) eKeyCodeLShift :: KeyCode where "eKeyCodeLShift \<equiv> 57"
abbreviation (input) eKeyCodeZ :: KeyCode where "eKeyCodeZ \<equiv> 58"
abbreviation (input) eKeyCodeX :: KeyCode where "eKeyCodeX \<equiv> 59"
abbreviation (input) eKeyCodeC :: KeyCode where "eKeyCodeC \<equiv> 60"
abbreviation (input) eKeyCodeV :: KeyCode where "eKeyCodeV \<equiv> 61"
abbreviation (input) eKeyCodeB :: KeyCode where "eKeyCodeB \<equiv> 62"
abbreviation (input) eKeyCodeN :: KeyCode where "eKeyCodeN \<equiv> 63"
abbreviation (input) eKeyCodeM :: KeyCode where "eKeyCodeM \<equiv> 64"
abbreviation (input) eKeyCodeComma :: KeyCode where "eKeyCodeComma \<equiv> 65"
abbreviation (input) eKeyCodePeriod :: KeyCode where "eKeyCodePeriod \<equiv> 66"
abbreviation (input) eKeyCodeQuestion :: KeyCode where "eKeyCodeQuestion \<equiv> 67"
abbreviation (input) eKeyCodeRShift :: KeyCode where "eKeyCodeRShift \<equiv> 68"
abbreviation (input) eKeyCodeLControl :: KeyCode where "eKeyCodeLControl \<equiv> 69"
abbreviation (input) eKeyCodeUnused46 :: KeyCode where "eKeyCodeUnused46 \<equiv> 70"
abbreviation (input) eKeyCodeLAlt :: KeyCode where "eKeyCodeLAlt \<equiv> 71"
abbreviation (input) eKeyCodeSpace :: KeyCode where "eKeyCodeSpace \<equiv> 72"
abbreviation (input) eKeyCodeRAlt :: KeyCode where "eKeyCodeRAlt \<equiv> 73"
abbreviation (input) eKeyCodeUnused4A :: KeyCode where "eKeyCodeUnused4A \<equiv> 74"
abbreviation (input) eKeyCodeApps :: KeyCode where "eKeyCodeApps \<equiv> 75"
abbreviation (input) eKeyCodeRcontrol :: KeyCode where "eKeyCodeRcontrol \<equiv> 76"
abbreviation (input) eKeyCodeUp :: KeyCode where "eKeyCodeUp \<equiv> 77"
abbreviation (input) eKeyCodeDown :: KeyCode where "eKeyCodeDown \<equiv> 78"
abbreviation (input) eKeyCodeLeft :: KeyCode where "eKeyCodeLeft \<equiv> 79"
abbreviation (input) eKeyCodeRight :: KeyCode where "eKeyCodeRight \<equiv> 80"
abbreviation (input) eKeyCodeInsert :: KeyCode where "eKeyCodeInsert \<equiv> 81"
abbreviation (input) eKeyCodeHome :: KeyCode where "eKeyCodeHome \<equiv> 82"
abbreviation (input) eKeyCodePageUp :: KeyCode where "eKeyCodePageUp \<equiv> 83"
abbreviation (input) eKeyCodeDelete :: KeyCode where "eKeyCodeDelete \<equiv> 84"
abbreviation (input) eKeyCodeEnd :: KeyCode where "eKeyCodeEnd \<equiv> 85"
abbreviation (input) eKeyCodePageDown :: KeyCode where "eKeyCodePageDown \<equiv> 86"
abbreviation (input) eKeyCodeNumLock :: KeyCode where "eKeyCodeNumLock \<equiv> 87"
abbreviation (input) eKeyCodeDivide :: KeyCode where "eKeyCodeDivide \<equiv> 88"
abbreviation (input) eKeyCodeMultiply :: KeyCode where "eKeyCodeMultiply \<equiv> 89"
abbreviation (input) eKeyCodeNumpad0 :: KeyCode where "eKeyCodeNumpad0 \<equiv> 90"
abbreviation (input) eKeyCodeNumpad1 :: KeyCode where "eKeyCodeNumpad1 \<equiv> 91"
abbreviation (input) eKeyCodeNumpad2 :: KeyCode where "eKeyCodeNumpad2 \<equiv> 92"
abbreviation (input) eKeyCodeNumpad3 :: KeyCode where "eKeyCodeNumpad3 \<equiv> 93"
abbreviation (input) eKeyCodeNumpad4 :: KeyCode where "eKeyCodeNumpad4 \<equiv> 94"
abbreviation (input) eKeyCodeNumpad5 :: KeyCode where "eKeyCodeNumpad5 \<equiv> 95"
abbreviation (input) eKeyCodeNumpad6 :: KeyCode where "eKeyCodeNumpad6 \<equiv> 96"
abbreviation (input) eKeyCodeNumpad7 :: KeyCode where "eKeyCodeNumpad7 \<equiv> 97"
abbreviation (input) eKeyCodeNumpad8 :: KeyCode where "eKeyCodeNumpad8 \<equiv> 98"
abbreviation (input) eKeyCodeNumpad9 :: KeyCode where "eKeyCodeNumpad9 \<equiv> 99"
abbreviation (input) eKeyCodeSubtract :: KeyCode where "eKeyCodeSubtract \<equiv> 100"
abbreviation (input) eKeyCodeAdd :: KeyCode where "eKeyCodeAdd \<equiv> 101"
abbreviation (input) eKeyCodeNumpadEnter :: KeyCode where "eKeyCodeNumpadEnter \<equiv> 102"
abbreviation (input) eKeyCodeDecimal :: KeyCode where "eKeyCodeDecimal \<equiv> 103"
abbreviation (input) eKeyCodeUnused68 :: KeyCode where "eKeyCodeUnused68 \<equiv> 104"
abbreviation (input) eKeyCodeShift :: KeyCode where "eKeyCodeShift \<equiv> 105"
abbreviation (input) eKeyCodeCtrl :: KeyCode where "eKeyCodeCtrl \<equiv> 106"
abbreviation (input) eKeyCodeUnused6B :: KeyCode where "eKeyCodeUnused6B \<equiv> 107"
abbreviation (input) eKeyCodeAlt :: KeyCode where "eKeyCodeAlt \<equiv> 108"

abbreviation (input) eKeyCode_Count :: KeyCode where "eKeyCode_Count \<equiv> 109"
abbreviation (input) eKeyCode_None :: KeyCode where "eKeyCode_None \<equiv> 255"

abbreviation (input) eMouseButtonLeft :: MouseButton where "eMouseButtonLeft \<equiv> 0"
abbreviation (input) eMouseButtonMiddle :: MouseButton where "eMouseButtonMiddle \<equiv> 1"
abbreviation (input) eMouseButtonRight :: MouseButton where "eMouseButtonRight \<equiv> 2"
abbreviation (input) eMouseButton4 :: MouseButton where "eMouseButton4 \<equiv> 3"
abbreviation (input) eMouseButton5 :: MouseButton where "eMouseButton5 \<equiv> 4"
abbreviation (input) eMouseButtonUnk5 :: MouseButton where "eMouseButtonUnk5 \<equiv> 5"
abbreviation (input) eMouseButtonUnk6 :: MouseButton where "eMouseButtonUnk6 \<equiv> 6"
abbreviation (input) eMouseButtonUnk7 :: MouseButton where "eMouseButtonUnk7 \<equiv> 7"
abbreviation (input) eMouseButtonWheelUp :: MouseButton where "eMouseButtonWheelUp \<equiv> 8"
abbreviation (input) eMouseButtonWheelDown :: MouseButton where "eMouseButtonWheelDown \<equiv> 9"

abbreviation (input) eMouseButton_Count :: MouseButton where "eMouseButton_Count \<equiv> 10"
abbreviation (input) eMouseButton_None :: MouseButton where "eMouseButton_None \<equiv> 255"

abbreviation (input) eGameActionUiLeftTrigger :: GameAction where "eGameActionUiLeftTrigger \<equiv> 0"
abbreviation (input) eGameActionUiRightTrigger :: GameAction where "eGameActionUiRightTrigger \<equiv> 1"
abbreviation (input) eGameActionUiUp :: GameAction where "eGameActionUiUp \<equiv> 2"
abbreviation (input) eGameActionUiDown :: GameAction where "eGameActionUiDown \<equiv> 3"
abbreviation (input) eGameActionUiLeft :: GameAction where "eGameActionUiLeft \<equiv> 4"
abbreviation (input) eGameActionUiRight :: GameAction where "eGameActionUiRight \<equiv> 5"
abbreviation (input) eGameActionUiStart :: GameAction where "eGameActionUiStart \<equiv> 6"
abbreviation (input) eGameActionUiSelect :: GameAction where "eGameActionUiSelect \<equiv> 7"
abbreviation (input) eGameActionUiLeftStick :: GameAction where "eGameActionUiLeftStick \<equiv> 8"
abbreviation (input) eGameActionUiRightStick :: GameAction where "eGameActionUiRightStick \<equiv> 9"
abbreviation (input) eGameActionUiA :: GameAction where "eGameActionUiA \<equiv> 10"
abbreviation (input) eGameActionUiB :: GameAction where "eGameActionUiB \<equiv> 11"
abbreviation (input) eGameActionUiX :: GameAction where "eGameActionUiX \<equiv> 12"
abbreviation (input) eGameActionUiY :: GameAction where "eGameActionUiY \<equiv> 13"
abbreviation (input) eGameActionUiLeftBumper :: GameAction where "eGameActionUiLeftBumper \<equiv> 14"
abbreviation (input) eGameActionUiRightBumper :: GameAction where "eGameActionUiRightBumper \<equiv> 15"
abbreviation (input) eGameActionJump :: GameAction where "eGameActionJump \<equiv> 16"
abbreviation (input) eGameActionSwitchGrenades :: GameAction where "eGameActionSwitchGrenades \<equiv> 17"
abbreviation (input) eGameActionSwitchWeapons :: GameAction where "eGameActionSwitchWeapons \<equiv> 18"
abbreviation (input) eGameActionUnk19 :: GameAction where "eGameActionUnk19 \<equiv> 19"
abbreviation (input) eGameActionReloadRight :: GameAction where "eGameActionReloadRight \<equiv> 20"
abbreviation (input) eGameActionUse :: GameAction where "eGameActionUse \<equiv> 21"
abbreviation (input) eGameActionReloadLeft :: GameAction where "eGameActionReloadLeft \<equiv> 22"
abbreviation (input) eGameActionPickUpLeft :: GameAction where "eGameActionPickUpLeft \<equiv> 23"
abbreviation (input) eGameActionMelee :: GameAction where "eGameActionMelee \<equiv> 24"
abbreviation (input) eGameActionThrowGrenade :: GameAction where "eGameActionThrowGrenade \<equiv> 25"
abbreviation (input) eGameActionFireRight :: GameAction where "eGameActionFireRight \<equiv> 26"
abbreviation (input) eGameActionFireLeft :: GameAction where "eGameActionFireLeft \<equiv> 27"
abbreviation (input) eGameActionMeleeFire :: GameAction where "eGameActionMeleeFire \<equiv> 28"
abbreviation (input) eGameActionCrouch :: GameAction where "eGameActionCrouch \<equiv> 29"
abbreviation (input) eGameActionZoom :: GameAction where "eGameActionZoom \<equiv> 30"
abbreviation (input) eGameActionUnk31 :: GameAction where "eGameActionUnk31 \<equiv> 31"
abbreviation (input) eGameActionUnk32 :: GameAction where "eGameActionUnk32 \<equiv> 32"
abbreviation (input) eGameActionSprint :: GameAction where "eGameActionSprint \<equiv> 33"
abbreviation (input) eGameActionUnk34 :: GameAction where "eGameActionUnk34 \<equiv> 34"
abbreviation (input) eGameActionUnk35 :: GameAction where "eGameActionUnk35 \<equiv> 35"
abbreviation (input) eGameActionUnk36 :: GameAction where "eGameActionUnk36 \<equiv> 36"
abbreviation (input) eGameActionUnk37 :: GameAction where "eGameActionUnk37 \<equiv> 37"
abbreviation (input) eGameActionUnk38 :: GameAction where "eGameActionUnk38 \<equiv> 38"
abbreviation (input) eGameActionGeneralChat :: GameAction where "eGameActionGeneralChat \<equiv> 39"
abbreviation (input) eGameActionTeamChat :: GameAction where "eGameActionTeamChat \<equiv> 40"
abbreviation (input) eGameActionUnk41 :: GameAction where "eGameActionUnk41 \<equiv> 41"
abbreviation (input) eGameActionUnk42 :: GameAction where "eGameActionUnk42 \<equiv> 42"
abbreviation (input) eGameActionUnk43 :: GameAction where "eGameActionUnk43 \<equiv> 43"
abbreviation (input) eGameActionUseConsumable1 :: GameAction where "eGameActionUseConsumable1 \<equiv> 44"
abbreviation (input) eGameActionUseConsumable2 :: GameAction where "eGameActionUseConsumable2 \<equiv> 45"
abbreviation (input) eGameActionUseConsumable3 :: GameAction where "eGameActionUseConsumable3 \<equiv> 46"
abbreviation (input) eGameActionUseConsumable4 :: GameAction where "eGameActionUseConsumable4 \<equiv> 47"
abbreviation (input) eGameActionVehicleBoost :: GameAction where "eGameActionVehicleBoost \<equiv> 48"
abbreviation (input) eGameActionVehicleDive :: GameAction where "eGameActionVehicleDive \<equiv> 49"
abbreviation (input) eGameActionVehicleRaise :: GameAction where "eGameActionVehicleRaise \<equiv> 50"
abbreviation (input) eGameActionVehicleAccelerate :: GameAction where "eGameActionVehicleAccelerate \<equiv> 51"
abbreviation (input) eGameActionVehicleBrake :: GameAction where "eGameActionVehicleBrake \<equiv> 52"
abbreviation (input) eGameActionVehicleFire :: GameAction where "eGameActionVehicleFire \<equiv> 53"
abbreviation (input) eGameActionVehicleAltFire :: GameAction where "eGameActionVehicleAltFire \<equiv> 54"
abbreviation (input) eGameActionVehicleExit :: GameAction where "eGameActionVehicleExit \<equiv> 55"
abbreviation (input) eGameActionUnk56 :: GameAction where "eGameActionUnk56 \<equiv> 56"
abbreviation (input) eGameActionUnk57 :: GameAction where "eGameActionUnk57 \<equiv> 57"
abbreviation (input) eGameActionUnk58 :: GameAction where "eGameActionUnk58 \<equiv> 58"
abbreviation (input) eGameActionMoveForward :: GameAction where "eGameActionMoveForward \<equiv> 59"
abbreviation (input) eGameActionMoveBack :: GameAction where "eGameActionMoveBack \<equiv> 60"
abbreviation (input) eGameActionMoveLeft :: GameAction where "eGameActionMoveLeft \<equiv> 61"
abbreviation (input) eGameActionMoveRight :: GameAction where "eGameActionMoveRight \<equiv> 62"

abbreviation (input) eGameAction_ControllerCount :: GameAction where "eGameAction_ControllerCount \<equiv> 59"
abbreviation (input) eGameAction_KeyboardMouseCount :: GameAction where "eGameAction_KeyboardMouseCount \<equiv> 63"

subsection \<open>Names\<close>

definition controllerButtons :: "(string \<times> ControllerButton) list" where
  "controllerButtons =
    [(''LT'', eControllerButtonLeftTrigger), (''RT'', eControllerButtonRightTrigger),
     (''Up'', eControllerButtonDpadUp), (''Down'', eControllerButtonDpadDown),
     (''Left'', eControllerButtonDpadLeft), (''Right'', eControllerButtonDpadRight),
     (''Start'', eControllerButtonStart), (''Select'', eControllerButtonSelect),
     (''LS'', eControllerButtonLeftStick), (''RS'', eControllerButtonRightStick),
     (''A'', eControllerButtonA), (''B'', eControllerButtonB), (''X'', eControllerButtonX),
     (''Y'', eControllerButtonY), (''LB'', eControllerButtonLeftBumper),
     (''RB'', eControllerButtonRightBumper)]"

definition keyCodes :: "(string \<times> KeyCode) list" where
  "keyCodes =
    [(''Escape'', eKeyCodeEscape), (''F1'', eKeyCodeF1), (''F2'', eKeyCodeF2),
     (''F3'', eKeyCodeF3), (''F4'', eKeyCodeF4), (''F5'', eKeyCodeF5), (''F6'', eKeyCodeF6),
     (''F7'', eKeyCodeF7), (''F8'', eKeyCodeF8), (''F9'', eKeyCodeF9), (''F10'', eKeyCodeF10),
     (''F11'', eKeyCodeF11), (''F12'', eKeyCodeF12), (''PrintScreen'', eKeyCodePrintScreen),
     (''F14'', eKeyCodeF14), (''F15'', eKeyCodeF15), (''Tilde'', eKeyCodeTilde),
     (''1'', eKeyCode1), (''2'', eKeyCode2), (''3'', eKeyCode3), (''4'', eKeyCode4),
     (''5'', eKeyCode5), (''6'', eKeyCode6), (''7'', eKeyCode7), (''8'', eKeyCode8),
     (''9'', eKeyCode9), (''0'', eKeyCode0), (''Minus'', eKeyCodeMinus), (''Plus'', eKeyCodePlus),
     (''Back'', eKeyCodeBack), (''Tab'', eKeyCodeTab), (''Q'', eKeyCodeQ), (''W'', eKeyCodeW),
     (''E'', eKeyCodeE), (''R'', eKeyCodeR), (''T'', eKeyCodeT), (''Y'', eKeyCodeY),
     (''U'', eKeyCodeU), (''I'', eKeyCodeI), (''O'', eKeyCodeO), (''P'', eKeyCodeP),
     (''LBracket'', eKeyCodeLBracket), (''RBracket'', eKeyCodeRBracket), (''Pipe'', eKeyCodePipe),
     (''CapsLock'', eKeyCodeCapital), (''A'', eKeyCodeA), (''S'', eKeyCodeS), (''D'', eKeyCodeD),
     (''F'', eKeyCodeF), (''G'', eKeyCodeG), (''H'', eKeyCodeH), (''J'', eKeyCodeJ),
     (''K'', eKeyCodeK), (''L'', eKeyCodeL), (''Colon'', eKeyCodeColon),
     (''Quote'', eKeyCodeQuote), (''Enter'', eKeyCodeEnter), (''LShift'', eKeyCodeLShift),
     (''Z'', eKeyCodeZ), (''X'', eKeyCodeX), (''C'', eKeyCodeC), (''V'', eKeyCodeV),
     (''B'', eKeyCodeB), (''N'', eKeyCodeN), (''M'', eKeyCodeM), (''Comma'', eKeyCodeComma),
     (''Period'', eKeyCodePeriod), (''Question'', eKeyCodeQuestion), (''RShift'', eKeyCodeRShift),
     (''LControl'', eKeyCodeLControl), (''LAlt'', eKeyCodeLAlt), (''Space'', eKeyCodeSpace),
     (''RAlt'', eKeyCodeRAlt), (''Apps'', eKeyCodeApps), (''RControl'', eKeyCodeRcontrol),
     (''Up'', eKeyCodeUp), (''Down'', eKeyCodeDown), (''Left'', eKeyCodeLeft),
     (''Right'', eKeyCodeRight), (''Insert'', eKeyCodeInsert), (''Home'', eKeyCodeHome),
     (''PageUp'', eKeyCodePageUp), (''Delete'', eKeyCodeDelete), (''End'', eKeyCodeEnd),
     (''PageDown'', eKeyCodePageDown), (''NumLock'', eKeyCodeNumLock),
     (''Divide'', eKeyCodeDivide), (''Multiply'', eKeyCodeMultiply),
     (''Numpad0'', eKeyCodeNumpad0), (''Numpad1'', eKeyCodeNumpad1),
     (''Numpad2'', eKeyCodeNumpad2), (''Numpad3'', eKeyCodeNumpad3),
     (''Numpad4'', eKeyCodeNumpad4), (''Numpad5'', eKeyCodeNumpad5),
     (''Numpad6'', eKeyCodeNumpad6), (''Numpad7'', eKeyCodeNumpad7),
     (''Numpad8'', eKeyCodeNumpad8), (''Numpad9'', eKeyCodeNumpad9),
     (''Subtract'', eKeyCodeSubtract), (''Add'', eKeyCodeAdd),
     (''NumpadEnter'', eKeyCodeNumpadEnter), (''Decimal'', eKeyCodeDecimal),
     (''Shift'', eKeyCodeShift), (''Ctrl'', eKeyCodeCtrl), (''Alt'', eKeyCodeAlt)]"

definition mouseButtons :: "(string \<times> MouseButton) list" where
  "mouseButtons =
    [(''MouseLeft'', eMouseButtonLeft), (''MouseMiddle'', eMouseButtonMiddle),
     (''MouseRight'', eMouseButtonRight), (''Mouse4'', eMouseButton4), (''Mouse5'', eMouseButton5),
     (''MouseWheelUp'', eMouseButtonWheelUp), (''MouseWheelDown'', eMouseButtonWheelDown)]"

definition gameActions :: "(string \<times> GameAction) list" where
  "gameActions =
    [(''Forward'', eGameActionMoveForward), (''Back'', eGameActionMoveBack),
     (''Left'', eGameActionMoveLeft), (''Right'', eGameActionMoveRight),
     (''Sprint'', eGameActionSprint), (''Jump'', eGameActionJump), (''Crouch'', eGameActionCrouch),
     (''Use'', eGameActionUse), (''DualWield'', eGameActionPickUpLeft),
     (''Fire'', eGameActionFireRight), (''FireLeft'', eGameActionFireLeft),
     (''Reload'', eGameActionReloadRight), (''ReloadLeft'', eGameActionReloadLeft),
     (''Zoom'', eGameActionZoom), (''SwitchWeapons'', eGameActionSwitchWeapons),
     (''Melee'', eGameActionMelee), (''Grenade'', eGameActionThrowGrenade),
     (''SwitchGrenades'', eGameActionSwitchGrenades),
     (''VehicleAccelerate'', eGameActionVehicleAccelerate),
     (''VehicleBrake'', eGameActionVehicleBrake), (''VehicleBoost'', eGameActionVehicleBoost),
     (''VehicleRaise'', eGameActionVehicleRaise), (''VehicleDive'', eGameActionVehicleDive),
     (''VehicleFire'', eGameActionVehicleFire), (''VehicleAltFire'', eGameActionVehicleAltFire),
     (''BansheeBomb'', eGameActionMeleeFire), (''Menu'', eGameActionUiStart),
     (''Scoreboard'', eGameActionUiSelect), (''ForgeDelete'', eGameActionUiY),
     (''Chat'', eGameActionGeneralChat), (''TeamChat'', eGameActionTeamChat)]"

text \<open>No table repeats a name, in any case, or a value.\<close>

lemma tables_ok:
  "table_ok controllerButtons" "table_ok mouseButtons" "table_ok gameActions"
  by code_simp+

text \<open>The key codes are listed in increasing order.\<close>

lemma keyCodes_values: "distinct (map snd keyCodes)"
proof -
  have "successively (<) (map snd keyCodes)"
    by (simp add: keyCodes_def)
  then have "sorted_wrt (<) (map snd keyCodes)"
    by (simp add: successively_conv_sorted_wrt)
  then show ?thesis
    by (simp add: strict_sorted_iff)
qed

lemma keyCodes_lower: "map (\<lambda>p. map tolower (fst p)) keyCodes =
      [''escape'', ''f1'', ''f2'', ''f3'', ''f4'', ''f5'', ''f6'', ''f7'', ''f8'', ''f9'', ''f10'',
       ''f11'', ''f12'', ''printscreen'', ''f14'', ''f15'', ''tilde'', ''1'', ''2'', ''3'', ''4'',
       ''5'', ''6'', ''7'', ''8'', ''9'', ''0'', ''minus'', ''plus'', ''back'', ''tab'', ''q'', ''w'',
       ''e'', ''r'', ''t'', ''y'', ''u'', ''i'', ''o'', ''p'', ''lbracket'', ''rbracket'', ''pipe'',
       ''capslock'', ''a'', ''s'', ''d'', ''f'', ''g'', ''h'', ''j'', ''k'', ''l'', ''colon'',
       ''quote'', ''enter'', ''lshift'', ''z'', ''x'', ''c'', ''v'', ''b'', ''n'', ''m'', ''comma'',
       ''period'', ''question'', ''rshift'', ''lcontrol'', ''lalt'', ''space'', ''ralt'', ''apps'',
       ''rcontrol'', ''up'', ''down'', ''left'', ''right'', ''insert'', ''home'', ''pageup'',
       ''delete'', ''end'', ''pagedown'', ''numlock'', ''divide'', ''multiply'', ''numpad0'',
       ''numpad1'', ''numpad2'', ''numpad3'', ''numpad4'', ''numpad5'', ''numpad6'', ''numpad7'',
       ''numpad8'', ''numpad9'', ''subtract'', ''add'', ''numpadenter'', ''decimal'', ''shift'',
       ''ctrl'', ''alt'']"
  by code_simp

lemma keyCodes_ok: "table_ok keyCodes"
  using keyCodes_values by (simp add: table_ok_def keyCodes_lower)

end
