(* ===== verification/InputBindings.thy ===== *)
theory InputBindings
  imports InputTables CommandMap
begin

text \<open>
  \<open>Modules/ModuleInput.cpp\<close>: the table of in-game bindings and the console commands that change it,
  commands bound to keys, and the text the bindings are saved as. The module's state is the command
  map's with the bindings, the commands of the keys and the table last passed to the engine. How long a
  key has been down is a parameter.
\<close>

subsection \<open>The bindings table\<close>

record BindingsTable =
  ControllerSensitivityX :: f32
  ControllerSensitivityY :: f32
  ControllerButtons :: "ControllerButton list"
  ControllerHoldButtons :: "bool list"
  PrimaryKeys :: "KeyCode list"
  SecondaryKeys :: "KeyCode list"
  PrimaryMouseButtons :: "MouseButton list"
  SecondaryMouseButtons :: "MouseButton list"
  Unknown1F8 :: u32
  Unknown1FC :: u32
  Unknown200 :: f32
  Unknown204 :: f32

definition zero_bindings :: BindingsTable where
  "zero_bindings = \<lparr>ControllerSensitivityX = 0, ControllerSensitivityY = 0,
     ControllerButtons = replicate eGameAction_ControllerCount 0,
     ControllerHoldButtons = replicate eGameAction_ControllerCount False,
     PrimaryKeys = replicate eGameAction_KeyboardMouseCount 0,
     SecondaryKeys = replicate eGameAction_KeyboardMouseCount 0,
     PrimaryMouseButtons = replicate eGameAction_KeyboardMouseCount 0,
     SecondaryMouseButtons = replicate eGameAction_KeyboardMouseCount 0,
     Unknown1F8 = 0, Unknown1FC = 0, Unknown200 = 0, Unknown204 = 0\<rparr>"

definition CopyBinding :: "GameAction \<Rightarrow> GameAction \<Rightarrow> BindingsTable \<Rightarrow> BindingsTable" where
  "CopyBinding src dst b = b
     \<lparr>ControllerButtons := (ControllerButtons b)[dst := ControllerButtons b ! src],
      ControllerHoldButtons := (ControllerHoldButtons b)[dst := ControllerHoldButtons b ! src],
      PrimaryKeys := (PrimaryKeys b)[dst := PrimaryKeys b ! src],
      SecondaryKeys := (SecondaryKeys b)[dst := SecondaryKeys b ! src],
      PrimaryMouseButtons := (PrimaryMouseButtons b)[dst := PrimaryMouseButtons b ! src],
      SecondaryMouseButtons := (SecondaryMouseButtons b)[dst := SecondaryMouseButtons b ! src]\<rparr>"

text \<open>\<open>UpdateBindings\<close>: the table afterwards, which is also the table passed to the engine.\<close>

definition UpdateBindings :: "BindingsTable \<Rightarrow> BindingsTable" where
  "UpdateBindings = CopyBinding eGameActionUse eGameActionVehicleExit"

definition unbind :: "BindingsTable \<Rightarrow> GameAction \<Rightarrow> BindingsTable" where
  "unbind b i = (if i < eGameAction_ControllerCount
       then b\<lparr>ControllerButtons := (ControllerButtons b)[i := eControllerButton_None]\<rparr> else b)
     \<lparr>PrimaryKeys := (PrimaryKeys b)[i := eKeyCode_None],
      SecondaryKeys := (SecondaryKeys b)[i := eKeyCode_None],
      PrimaryMouseButtons := (PrimaryMouseButtons b)[i := eMouseButton_None],
      SecondaryMouseButtons := (SecondaryMouseButtons b)[i := eMouseButton_None]\<rparr>"

text \<open>The assignments of \<open>LoadDefaultBindings\<close>, array by array.\<close>

definition assign_all :: "(nat \<times> 'a) list \<Rightarrow> 'a list \<Rightarrow> 'a list" where
  "assign_all ivs xs = foldl (\<lambda>xs (i, v). xs[i := v]) xs ivs"

definition default_controller :: "(GameAction \<times> ControllerButton) list" where
  "default_controller =
    [(eGameActionJump, eControllerButtonA), (eGameActionSwitchGrenades, eControllerButtonDpadRight),
     (eGameActionSwitchWeapons, eControllerButtonY), (eGameActionUnk19, eControllerButtonY),
     (eGameActionReloadRight, eControllerButtonRightBumper),
     (eGameActionUse, eControllerButtonRightBumper),
     (eGameActionReloadLeft, eControllerButtonLeftBumper),
     (eGameActionPickUpLeft, eControllerButtonLeftBumper), (eGameActionMelee, eControllerButtonB),
     (eGameActionThrowGrenade, eControllerButtonLeftTrigger),
     (eGameActionFireRight, eControllerButtonRightTrigger),
     (eGameActionFireLeft, eControllerButtonLeftTrigger), (eGameActionCrouch, eControllerButtonX),
     (eGameActionZoom, eControllerButtonRightStick), (eGameActionUnk31, eControllerButtonDpadLeft),
     (eGameActionUnk32, eControllerButtonDpadRight), (eGameActionSprint, eControllerButtonLeftStick),
     (eGameActionUnk34, eControllerButtonX), (eGameActionUnk35, eControllerButtonDpadDown),
     (eGameActionUnk36, eControllerButtonDpadUp), (eGameActionUnk37, eControllerButtonDpadLeft),
     (eGameActionUnk38, eControllerButtonDpadRight), (eGameActionUnk41, eControllerButtonDpadUp),
     (eGameActionUnk42, eControllerButtonA), (eGameActionVehicleBoost, eControllerButtonLeftTrigger),
     (eGameActionVehicleDive, eControllerButtonX), (eGameActionVehicleRaise, eControllerButtonA),
     (eGameActionVehicleFire, eControllerButtonRightTrigger),
     (eGameActionVehicleAltFire, eControllerButtonLeftTrigger),
     (eGameActionMeleeFire, eControllerButtonB), (eGameActionUnk56, eControllerButtonDpadDown),
     (eGameActionUnk57, eControllerButtonDpadUp), (eGameActionUnk58, eControllerButtonA),
     (eGameActionUseConsumable1, eControllerButtonLeftBumper)]"

definition default_hold :: "(GameAction \<times> bool) list" where
  "default_hold =
    [(eGameActionUnk19, True), (eGameActionUse, True), (eGameActionPickUpLeft, True)]"

definition default_primary_keys :: "(GameAction \<times> KeyCode) list" where
  "default_primary_keys =
    [(eGameActionUiUp, eKeyCodeUp), (eGameActionUiDown, eKeyCodeDown),
     (eGameActionUiLeft, eKeyCodeLeft), (eGameActionUiRight, eKeyCodeRight),
     (eGameActionUiStart, eKeyCodeEscape), (eGameActionUiSelect, eKeyCodeTab),
     (eGameActionUiA, eKeyCodeEnter), (eGameActionUiB, eKeyCodeEscape), (eGameActionUiX, eKeyCodeX),
     (eGameActionUiY, eKeyCodeDelete), (eGameActionUiLeftBumper, eKeyCodeQ),
     (eGameActionUiRightBumper, eKeyCodeE), (eGameActionJump, eKeyCodeSpace),
     (eGameActionSwitchGrenades, eKeyCodeG), (eGameActionReloadRight, eKeyCodeR),
     (eGameActionUse, eKeyCodeE), (eGameActionReloadLeft, eKeyCodeZ),
     (eGameActionPickUpLeft, eKeyCodeZ), (eGameActionMelee, eKeyCodeQ),
     (eGameActionThrowGrenade, eKeyCodeF), (eGameActionCrouch, eKeyCodeLControl),
     (eGameActionSprint, eKeyCodeLShift), (eGameActionGeneralChat, eKeyCodeT),
     (eGameActionTeamChat, eKeyCodeY), (eGameActionUnk41, eKeyCodeCapital),
     (eGameActionUnk42, eKeyCodeSpace), (eGameActionVehicleBoost, eKeyCodeLShift),
     (eGameActionVehicleDive, eKeyCodeLControl), (eGameActionVehicleRaise, eKeyCodeSpace),
     (eGameActionVehicleAccelerate, eKeyCodeW), (eGameActionVehicleBrake, eKeyCodeS),
     (eGameActionMeleeFire, eKeyCodeQ), (eGameActionUnk56, eKeyCodeD), (eGameActionUnk57, eKeyCodeA),
     (eGameActionUnk58, eKeyCodeSpace), (eGameActionMoveForward, eKeyCodeW),
     (eGameActionMoveBack, eKeyCodeS), (eGameActionMoveLeft, eKeyCodeA),
     (eGameActionMoveRight, eKeyCodeD)]"

definition default_secondary_keys :: "(GameAction \<times> KeyCode) list" where
  "default_secondary_keys =
    [(eGameActionUiA, eKeyCodeSpace), (eGameActionUiB, eKeyCodeBack), (eGameActionMelee, eKeyCodeV),
     (eGameActionVehicleAccelerate, eKeyCodeUp), (eGameActionVehicleBrake, eKeyCodeDown),
     (eGameActionMeleeFire, eKeyCodeV), (eGameActionMoveForward, eKeyCodeUp),
     (eGameActionMoveBack, eKeyCodeDown), (eGameActionMoveLeft, eKeyCodeLeft),
     (eGameActionMoveRight, eKeyCodeRight), (eGameActionUseConsumable1, eKeyCode1)]"

definition default_primary_mouse :: "(GameAction \<times> MouseButton) list" where
  "default_primary_mouse =
    [(eGameActionSwitchWeapons, eMouseButtonWheelUp), (eGameActionFireRight, eMouseButtonLeft),
     (eGameActionFireLeft, eMouseButtonRight), (eGameActionZoom, eMouseButtonRight),
     (eGameActionVehicleFire, eMouseButtonLeft), (eGameActionVehicleAltFire, eMouseButtonRight)]"

definition default_secondary_mouse :: "(GameAction \<times> MouseButton) list" where
  "default_secondary_mouse =
    [(eGameActionSwitchWeapons, eMouseButtonWheelDown), (eGameActionThrowGrenade, eMouseButtonMiddle),
     (eGameActionVehicleDive, eMouseButtonWheelDown), (eGameActionVehicleRaise, eMouseButtonWheelUp)]"

definition LoadDefaultBindings :: BindingsTable where
  "LoadDefaultBindings =
     (let b = zero_bindings\<lparr>ControllerSensitivityX := 0x42F00000, ControllerSensitivityY := 0x42700000,
                Unknown200 := 0x3F4CCCCD, Unknown204 := 0x3F800000\<rparr>;
          b = foldl unbind b [0..<eGameAction_KeyboardMouseCount];
          b = b\<lparr>ControllerButtons :=
                foldl (\<lambda>bs i. bs[i := of_nat i]) (ControllerButtons b) [0..<unat eControllerButton_Count]\<rparr> in
      UpdateBindings (b
        \<lparr>ControllerButtons := assign_all default_controller (ControllerButtons b),
         ControllerHoldButtons := assign_all default_hold (ControllerHoldButtons b),
         PrimaryKeys := assign_all default_primary_keys (PrimaryKeys b),
         SecondaryKeys := assign_all default_secondary_keys (SecondaryKeys b),
         PrimaryMouseButtons := assign_all default_primary_mouse (PrimaryMouseButtons b),
         SecondaryMouseButtons := assign_all default_secondary_mouse (SecondaryMouseButtons b)\<rparr>))"

text \<open>A write outside an array is undefined.\<close>

definition write_at :: "nat \<Rightarrow> 'a \<Rightarrow> 'a list \<Rightarrow> 'a list res" where
  "write_at i v xs = (if i < length xs then Inr (xs[i := v]) else Inl Undefined)"

subsection \<open>The settings menu\<close>

record ConfigurableAction =
  ConfigName :: string
  DefaultPrimaryKey :: int
  DefaultSecondaryKey :: int
  ConfigAction :: GameAction

definition GetDefaultSettingsKey :: "GameAction \<Rightarrow> KeyCode list \<Rightarrow> MouseButton list \<Rightarrow> int" where
  "GetDefaultSettingsKey action keys mouse =
     (let primaryKey = keys ! action; mouseButton = mouse ! action in
      if primaryKey \<noteq> eKeyCode_None then uint primaryKey
      else if mouseButton \<noteq> eMouseButton_None then (uint mouseButton + 1) * 0x100
      else -1)"

definition PopulateDefaultKeys :: "BindingsTable \<Rightarrow> ConfigurableAction list \<Rightarrow> ConfigurableAction list" where
  "PopulateDefaultKeys b actions = map (\<lambda>c. c
     \<lparr>DefaultPrimaryKey := GetDefaultSettingsKey (ConfigAction c) (PrimaryKeys b) (PrimaryMouseButtons b),
      DefaultSecondaryKey := GetDefaultSettingsKey (ConfigAction c) (SecondaryKeys b) (SecondaryMouseButtons b)\<rparr>) actions"

definition settings_entry :: "string \<times> GameAction \<Rightarrow> ConfigurableAction" where
  "settings_entry = (\<lambda>(n, a). \<lparr>ConfigName = ''settings_'' @ n, DefaultPrimaryKey = -1,
     DefaultSecondaryKey = -1, ConfigAction = a\<rparr>)"

definition infantryControls :: "ConfigurableAction list" where
  "infantryControls = map settings_entry
    [(''actions_move_forward'', eGameActionMoveForward), (''actions_move_backward'', eGameActionMoveBack),
     (''actions_move_left'', eGameActionMoveLeft), (''actions_move_right'', eGameActionMoveRight),
     (''actions_sprint'', eGameActionSprint), (''actions_jump'', eGameActionJump),
     (''actions_crouch'', eGameActionCrouch), (''actions_use'', eGameActionUse),
     (''actions_dualwield'', eGameActionPickUpLeft), (''actions_shoot'', eGameActionFireRight),
     (''actions_shoot_left'', eGameActionFireLeft), (''actions_reload'', eGameActionReloadRight),
     (''actions_reload_left'', eGameActionReloadLeft), (''actions_zoom'', eGameActionZoom),
     (''actions_switch_weapons'', eGameActionSwitchWeapons), (''actions_melee'', eGameActionMelee),
     (''actions_throw_grenade'', eGameActionThrowGrenade),
     (''actions_toggle_grenade_type'', eGameActionSwitchGrenades),
     (''actions_show_scores'', eGameActionUiSelect), (''actions_forge_delete'', eGameActionUiY),
     (''actions_chat_all'', eGameActionGeneralChat), (''actions_chat_team'', eGameActionTeamChat)]"

definition vehicleControls :: "ConfigurableAction list" where
  "vehicleControls = map settings_entry
    [(''actions_vehicle_accelerate'', eGameActionVehicleAccelerate),
     (''actions_vehicle_reverse'', eGameActionVehicleBrake),
     (''actions_vehicle_boost'', eGameActionVehicleBoost),
     (''actions_vehicle_raise'', eGameActionVehicleRaise),
     (''actions_vehicle_dive'', eGameActionVehicleDive),
     (''actions_vehicle_fire'', eGameActionVehicleFire),
     (''actions_vehicle_alt_fire'', eGameActionVehicleAltFire),
     (''actions_vehicle_bansheebomb'', eGameActionMeleeFire)]"

text \<open>\<open>BuildSettingsMenu\<close> and the array \<open>SetKeyboardSettingsMenu\<close> builds (the pointers it patches into the
  executable are not modelled).\<close>

definition SetKeyboardSettingsMenu :: "ConfigurableAction list \<Rightarrow> ConfigurableAction list \<Rightarrow> ConfigurableAction list" where
  "SetKeyboardSettingsMenu infantrySettings vehicleSettings = infantrySettings @ vehicleSettings"

definition BuildSettingsMenu :: "BindingsTable \<Rightarrow> ConfigurableAction list" where
  "BuildSettingsMenu b = SetKeyboardSettingsMenu (PopulateDefaultKeys b infantryControls)
     (PopulateDefaultKeys b vehicleControls)"

subsection \<open>Commands\<close>

record CommandBinding =
  bound_command :: "string list"
  isHold :: bool
  hold_active :: bool

record 'h InputState = "'h MapState" +
  bindings :: BindingsTable
  commandBindings :: "CommandBinding list"
  engineBindings :: BindingsTable

definition newline_text :: string where "newline_text = [CHR 0x0A]"

definition CommandBind :: "string list \<Rightarrow> string \<Rightarrow> ('h, 'm) InputState_scheme
    \<Rightarrow> (bool \<times> string \<times> ('h, 'm) InputState_scheme) res" where
  "CommandBind Arguments returnInfo s = (case Arguments of
     [] \<Rightarrow> Inr (False, ''Usage: Bind <key> [[+]command] [arguments]'' @ newline_text
              @ ''If the command starts with a +, then it will be ''
              @ ''passed an argument of 1 on key down and 0 on key ''
              @ ''up. Omit the command to unbind the key.'', s)
   | key # rest \<Rightarrow> (case FindValueIgnoreCase (NameValueTable keyCodes) key of
       None \<Rightarrow> Inr (False, ''Unrecognized key name: '' @ key, s)
     | Some keyCode \<Rightarrow>
         (let i = unat keyCode; binding = commandBindings s ! i;
              finish = (\<lambda>info b. rbind (write_at i b (commandBindings s)) (\<lambda>bs.
                Inr (True, info, s\<lparr>commandBindings := bs\<rparr>))) in
          case rest of
            [] \<Rightarrow> finish ''Binding cleared.'' (binding\<lparr>bound_command := []\<rparr>)
          | command # arguments \<Rightarrow>
              if command = [] then Inr (False, ''Invalid command'', s)
              else (let hold = hd command = CHR ''+'' in
                finish ''Binding set.'' (binding
                   \<lparr>isHold := hold,
                    bound_command := (if hold then tl command else command) # arguments\<rparr>)))))"

text \<open>One key of \<open>KeyboardUpdated\<close>: the command to execute, if any, and the binding afterwards.\<close>

definition key_event :: "CommandBinding \<Rightarrow> u8 \<Rightarrow> (string list \<times> CommandBinding) option" where
  "key_event binding keyTicks =
     (if bound_command binding = [] then None
      else if 1 < keyTicks \<or> (keyTicks = 0 \<and> \<not> (isHold binding \<and> hold_active binding)) then None
      else if isHold binding
      then Some (bound_command binding @ [if keyTicks = 1 then ''1'' else ''0''],
                 binding\<lparr>hold_active := 0 < keyTicks\<rparr>)
      else Some (bound_command binding, binding))"

text \<open>The loop over the keys from \<open>i\<close> on: the lines written to the console and the state.\<close>

fun update_keys :: "FloatOps \<Rightarrow> ('h, 'm InputState_ext) handlers \<Rightarrow> (KeyCode \<Rightarrow> u8) \<Rightarrow> nat list
    \<Rightarrow> ('h, 'm) InputState_scheme \<Rightarrow> (string list \<times> ('h, 'm) InputState_scheme) res" where
  "update_keys fo disp ticks [] s = Inr ([], s)"
| "update_keys fo disp ticks (i # is) s =
     (case key_event (commandBindings s ! i) (ticks (of_nat i)) of
        None \<Rightarrow> update_keys fo disp ticks is s
      | Some (command, binding) \<Rightarrow>
          rbind (ExecuteCommandVector fo disp command True
                   (s\<lparr>commandBindings := (commandBindings s)[i := binding]\<rparr>)) (\<lambda>(result, s').
          rbind (update_keys fo disp ticks is s') (\<lambda>(out, s''). Inr (result # out, s''))))"

definition KeyboardUpdated :: "FloatOps \<Rightarrow> ('h, 'm InputState_ext) handlers \<Rightarrow> (KeyCode \<Rightarrow> u8)
    \<Rightarrow> ('h, 'm) InputState_scheme \<Rightarrow> (string list \<times> ('h, 'm) InputState_scheme) res" where
  "KeyboardUpdated fo disp ticks s = update_keys fo disp ticks [0..<unat eKeyCode_Count] s"

definition ParseKeyOrMouseButton :: "string \<Rightarrow> (KeyCode \<times> MouseButton) option" where
  "ParseKeyOrMouseButton n =
     (if ToLower n = ''none'' then Some (eKeyCode_None, eMouseButton_None)
      else case FindValueIgnoreCase (NameValueTable keyCodes) n of
        Some k \<Rightarrow> Some (k, eMouseButton_None)
      | None \<Rightarrow> (case FindValueIgnoreCase (NameValueTable mouseButtons) n of
          Some m \<Rightarrow> Some (eKeyCode_None, m) | None \<Rightarrow> None))"

definition ParseControllerButton :: "string \<Rightarrow> ControllerButton option" where
  "ParseControllerButton n =
     (if ToLower n = ''none'' then Some eControllerButton_None
      else FindValueIgnoreCase (NameValueTable controllerButtons) n)"

definition set_bindings :: "BindingsTable \<Rightarrow> ('h, 'm) InputState_scheme \<Rightarrow> ('h, 'm) InputState_scheme" where
  "set_bindings b s = s\<lparr>bindings := UpdateBindings b, engineBindings := UpdateBindings b\<rparr>"

definition bind_controller :: "GameAction \<Rightarrow> ControllerButton \<Rightarrow> BindingsTable \<Rightarrow> BindingsTable res" where
  "bind_controller action button b = rbind (write_at action button (ControllerButtons b)) (\<lambda>bs.
     Inr (b\<lparr>ControllerButtons := bs\<rparr>))"

definition CommandBindControllerAction :: "string list \<Rightarrow> string \<Rightarrow> ('h, 'm) InputState_scheme
    \<Rightarrow> (bool \<times> string \<times> ('h, 'm) InputState_scheme) res" where
  "CommandBindControllerAction Arguments returnInfo s =
     (if length Arguments < 1 \<or> 2 < length Arguments then Inr (False, returnInfo, s)
      else case FindValueIgnoreCase (NameValueTable gameActions) (hd Arguments) of
        None \<Rightarrow> Inr (False, ''Unrecognized action name: '' @ hd Arguments, s)
      | Some action \<Rightarrow>
          if eGameAction_ControllerCount \<le> action
          then Inr (False, ''Movement actions cannot be bound to controller buttons.'', s)
          else (case (if 1 < length Arguments then ParseControllerButton (Arguments ! 1)
                      else Some eControllerButton_None) of
            None \<Rightarrow> Inr (False, ''Unrecognized button name: '' @ Arguments ! 1, s)
          | Some button \<Rightarrow> rbind (bind_controller action button (bindings s)) (\<lambda>b.
              Inr (True, if button \<noteq> eControllerButton_None then ''Action binding set.''
                     else ''Action binding cleared.'', set_bindings b s))))"

definition parse_slot :: "string list \<Rightarrow> nat \<Rightarrow> (KeyCode \<times> MouseButton) option" where
  "parse_slot Arguments i = (if i < length Arguments then ParseKeyOrMouseButton (Arguments ! i)
     else Some (eKeyCode_None, eMouseButton_None))"

definition bind_keyboard :: "GameAction \<Rightarrow> KeyCode \<times> MouseButton \<Rightarrow> KeyCode \<times> MouseButton
    \<Rightarrow> BindingsTable \<Rightarrow> BindingsTable res" where
  "bind_keyboard action primary secondary b =
     rbind (write_at action (fst primary) (PrimaryKeys b)) (\<lambda>pk.
     rbind (write_at action (snd primary) (PrimaryMouseButtons b)) (\<lambda>pm.
     rbind (write_at action (fst secondary) (SecondaryKeys b)) (\<lambda>sk.
     rbind (write_at action (snd secondary) (SecondaryMouseButtons b)) (\<lambda>sm.
     Inr (b\<lparr>PrimaryKeys := pk, PrimaryMouseButtons := pm, SecondaryKeys := sk,
            SecondaryMouseButtons := sm\<rparr>)))))"

abbreviation unset :: "KeyCode \<times> MouseButton" where
  "unset \<equiv> (eKeyCode_None, eMouseButton_None)"

text \<open>An unset primary slot is filled from the secondary one.\<close>

definition shift_slots :: "KeyCode \<times> MouseButton \<Rightarrow> KeyCode \<times> MouseButton
    \<Rightarrow> (KeyCode \<times> MouseButton) \<times> (KeyCode \<times> MouseButton)" where
  "shift_slots primary secondary = (if primary = unset then (secondary, unset) else (primary, secondary))"

definition CommandBindKeyboardAction :: "string list \<Rightarrow> string \<Rightarrow> ('h, 'm) InputState_scheme
    \<Rightarrow> (bool \<times> string \<times> ('h, 'm) InputState_scheme) res" where
  "CommandBindKeyboardAction Arguments returnInfo s =
     (if length Arguments < 1 \<or> 3 < length Arguments then Inr (False, returnInfo, s)
      else case FindValueIgnoreCase (NameValueTable gameActions) (hd Arguments) of
        None \<Rightarrow> Inr (False, ''Unrecognized action name: '' @ hd Arguments, s)
      | Some action \<Rightarrow> (case parse_slot Arguments 1 of
          None \<Rightarrow> Inr (False, ''Unrecognized primary key name: '' @ Arguments ! 1, s)
        | Some p \<Rightarrow> (case parse_slot Arguments 2 of
            None \<Rightarrow> Inr (False, ''Unrecognized secondary key name: '' @ Arguments ! 2, s)
          | Some q \<Rightarrow>
              (let (primary, secondary) = shift_slots p q in
               if eGameAction_ControllerCount \<le> action
                  \<and> (snd primary \<noteq> eMouseButton_None \<or> snd secondary \<noteq> eMouseButton_None)
               then Inr (False, ''Movement actions cannot be bound to mouse buttons.'', s)
               else rbind (bind_keyboard action primary secondary (bindings s)) (\<lambda>b.
                 Inr (True, if primary \<noteq> unset then ''Action binding set.'' else ''Action binding cleared.'',
                      set_bindings b s))))))"

text \<open>\<open>std::max(1.f, newSensitivity)\<close>.\<close>

definition max_with_one :: "f32 \<Rightarrow> f32" where
  "max_with_one v = (if f32_less 0x3F800000 v then v else 0x3F800000)"

record InputModule =
  VarInputRawInput :: "nat option"
  VarInputControllerPort :: "nat option"
  VarControllerSensitivityX :: "nat option"
  VarControllerSensitivityY :: "nat option"
  ActionControllerCommand :: "nat option"
  ActionKeyboardCommand :: "nat option"

definition deref :: "nat option \<Rightarrow> ('h, 'm) MapState_scheme \<Rightarrow> 'h Command res" where
  "deref p s = (case p of None \<Rightarrow> Inl Undefined | Some i \<Rightarrow> Inr (Commands s ! i))"

definition VariableControllerSensitivityXUpdated :: "InputModule \<Rightarrow> string list \<Rightarrow> string
    \<Rightarrow> ('h, 'm) InputState_scheme \<Rightarrow> (bool \<times> string \<times> ('h, 'm) InputState_scheme) res" where
  "VariableControllerSensitivityXUpdated m Arguments returnInfo s =
     rbind (deref (VarControllerSensitivityX m) s) (\<lambda>c. Inr (True, returnInfo,
       set_bindings ((bindings s)\<lparr>ControllerSensitivityX := max_with_one (ValueFloat c)\<rparr>) s))"

definition VariableControllerSensitivityYUpdated :: "InputModule \<Rightarrow> string list \<Rightarrow> string
    \<Rightarrow> ('h, 'm) InputState_scheme \<Rightarrow> (bool \<times> string \<times> ('h, 'm) InputState_scheme) res" where
  "VariableControllerSensitivityYUpdated m Arguments returnInfo s =
     rbind (deref (VarControllerSensitivityY m) s) (\<lambda>c. Inr (True, returnInfo,
       set_bindings ((bindings s)\<lparr>ControllerSensitivityY := max_with_one (ValueFloat c)\<rparr>) s))"

definition VariableInputRawInputUpdate :: "InputModule \<Rightarrow> string list \<Rightarrow> string
    \<Rightarrow> ('h, 'm) InputState_scheme \<Rightarrow> (bool \<times> string \<times> ('h, 'm) InputState_scheme) res" where
  "VariableInputRawInputUpdate m Arguments returnInfo s =
     rbind (deref (VarInputRawInput m) s) (\<lambda>c. Inr (True,
       ''Raw input '' @ (if ValueInt c \<noteq> 0 then ''enabled.'' else ''disabled.''), s))"

text \<open>\<open>press\<close> stands for the two engine routines the command calls with the button index.\<close>

definition CommandUIButtonPress :: "(u32 \<Rightarrow> bool) \<Rightarrow> string list \<Rightarrow> string
    \<Rightarrow> ('h, 'm) InputState_scheme \<Rightarrow> (bool \<times> string \<times> ('h, 'm) InputState_scheme) res" where
  "CommandUIButtonPress press Arguments returnInfo s = (case Arguments of
     [] \<Rightarrow> Inr (False, ''Usage: Input.UIButtonPress <btnCode>'', s)
   | code # _ \<Rightarrow> rbind (stoul 0 code) (\<lambda>button. Inr (press button, returnInfo, s)))"

definition name_of :: "(string \<times> 'v) list \<Rightarrow> 'v \<Rightarrow> string \<Rightarrow> string" where
  "name_of pairs v old = (case FindName (NameValueTable pairs) v of None \<Rightarrow> old | Some n \<Rightarrow> n)"

text \<open>The dump of the engine's table. The JSON library escapes nothing in the strings that occur (names of
  the tables and numbers).\<close>

definition dump_member :: "string \<Rightarrow> string \<Rightarrow> string" where
  "dump_member k v = CHR 0x22 # k @ [CHR 0x22, CHR '':'', CHR 0x22] @ v @ [CHR 0x22]"

definition dump_action :: "BindingsTable \<Rightarrow> GameAction \<Rightarrow> string" where
  "dump_action b i =
     ''{'' @ dump_member ''actionName'' (name_of gameActions i (dec i))
     @ '','' @ dump_member ''controllerButton'' (if i < eGameAction_ControllerCount
         then name_of controllerButtons (ControllerButtons b ! i) ''none'' else ''none'')
     @ '','' @ dump_member ''controllerHoldButton'' (if i < eGameAction_ControllerCount
         then (if ControllerHoldButtons b ! i then ''true'' else ''false'') else ''n/a'')
     @ '','' @ dump_member ''primaryKey'' (name_of keyCodes (PrimaryKeys b ! i) ''none'')
     @ '','' @ dump_member ''secondaryKey'' (name_of keyCodes (SecondaryKeys b ! i) ''none'')
     @ '','' @ dump_member ''primaryMouseButton'' (name_of mouseButtons (PrimaryMouseButtons b ! i) ''none'')
     @ '','' @ dump_member ''secondaryMouseButton'' (name_of mouseButtons (SecondaryMouseButtons b ! i) ''none'')
     @ ''}''"

definition CommandDumpBindingsJson :: "string list \<Rightarrow> string \<Rightarrow> ('h, 'm) InputState_scheme
    \<Rightarrow> bool \<times> string \<times> ('h, 'm) InputState_scheme" where
  "CommandDumpBindingsJson Arguments returnInfo s =
     (True, ''['' @ concat (map (\<lambda>i. (if i = 0 then [] else '','') @ dump_action (engineBindings s) i)
                     [0..<eGameAction_KeyboardMouseCount]) @ '']'', s)"

text \<open>The update events of the module's commands.\<close>

datatype InputHandler = OnRawInput | OnBind | OnUIButtonPress | OnControllerAction | OnKeyboardAction
  | OnSensitivityX | OnSensitivityY
  | OnDumpBindingsJson

fun input_event :: "InputModule \<Rightarrow> (u32 \<Rightarrow> bool) \<Rightarrow> (InputHandler, 'm InputState_ext) handlers" where
  "input_event m press OnRawInput args info s = VariableInputRawInputUpdate m args info s"
| "input_event m press OnBind args info s = CommandBind args info s"
| "input_event m press OnUIButtonPress args info s = CommandUIButtonPress press args info s"
| "input_event m press OnControllerAction args info s = CommandBindControllerAction args info s"
| "input_event m press OnKeyboardAction args info s = CommandBindKeyboardAction args info s"
| "input_event m press OnDumpBindingsJson args info s = Inr (CommandDumpBindingsJson args info s)"
| "input_event m press OnSensitivityX args info s = VariableControllerSensitivityXUpdated m args info s"
| "input_event m press OnSensitivityY args info s = VariableControllerSensitivityYUpdated m args info s"

subsection \<open>Saving\<close>

definition quoted_arg :: "string \<Rightarrow> string" where
  "quoted_arg n = CHR '' '' # CHR 0x22 # n @ [CHR 0x22]"

definition controller_line :: "string \<Rightarrow> BindingsTable \<Rightarrow> string \<times> GameAction \<Rightarrow> string" where
  "controller_line cmd b = (\<lambda>(n, action).
     let button = ControllerButtons b ! action;
         buttonName = (if button < eControllerButton_Count then name_of controllerButtons button [] else []) in
     cmd @ quoted_arg n @ (if 0 < length buttonName then quoted_arg buttonName else []) @ newline_text)"

definition slot_name :: "GameAction \<Rightarrow> KeyCode \<Rightarrow> MouseButton \<Rightarrow> string" where
  "slot_name action k m =
     (let n = (if k < eKeyCode_Count then name_of keyCodes k [] else []) in
      if action < eGameAction_ControllerCount \<and> m < eMouseButton_Count then name_of mouseButtons m n else n)"

definition keyboard_line :: "string \<Rightarrow> BindingsTable \<Rightarrow> string \<times> GameAction \<Rightarrow> string" where
  "keyboard_line cmd b = (\<lambda>(n, action).
     let primaryName = slot_name action (PrimaryKeys b ! action) (PrimaryMouseButtons b ! action);
         secondaryName = slot_name action (SecondaryKeys b ! action) (SecondaryMouseButtons b ! action) in
     cmd @ quoted_arg n
       @ (if 0 < length primaryName then quoted_arg primaryName else [])
       @ (if 0 < length secondaryName then quoted_arg secondaryName else []) @ newline_text)"

definition ExportBindings :: "InputModule \<Rightarrow> ('h, 'm) InputState_scheme \<Rightarrow> string res" where
  "ExportBindings m s =
     rbind (deref (ActionControllerCommand m) s) (\<lambda>cc.
     rbind (deref (ActionKeyboardCommand m) s) (\<lambda>kc.
     Inr (concat (map (controller_line (Name cc) (bindings s))
                   (filter (\<lambda>(_, action). action < eGameAction_ControllerCount) gameActions))
       @ newline_text
       @ concat (map (keyboard_line (Name kc) (bindings s)) gameActions))))"

subsection \<open>The module\<close>

definition add_result :: "'h Command list \<Rightarrow> ('h Command list \<times> nat) option \<Rightarrow> 'h Command list \<times> nat option" where
  "add_result cmds r = (case r of None \<Rightarrow> (cmds, None) | Some (cmds', i) \<Rightarrow> (cmds', Some i))"

definition set_int_range :: "u32 \<Rightarrow> u32 \<Rightarrow> 'h Command list \<times> nat option \<Rightarrow> ('h Command list \<times> nat) res" where
  "set_int_range lo hi = (\<lambda>(cmds, p). case p of None \<Rightarrow> Inl Undefined
     | Some i \<Rightarrow> Inr (cmds[i := (cmds ! i)\<lparr>ValueIntMin := lo, ValueIntMax := hi\<rparr>], i))"

text \<open>The registrations of the constructor, in order. A refused registration is a null pointer.\<close>

definition register_input :: "FloatOps \<Rightarrow> InputHandler Command \<Rightarrow> InputHandler Command list
    \<Rightarrow> (InputHandler Command list \<times> InputModule) res" where
  "register_input fo mem cmds =
     rbind (set_int_range 0 1 (add_result cmds (ModuleAddVariableInt cmds mem ''Input'' ''RawInput'' ''rawinput''
       ''Enables raw mouse input with no acceleration applied'' FlagsArchived 1 (Some OnRawInput))))
     (\<lambda>(cmds, raw).
     rbind (set_int_range 0 3 (add_result cmds (ModuleAddVariableInt cmds mem ''Input'' ''ControllerPort'' ''controllerport''
       ''The port number of the player's controller.'' FlagsArchived 0 None)))
     (\<lambda>(cmds, port).
     let (cmds, _) = add_result cmds (ModuleAddCommand cmds mem ''Input'' ''Bind'' ''bind''
           ''Binds a command to a key'' 0 (Some OnBind) [''key'', ''[+]command'', ''arguments'']);
         (cmds, _) = add_result cmds (ModuleAddCommand cmds mem ''Input'' ''UIButtonPress'' ''ui_btn_press''
           ''Emulates a gamepad button press on UI menus'' 0 (Some OnUIButtonPress)
           [''btnCode The code of the button to press'']);
         (cmds, ca) = add_result cmds (ModuleAddCommand cmds mem ''Input'' ''ControllerAction'' ''controller''
           ''Binds an in-game action to a controller button'' 0 (Some OnControllerAction)
           [''action The name of the action to bind'', ''button The button name'']);
         (cmds, ka) = add_result cmds (ModuleAddCommand cmds mem ''Input'' ''KeyboardAction'' ''keyboard''
           ''Binds an in-game action to keyboard keys or mouse buttons'' 0 (Some OnKeyboardAction)
           [''action The name of the action to bind'', ''[primary] The primary key name'',
            ''[secondary] The secondary key name'']);
         (cmds, _) = add_result cmds (ModuleAddCommand cmds mem ''Input'' ''DumpBindingsJson'' ''dumpbindingsjson''
           ''Dumps the input bindings table in json'' 0 (Some OnDumpBindingsJson) []);
         (cmds, sx) = add_result cmds (ModuleAddVariableFloat fo cmds mem ''Input'' ''ControllerSensitivityX'' ''xsens''
           ''Horizontal controller look sensitivity'' FlagsArchived 0x42F00000 (Some OnSensitivityX));
         (cmds, sy) = add_result cmds (ModuleAddVariableFloat fo cmds mem ''Input'' ''ControllerSensitivityY'' ''ysens''
           ''Vertical controller look sensitivity'' FlagsArchived 0x42700000 (Some OnSensitivityY)) in
     Inr (cmds, \<lparr>VarInputRawInput = Some raw, VarInputControllerPort = Some port,
       VarControllerSensitivityX = sx, VarControllerSensitivityY = sy,
       ActionControllerCommand = ca, ActionKeyboardCommand = ka\<rparr>)))"

definition default_commands :: "CommandBinding list" where
  "default_commands =
     foldl (\<lambda>bs (k, c). bs[unat (k::KeyCode) := (bs ! unat k)\<lparr>bound_command := c\<rparr>])
       (replicate (unat eKeyCode_Count) \<lparr>bound_command = [], isHold = False, hold_active = False\<rparr>)
       [(eKeyCodeA, [''ui_btn_press'', ''0'']), (eKeyCodeB, [''ui_btn_press'', ''1'']),
        (eKeyCodeEnd, [''ui_btn_press'', ''1'']), (eKeyCodeHome, [''ui_btn_press'', ''2''])]"

text \<open>The constructor: the commands, the bindings with the settings menu built from them, and the
  commands of the keys.\<close>

definition ModuleInput :: "FloatOps \<Rightarrow> InputHandler Command \<Rightarrow> (InputHandler, 'm) InputState_scheme
    \<Rightarrow> ((InputHandler, 'm) InputState_scheme \<times> InputModule \<times> ConfigurableAction list) res" where
  "ModuleInput fo mem s = rbind (register_input fo mem (Commands s)) (\<lambda>(cmds, m).
     Inr (s\<lparr>Commands := cmds, bindings := LoadDefaultBindings, engineBindings := LoadDefaultBindings,
            commandBindings := default_commands\<rparr>, m, BuildSettingsMenu LoadDefaultBindings))"

subsection \<open>Preferences\<close>

text \<open>\<open>Patches/Input.cpp\<close>: the engine's preferences are redirected to the module's table.\<close>

record BindingsPreferences =
  PrefPrimaryKeys :: "KeyCode list"
  PrefPrimaryMouseButtons :: "MouseButton list"
  PrefSecondaryKeys :: "KeyCode list"
  PrefSecondaryMouseButtons :: "MouseButton list"

definition PreferencesGetKeyBindingsHook :: "('h, 'm) InputState_scheme \<Rightarrow> BindingsPreferences" where
  "PreferencesGetKeyBindingsHook s = \<lparr>PrefPrimaryKeys = PrimaryKeys (bindings s),
     PrefPrimaryMouseButtons = PrimaryMouseButtons (bindings s),
     PrefSecondaryKeys = SecondaryKeys (bindings s),
     PrefSecondaryMouseButtons = SecondaryMouseButtons (bindings s)\<rparr>"

definition PreferencesSetKeyBindingsHook :: "FloatOps \<Rightarrow> ('h, 'm InputState_ext) handlers
    \<Rightarrow> BindingsPreferences \<Rightarrow> ('h, 'm) InputState_scheme \<Rightarrow> (string \<times> ('h, 'm) InputState_scheme) res" where
  "PreferencesSetKeyBindingsHook fo disp p s =
     ExecuteCommand fo disp ''WriteConfig'' False (set_bindings ((bindings s)
       \<lparr>PrimaryKeys := PrefPrimaryKeys p, PrimaryMouseButtons := PrefPrimaryMouseButtons p,
        SecondaryKeys := PrefSecondaryKeys p, SecondaryMouseButtons := PrefSecondaryMouseButtons p\<rparr>) s)"

definition InitBindingsHook :: "('h, 'm) InputState_scheme \<Rightarrow> BindingsTable" where
  "InitBindingsHook s = bindings s"

definition GetDefaultBindingsHook :: "int \<Rightarrow> ('h, 'm) InputState_scheme \<Rightarrow> BindingsTable" where
  "GetDefaultBindingsHook type s = bindings s"

end
