(* ===== verification/BindingsFile.thy ===== *)
theory BindingsFile
  imports InputBindings
begin

text \<open>
  What the bindings guarantee: every script keeps the table in a form the configuration file can
  express, no binding command writes outside an array, and the exported text, executed as a script,
  restores the bindings of every action that has a name.
\<close>

subsection \<open>Names in the tables\<close>

text \<open>A name that survives quoting, splitting into lines and the test for \<open>none\<close>.\<close>

definition plain_name :: "string \<Rightarrow> bool" where
  "plain_name n \<longleftrightarrow> n \<noteq> [] \<and> map tolower n \<noteq> ''none''
     \<and> list_all (\<lambda>c. c \<noteq> CHR 0x22 \<and> c \<noteq> NUL \<and> c \<noteq> CHR 0x0A) n"

lemma plain_tables:
  "list_all (plain_name \<circ> fst) controllerButtons" "list_all (plain_name \<circ> fst) mouseButtons"
  "list_all (plain_name \<circ> fst) gameActions"
  by code_simp+

lemma plain_keys: "list_all (plain_name \<circ> fst) keyCodes"
proof -
  have "''none'' \<notin> set (map (\<lambda>p. map tolower (fst p)) keyCodes)"
    unfolding keyCodes_lower by simp
  then have "list_all (\<lambda>p. map tolower (fst p) \<noteq> ''none'') keyCodes"
    by (force simp: list_all_iff)
  moreover have "list_all (\<lambda>p. fst p \<noteq> [] \<and> list_all (\<lambda>c. c \<noteq> CHR 0x22 \<and> c \<noteq> NUL \<and> c \<noteq> CHR 0x0A) (fst p)) keyCodes"
    by (simp add: keyCodes_def NUL_def)
  ultimately show ?thesis by (auto simp: list_all_iff plain_name_def)
qed

lemma code_bounds:
  "list_all (\<lambda>p. snd p < eControllerButton_Count) controllerButtons"
  "list_all (\<lambda>p. snd p < eMouseButton_Count) mouseButtons"
  "list_all (\<lambda>p. snd p < eGameAction_KeyboardMouseCount \<and> snd p \<noteq> eGameActionVehicleExit) gameActions"
  "list_all (\<lambda>p. snd p < eKeyCode_Count) keyCodes"
  by code_simp+

text \<open>No mouse button is named like a key.\<close>

lemma mouse_not_key:
  "list_all (\<lambda>p. map tolower (fst p) \<notin> set (map (\<lambda>q. map tolower (fst q)) keyCodes)) mouseButtons"
  unfolding keyCodes_lower by code_simp

definition named :: "(string \<times> 'v) list \<Rightarrow> 'v \<Rightarrow> bool" where
  "named pairs v \<longleftrightarrow> v \<in> snd ` set pairs"

lemma named_name:
  assumes "table_ok pairs" "named pairs v"
  obtains n where "(n, v) \<in> set pairs" "name_of pairs v old = n" "FindValueIgnoreCase (NameValueTable pairs) n = Some v"
proof -
  from assms(2) obtain n where n: "(n, v) \<in> set pairs" by (auto simp: named_def)
  then have "FindName (NameValueTable pairs) v = Some n" using table_find(2) [OF assms(1)] by blast
  with n name_leads_back [OF assms(1) this refl] show thesis by (intro that) (simp_all add: name_of_def)
qed

lemma unnamed_name: "table_ok pairs \<Longrightarrow> \<not> named pairs v \<Longrightarrow> name_of pairs v old = old"
proof -
  assume "table_ok pairs" "\<not> named pairs v"
  then have "FindName (NameValueTable pairs) v \<noteq> Some n" for n
    using table_find(2) [of pairs v n] by (auto simp: named_def image_iff)
  then have "FindName (NameValueTable pairs) v = None" by auto
  then show ?thesis by (simp add: name_of_def)
qed

lemma found_named: "table_ok pairs \<Longrightarrow> FindValueIgnoreCase (NameValueTable pairs) n = Some v \<Longrightarrow> named pairs v"
  using table_find(1) [of pairs n v] by (force simp: named_def)

lemma none_unnamed: "\<not> named keyCodes eKeyCode_None" "\<not> named mouseButtons eMouseButton_None"
  "\<not> named controllerButtons eControllerButton_None"
  using code_bounds by (force simp: named_def list_all_iff)+

subsection \<open>Bindings the file can express\<close>

definition slot_ok :: "GameAction \<Rightarrow> KeyCode \<times> MouseButton \<Rightarrow> bool" where
  "slot_ok a p \<longleftrightarrow> (snd p = eMouseButton_None \<and> (fst p = eKeyCode_None \<or> named keyCodes (fst p)))
     \<or> (fst p = eKeyCode_None \<and> named mouseButtons (snd p) \<and> a < eGameAction_ControllerCount)"

definition slots_ok :: "GameAction \<Rightarrow> KeyCode \<times> MouseButton \<Rightarrow> KeyCode \<times> MouseButton \<Rightarrow> bool" where
  "slots_ok a p q \<longleftrightarrow> slot_ok a p \<and> slot_ok a q"

definition primary_slot :: "BindingsTable \<Rightarrow> GameAction \<Rightarrow> KeyCode \<times> MouseButton" where
  "primary_slot b a = (PrimaryKeys b ! a, PrimaryMouseButtons b ! a)"

definition secondary_slot :: "BindingsTable \<Rightarrow> GameAction \<Rightarrow> KeyCode \<times> MouseButton" where
  "secondary_slot b a = (SecondaryKeys b ! a, SecondaryMouseButtons b ! a)"

definition button_ok :: "ControllerButton \<Rightarrow> bool" where
  "button_ok c \<longleftrightarrow> c = eControllerButton_None \<or> named controllerButtons c"

definition arrays_ok :: "BindingsTable \<Rightarrow> bool" where
  "arrays_ok b \<longleftrightarrow> length (ControllerButtons b) = eGameAction_ControllerCount
     \<and> length (ControllerHoldButtons b) = eGameAction_ControllerCount
     \<and> length (PrimaryKeys b) = eGameAction_KeyboardMouseCount
     \<and> length (SecondaryKeys b) = eGameAction_KeyboardMouseCount
     \<and> length (PrimaryMouseButtons b) = eGameAction_KeyboardMouseCount
     \<and> length (SecondaryMouseButtons b) = eGameAction_KeyboardMouseCount"

text \<open>The actions that have a name.\<close>

definition action_codes :: "GameAction list" where
  "action_codes = map snd gameActions"

definition sensitivity_ok :: "f32 \<Rightarrow> bool" where
  "sensitivity_ok v \<longleftrightarrow> v = 0x3F800000 \<or> f32_less 0x3F800000 v"

text \<open>The whole table: every action in the arrays, named or not.\<close>

definition table_slots_ok :: "BindingsTable \<Rightarrow> bool" where
  "table_slots_ok b \<longleftrightarrow> arrays_ok b
     \<and> sensitivity_ok (ControllerSensitivityX b) \<and> sensitivity_ok (ControllerSensitivityY b)
     \<and> list_all (\<lambda>a. slots_ok a (primary_slot b a) (secondary_slot b a)) [0..<eGameAction_KeyboardMouseCount]
     \<and> list_all button_ok (ControllerButtons b)"

text \<open>Leaving a vehicle is bound like the use of an item, whatever that is bound to.\<close>

definition exit_copies_use :: "BindingsTable \<Rightarrow> bool" where
  "exit_copies_use b \<longleftrightarrow> ControllerButtons b ! eGameActionVehicleExit = ControllerButtons b ! eGameActionUse
     \<and> ControllerHoldButtons b ! eGameActionVehicleExit = ControllerHoldButtons b ! eGameActionUse
     \<and> primary_slot b eGameActionVehicleExit = primary_slot b eGameActionUse
     \<and> secondary_slot b eGameActionVehicleExit = secondary_slot b eGameActionUse"

definition bindings_ok :: "BindingsTable \<Rightarrow> bool" where
  "bindings_ok b \<longleftrightarrow> table_slots_ok b \<and> exit_copies_use b
     \<and> ControllerHoldButtons b = ControllerHoldButtons LoadDefaultBindings"

lemma bindings_okD:
  assumes "bindings_ok b"
  shows "arrays_ok b" "table_slots_ok b" "ControllerHoldButtons b = ControllerHoldButtons LoadDefaultBindings"
    "a < eGameAction_KeyboardMouseCount \<Longrightarrow> slots_ok a (primary_slot b a) (secondary_slot b a)"
    "a < eGameAction_ControllerCount \<Longrightarrow> button_ok (ControllerButtons b ! a)"
proof -
  show arr: "arrays_ok b" and "table_slots_ok b" "ControllerHoldButtons b = ControllerHoldButtons LoadDefaultBindings"
    using assms by (simp_all add: bindings_ok_def table_slots_ok_def)
  show "a < eGameAction_KeyboardMouseCount \<Longrightarrow> slots_ok a (primary_slot b a) (secondary_slot b a)"
    using assms by (simp add: bindings_ok_def table_slots_ok_def list_all_iff)
  show "a < eGameAction_ControllerCount \<Longrightarrow> button_ok (ControllerButtons b ! a)"
    using assms arr unfolding bindings_ok_def table_slots_ok_def arrays_ok_def list_all_length by metis
qed

lemma ParseKeyOrMouseButton_slot:
  assumes "ParseKeyOrMouseButton n = Some p" "a < eGameAction_ControllerCount \<or> snd p = eMouseButton_None"
  shows "slot_ok a p"
  using assms found_named [OF keyCodes_ok, of n] found_named [OF tables_ok(2), of n]
  by (auto simp: ParseKeyOrMouseButton_def slot_ok_def split: if_splits option.splits)

lemma ParseControllerButton_ok: "ParseControllerButton n = Some c \<Longrightarrow> button_ok c"
  using found_named [OF tables_ok(1)]
  by (auto simp: ParseControllerButton_def button_ok_def split: if_splits)

subsection \<open>Every command keeps them so\<close>

lemma action_codes_bounds:
  assumes "a \<in> set action_codes"
  shows "a < eGameAction_KeyboardMouseCount" "a \<noteq> eGameActionVehicleExit"
  using assms code_bounds(3) by (auto simp: action_codes_def list_all_iff)

lemma FindValue_action:
  assumes "FindValueIgnoreCase (NameValueTable gameActions) n = Some a"
  shows "a \<in> set action_codes"
  using found_named [OF tables_ok(3) assms] by (simp add: named_def action_codes_def)

lemma write_at_Inr: "i < length xs \<Longrightarrow> write_at i v xs = Inr (xs[i := v])"
  by (simp add: write_at_def)

lemma UpdateBindings_fields:
  assumes "a \<noteq> eGameActionVehicleExit"
  shows "ControllerButtons (UpdateBindings b) ! a = ControllerButtons b ! a"
    "primary_slot (UpdateBindings b) a = primary_slot b a"
    "secondary_slot (UpdateBindings b) a = secondary_slot b a"
  using assms by (simp_all add: UpdateBindings_def CopyBinding_def primary_slot_def secondary_slot_def)

lemma UpdateBindings_arrays: "arrays_ok (UpdateBindings b) = arrays_ok b"
  by (simp add: UpdateBindings_def CopyBinding_def arrays_ok_def)

lemma UpdateBindings_sensitivity:
  "ControllerSensitivityX (UpdateBindings b) = ControllerSensitivityX b"
  "ControllerSensitivityY (UpdateBindings b) = ControllerSensitivityY b"
  by (simp_all add: UpdateBindings_def CopyBinding_def)

lemma use_facts: "eGameActionUse < eGameAction_ControllerCount" "eGameActionUse < eGameAction_KeyboardMouseCount"
  "eGameActionVehicleExit < eGameAction_ControllerCount" "eGameActionVehicleExit < eGameAction_KeyboardMouseCount"
  "eGameActionUse \<noteq> eGameActionVehicleExit"
  by simp_all

lemma UpdateBindings_exit:
  assumes "arrays_ok b"
  shows "ControllerButtons (UpdateBindings b) = (ControllerButtons b)[eGameActionVehicleExit := ControllerButtons b ! eGameActionUse]"
    "primary_slot (UpdateBindings b) a = primary_slot b (if a = eGameActionVehicleExit then eGameActionUse else a)"
    "secondary_slot (UpdateBindings b) a = secondary_slot b (if a = eGameActionVehicleExit then eGameActionUse else a)"
  using assms use_facts
  by (auto simp: UpdateBindings_def CopyBinding_def primary_slot_def secondary_slot_def arrays_ok_def)

lemma slots_ok_same: "slots_ok eGameActionUse p q \<Longrightarrow> slots_ok eGameActionVehicleExit p q"
  using use_facts by (auto simp: slots_ok_def slot_ok_def)

lemma table_slots_update:
  assumes "table_slots_ok b"
  shows "table_slots_ok (UpdateBindings b)" "exit_copies_use (UpdateBindings b)"
proof -
  have arr: "arrays_ok b" using assms by (simp add: table_slots_ok_def)
  have slots: "slots_ok a (primary_slot b a) (secondary_slot b a)" if "a < eGameAction_KeyboardMouseCount" for a
    using assms that by (simp add: table_slots_ok_def list_all_iff)
  have buttons: "button_ok c" if "c \<in> set (ControllerButtons b)" for c
    using assms that by (simp add: table_slots_ok_def list_all_iff)
  have "button_ok (ControllerButtons b ! eGameActionUse)"
    using use_facts(1) arr by (intro buttons nth_mem) (simp add: arrays_ok_def)
  then have "list_all button_ok (ControllerButtons (UpdateBindings b))"
    unfolding UpdateBindings_exit(1) [OF arr] list_all_iff using buttons set_update_subset_insert by fastforce
  moreover have "slots_ok a (primary_slot (UpdateBindings b) a) (secondary_slot (UpdateBindings b) a)"
    if "a < eGameAction_KeyboardMouseCount" for a
    unfolding UpdateBindings_exit(2,3) [OF arr] using slots [OF that] slots_ok_same [OF slots [OF use_facts(2)]] by simp
  ultimately show "table_slots_ok (UpdateBindings b)"
    using assms by (simp add: table_slots_ok_def UpdateBindings_arrays UpdateBindings_sensitivity list_all_iff)
  show "exit_copies_use (UpdateBindings b)"
    using arr use_facts unfolding exit_copies_use_def UpdateBindings_exit(2,3) [OF arr]
    by (simp add: UpdateBindings_def CopyBinding_def arrays_ok_def nth_list_update del: use_facts(5))
qed

lemma default_hold_exit:
  "(ControllerHoldButtons LoadDefaultBindings) [eGameActionVehicleExit := ControllerHoldButtons LoadDefaultBindings ! eGameActionUse]
     = ControllerHoldButtons LoadDefaultBindings"
  by (simp add: LoadDefaultBindings_def Let_def UpdateBindings_def CopyBinding_def)

lemma bindings_ok_update:
  assumes "table_slots_ok b" "ControllerHoldButtons b = ControllerHoldButtons LoadDefaultBindings"
  shows "bindings_ok (UpdateBindings b)"
proof -
  have "ControllerHoldButtons (UpdateBindings b) = ControllerHoldButtons LoadDefaultBindings"
    by (simp add: UpdateBindings_def CopyBinding_def assms(2) default_hold_exit)
  then show ?thesis using table_slots_update [OF assms(1)] by (simp add: bindings_ok_def)
qed

lemma bind_controller_result:
  assumes "arrays_ok b" "a < eGameAction_ControllerCount"
  shows "bind_controller a c b = Inr (b\<lparr>ControllerButtons := (ControllerButtons b)[a := c]\<rparr>)"
  using assms by (simp add: bind_controller_def arrays_ok_def write_at_Inr)

lemma bind_keyboard_result:
  assumes "arrays_ok b" "a < eGameAction_KeyboardMouseCount"
  shows "bind_keyboard a p q b = Inr (b\<lparr>PrimaryKeys := (PrimaryKeys b)[a := fst p],
    PrimaryMouseButtons := (PrimaryMouseButtons b)[a := snd p],
    SecondaryKeys := (SecondaryKeys b)[a := fst q],
    SecondaryMouseButtons := (SecondaryMouseButtons b)[a := snd q]\<rparr>)"
  using assms by (simp add: bind_keyboard_def arrays_ok_def write_at_Inr)

lemma bind_controller_ok:
  assumes "bindings_ok b" "a < eGameAction_ControllerCount" "button_ok c"
  obtains b' where "bind_controller a c b = Inr b'" "table_slots_ok b'" "ControllerHoldButtons b' = ControllerHoldButtons b"
proof -
  note t = bindings_okD(2) [OF assms(1)]
  have "list_all button_ok ((ControllerButtons b)[a := c])"
    using t assms(3) set_update_subset_insert [of "ControllerButtons b" a c]
    by (auto simp: table_slots_ok_def list_all_iff)
  with t have "table_slots_ok (b\<lparr>ControllerButtons := (ControllerButtons b)[a := c]\<rparr>)"
    by (simp add: table_slots_ok_def arrays_ok_def primary_slot_def secondary_slot_def)
  then show thesis by (rule that [OF bind_controller_result [OF bindings_okD(1) [OF assms(1)] assms(2)]]) simp
qed

lemma bind_keyboard_ok:
  assumes "bindings_ok b" "a < eGameAction_KeyboardMouseCount" "slots_ok a p q"
  obtains b' where "bind_keyboard a p q b = Inr b'" "table_slots_ok b'" "ControllerHoldButtons b' = ControllerHoldButtons b"
proof -
  have "table_slots_ok (b\<lparr>PrimaryKeys := (PrimaryKeys b)[a := fst p],
    PrimaryMouseButtons := (PrimaryMouseButtons b)[a := snd p],
    SecondaryKeys := (SecondaryKeys b)[a := fst q],
    SecondaryMouseButtons := (SecondaryMouseButtons b)[a := snd q]\<rparr>)"
    using bindings_okD(2) [OF assms(1)] assms(2,3)
    by (auto simp: table_slots_ok_def arrays_ok_def primary_slot_def secondary_slot_def list_all_iff nth_list_update)
  then show thesis by (rule that [OF bind_keyboard_result [OF bindings_okD(1) [OF assms(1)] assms(2)]]) simp
qed

lemma shift_slots_ok:
  "slot_ok a p \<Longrightarrow> slot_ok a q \<Longrightarrow> shift_slots p q = (p', q') \<Longrightarrow> slots_ok a p' q'"
  by (auto simp: shift_slots_def slots_ok_def slot_ok_def split: if_splits)

lemma parse_slot_ok:
  assumes "parse_slot args i = Some p" "a < eGameAction_ControllerCount \<or> snd p = eMouseButton_None"
  shows "slot_ok a p"
  using assms ParseKeyOrMouseButton_slot [of "args ! i" p a]
  by (auto simp: parse_slot_def slot_ok_def split: if_splits)

definition input_ok :: "('h, 'm) InputState_scheme \<Rightarrow> bool" where
  "input_ok s \<longleftrightarrow> bindings_ok (bindings s) \<and> length (commandBindings s) = unat eKeyCode_Count
     \<and> engineBindings s = bindings s"

lemma input_ok_set_bindings:
  "table_slots_ok b \<Longrightarrow> ControllerHoldButtons b = ControllerHoldButtons (bindings s) \<Longrightarrow> input_ok s \<Longrightarrow>
     input_ok (set_bindings b s)"
  using bindings_okD(3) [of "bindings s"] by (simp add: input_ok_def set_bindings_def bindings_ok_update)

text \<open>A handler that returns, in a well-formed state.\<close>

definition handled :: "(bool \<times> string \<times> ('h, 'm) InputState_scheme) res \<Rightarrow> bool" where
  "handled r = (case r of Inl _ \<Rightarrow> False | Inr (_, _, s') \<Rightarrow> input_ok s')"

lemma handled_Inr [simp]: "handled (Inr (ok, info, s')) = input_ok s'"
  by (simp add: handled_def)

lemma CommandBindControllerAction_ok:
  assumes "input_ok s"
  shows "handled (CommandBindControllerAction args info s)"
proof -
  have "handled (rbind (bind_controller a c (bindings s)) (\<lambda>b. Inr (True, info' c, set_bindings b s)))"
    if "a < eGameAction_ControllerCount" "button_ok c" for a c and info' :: "ControllerButton \<Rightarrow> string"
  proof -
    have "bindings_ok (bindings s)" using assms by (simp add: input_ok_def)
    then obtain b where "bind_controller a c (bindings s) = Inr b" "table_slots_ok b"
      "ControllerHoldButtons b = ControllerHoldButtons (bindings s)"
      using \<open>a < _\<close> \<open>button_ok c\<close> bind_controller_ok by blast
    then show ?thesis using input_ok_set_bindings [OF _ _ assms] by simp
  qed
  note bound = this
  have none: "button_ok eControllerButton_None" by (simp add: button_ok_def)
  show ?thesis
    unfolding CommandBindControllerAction_def
    using assms none by (auto split: option.split dest: ParseControllerButton_ok intro!: bound)
qed

lemma CommandBindKeyboardAction_ok:
  assumes "input_ok s"
  shows "handled (CommandBindKeyboardAction args info s)"
proof -
  have bound: "handled (rbind (bind_keyboard a p' q' (bindings s)) (\<lambda>b. Inr (True, info', set_bindings b s)))"
    if "FindValueIgnoreCase (NameValueTable gameActions) n = Some a"
      "parse_slot args (Suc 0) = Some p" "parse_slot args 2 = Some q" "shift_slots p q = (p', q')"
      "\<not> (eGameAction_ControllerCount \<le> a \<and> (snd p' \<noteq> eMouseButton_None \<or> snd q' \<noteq> eMouseButton_None))"
    for a n p q p' q' info'
  proof -
    have "slot_ok a p" "slot_ok a q"
      using that(4,5) parse_slot_ok [OF that(2)] parse_slot_ok [OF that(3)]
      by (auto simp: shift_slots_def split: if_splits)
    then have "slots_ok a p' q'" using that(4) shift_slots_ok by blast
    moreover have "bindings_ok (bindings s)" using assms by (simp add: input_ok_def)
    moreover have "a < eGameAction_KeyboardMouseCount"
      using FindValue_action [OF that(1)] action_codes_bounds by blast
    ultimately obtain b where "bind_keyboard a p' q' (bindings s) = Inr b" "table_slots_ok b"
      "ControllerHoldButtons b = ControllerHoldButtons (bindings s)"
      using bind_keyboard_ok by blast
    then show ?thesis using input_ok_set_bindings [OF _ _ assms] by simp
  qed
  show ?thesis
    unfolding CommandBindKeyboardAction_def Let_def
    using assms by (auto split: option.split prod.split intro!: bound)
qed

lemma CommandBind_ok:
  assumes "input_ok s"
  shows "handled (CommandBind args info s)"
proof -
  have bound: "handled (rbind (write_at (unat k) b (commandBindings s)) (\<lambda>bs.
      Inr (True, info', s\<lparr>commandBindings := bs\<rparr>)))"
    if "FindValueIgnoreCase (NameValueTable keyCodes) n = Some k" for n k b info'
  proof -
    have "k < eKeyCode_Count"
      using found_named [OF keyCodes_ok that] code_bounds(4) by (auto simp: named_def list_all_iff)
    then have "unat k < length (commandBindings s)"
      using assms by (simp add: input_ok_def word_less_nat_alt)
    then show ?thesis using assms by (simp add: write_at_Inr input_ok_def)
  qed
  show ?thesis
    unfolding CommandBind_def Let_def
    using assms by (auto split: list.split option.split intro!: bound)
qed

lemma max_with_one_ok: "sensitivity_ok (max_with_one v)"
  by (simp add: max_with_one_def sensitivity_ok_def)

subsection \<open>The defaults\<close>

lemma assign_all_length [simp]: "length (assign_all ivs xs) = length xs"
  unfolding assign_all_def by (induction ivs arbitrary: xs) auto

lemma assign_all_nth:
  "a < length xs \<Longrightarrow> assign_all ivs xs ! a = (case map_of (rev ivs) a of None \<Rightarrow> xs ! a | Some v \<Rightarrow> v)"
  unfolding assign_all_def
  by (induction ivs arbitrary: xs) (auto simp: map_add_def nth_list_update split: option.splits)

lemma foldl_unbind:
  "arrays_ok b \<Longrightarrow> n \<le> eGameAction_KeyboardMouseCount \<Longrightarrow> arrays_ok (foldl unbind b [0..<n])
    \<and> ControllerSensitivityX (foldl unbind b [0..<n]) = ControllerSensitivityX b
    \<and> ControllerSensitivityY (foldl unbind b [0..<n]) = ControllerSensitivityY b
    \<and> (\<forall>a < n. primary_slot (foldl unbind b [0..<n]) a = unset \<and> secondary_slot (foldl unbind b [0..<n]) a = unset
        \<and> (a < eGameAction_ControllerCount \<longrightarrow> ControllerButtons (foldl unbind b [0..<n]) ! a = eControllerButton_None))"
proof (induction n)
  case (Suc n)
  then have IH: "arrays_ok (foldl unbind b [0..<n])"
    "ControllerSensitivityX (foldl unbind b [0..<n]) = ControllerSensitivityX b"
    "ControllerSensitivityY (foldl unbind b [0..<n]) = ControllerSensitivityY b"
    "\<forall>a < n. primary_slot (foldl unbind b [0..<n]) a = unset \<and> secondary_slot (foldl unbind b [0..<n]) a = unset
        \<and> (a < eGameAction_ControllerCount \<longrightarrow> ControllerButtons (foldl unbind b [0..<n]) ! a = eControllerButton_None)"
    by simp_all
  have e: "foldl unbind b [0..<Suc n] = unbind (foldl unbind b [0..<n]) n" by simp
  show ?case
    unfolding e using IH Suc.prems(2)
    by (auto simp: unbind_def arrays_ok_def primary_slot_def secondary_slot_def nth_list_update less_Suc_eq)
qed simp

definition assigned :: "(nat \<times> 'a) list \<Rightarrow> 'a \<Rightarrow> nat \<Rightarrow> 'a" where
  "assigned ivs old a = (case map_of (rev ivs) a of None \<Rightarrow> old | Some v \<Rightarrow> v)"

text \<open>What the assignments of the defaults say about an action.\<close>

definition default_slots_ok :: "GameAction \<Rightarrow> bool" where
  "default_slots_ok a \<longleftrightarrow>
     slots_ok a (assigned default_primary_keys eKeyCode_None a, assigned default_primary_mouse eMouseButton_None a)
       (assigned default_secondary_keys eKeyCode_None a, assigned default_secondary_mouse eMouseButton_None a)
     \<and> (a < eGameAction_ControllerCount \<longrightarrow> button_ok (assigned default_controller
          (if a < unat eControllerButton_Count then of_nat a else eControllerButton_None) a))"

lemma default_slots: "list_all default_slots_ok [0..<eGameAction_KeyboardMouseCount]"
  by code_simp

lemma foldl_buttons:
  "n \<le> length bs \<Longrightarrow> length (foldl (\<lambda>bs i. bs[i := f i]) bs [0..<n]) = length bs
    \<and> (\<forall>a < length bs. foldl (\<lambda>bs i. bs[i := f i]) bs [0..<n] ! a = (if a < n then f a else bs ! a))"
  by (induction n) (auto simp: nth_list_update)

lemma LoadDefaultBindings_ok: "bindings_ok LoadDefaultBindings"
proof -
  define z where "z = zero_bindings\<lparr>ControllerSensitivityX := 0x42F00000, ControllerSensitivityY := 0x42700000,
                Unknown200 := 0x3F4CCCCD, Unknown204 := 0x3F800000\<rparr>"
  define b where "b = foldl unbind z [0..<eGameAction_KeyboardMouseCount]"
  define c where "c = foldl (\<lambda>bs i. bs[i := of_nat i]) (ControllerButtons b) [0..<unat eControllerButton_Count]"
  have z: "arrays_ok z" by (simp add: z_def zero_bindings_def arrays_ok_def)
  note b = foldl_unbind [OF z order_refl, folded b_def]
  then have lens: "length (ControllerButtons b) = 59" "length (ControllerHoldButtons b) = 59"
    "length (PrimaryKeys b) = 63" "length (SecondaryKeys b) = 63"
    "length (PrimaryMouseButtons b) = 63" "length (SecondaryMouseButtons b) = 63"
    by (simp_all add: arrays_ok_def)
  have c: "length c = 59" "\<forall>a < 59. c ! a = (if a < 16 then of_nat a else ControllerButtons b ! a)"
    using foldl_buttons [of 16 "ControllerButtons b" of_nat] by (simp_all add: c_def lens)
  have sens: "sensitivity_ok (ControllerSensitivityX b)" "sensitivity_ok (ControllerSensitivityY b)"
    using b by (simp_all add: z_def sensitivity_ok_def f32_less_def f32_is_nan_def f32_key_def f32_magnitude_def)
  have e: "LoadDefaultBindings = UpdateBindings (b
        \<lparr>ControllerButtons := assign_all default_controller c,
         ControllerHoldButtons := assign_all default_hold (ControllerHoldButtons b),
         PrimaryKeys := assign_all default_primary_keys (PrimaryKeys b),
         SecondaryKeys := assign_all default_secondary_keys (SecondaryKeys b),
         PrimaryMouseButtons := assign_all default_primary_mouse (PrimaryMouseButtons b),
         SecondaryMouseButtons := assign_all default_secondary_mouse (SecondaryMouseButtons b)\<rparr>)"
    by (simp add: LoadDefaultBindings_def Let_def z_def b_def c_def)
  have d: "default_slots_ok a" if "a < 63" for a using default_slots that by (simp add: list_all_iff)
  have slots: "slots_ok a (assigned default_primary_keys 255 a, assigned default_primary_mouse 255 a)
      (assigned default_secondary_keys 255 a, assigned default_secondary_mouse 255 a)" if "a < 63" for a
    using d [OF that] by (simp add: default_slots_ok_def)
  have buttons: "a < 16 \<Longrightarrow> button_ok (assigned default_controller (of_nat a) a)"
    "\<not> a < 16 \<Longrightarrow> a < 59 \<Longrightarrow> button_ok (assigned default_controller 255 a)" for a
    using d [of a] by (simp_all add: default_slots_ok_def)
  have "table_slots_ok (b
        \<lparr>ControllerButtons := assign_all default_controller c,
         ControllerHoldButtons := assign_all default_hold (ControllerHoldButtons b),
         PrimaryKeys := assign_all default_primary_keys (PrimaryKeys b),
         SecondaryKeys := assign_all default_secondary_keys (SecondaryKeys b),
         PrimaryMouseButtons := assign_all default_primary_mouse (PrimaryMouseButtons b),
         SecondaryMouseButtons := assign_all default_secondary_mouse (SecondaryMouseButtons b)\<rparr>)"
    using b c(1) sens slots buttons
    by (auto simp: table_slots_ok_def arrays_ok_def primary_slot_def secondary_slot_def list_all_iff [of _ "[0..<63]"]
        list_all_length [of button_ok] assign_all_nth lens c simp flip: assigned_def)
  from table_slots_update [OF this, folded e] show ?thesis by (simp add: bindings_ok_def)
qed

subsection \<open>Runs\<close>

lemma input_event_ok:
  assumes "input_ok s" "input_event m press h args info s = Inr (ok, info', s')"
  shows "input_ok s'"
proof -
  have "table_slots_ok ((bindings s)\<lparr>ControllerSensitivityX := max_with_one v\<rparr>)"
    "table_slots_ok ((bindings s)\<lparr>ControllerSensitivityY := max_with_one v\<rparr>)" for v
    using bindings_okD(2) [of "bindings s"] assms(1) max_with_one_ok
    by (simp_all add: input_ok_def table_slots_ok_def arrays_ok_def primary_slot_def secondary_slot_def)
  then have sens: "input_ok (set_bindings ((bindings s)\<lparr>ControllerSensitivityX := max_with_one v\<rparr>) s)"
    "input_ok (set_bindings ((bindings s)\<lparr>ControllerSensitivityY := max_with_one v\<rparr>) s)" for v
    by (auto intro: input_ok_set_bindings [OF _ _ assms(1)])
  show ?thesis
    using assms sens CommandBind_ok [OF assms(1), of args info]
      CommandBindControllerAction_ok [OF assms(1), of args info]
      CommandBindKeyboardAction_ok [OF assms(1), of args info]
    by (cases h) (auto simp: VariableInputRawInputUpdate_def CommandUIButtonPress_def CommandDumpBindingsJson_def rbind_Inr_iff
        VariableControllerSensitivityXUpdated_def VariableControllerSensitivityYUpdated_def split: list.splits)
qed

lemma input_events_keep: "events_keep input_ok (input_event m press)"
  unfolding events_keep_def using input_event_ok by blast

interpretation bindings_kept: execution_invariant fo "input_ok" for fo
  by unfold_locales (simp_all add: input_ok_def set_command_def)

lemma update_keys_ok:
  "update_keys fo (input_event m press) ticks is s = Inr (out, s') \<Longrightarrow> input_ok s \<Longrightarrow> input_ok s'"
proof (induction "is" arbitrary: s out)
  case (Cons i "is")
  show ?case
  proof (cases "key_event (commandBindings s ! i) (ticks (of_nat i))")
    case None
    with Cons show ?thesis by simp
  next
    case (Some cb)
    then obtain c b where cb: "key_event (commandBindings s ! i) (ticks (of_nat i)) = Some (c, b)"
      by (cases cb) auto
    let ?s = "s\<lparr>commandBindings := (commandBindings s)[i := b]\<rparr>"
    from Cons.prems(1) obtain r s1 out' where
      e: "ExecuteCommandVector fo (input_event m press) c True ?s = Inr (r, s1)"
      and u: "update_keys fo (input_event m press) ticks is s1 = Inr (out', s')"
      by (auto simp: cb rbind_Inr_iff)
    have "input_ok ?s" using Cons.prems(2) by (simp add: input_ok_def)
    then have "input_ok s1"
      using bindings_kept.command_kept [OF input_events_keep] e unfolding ExecuteCommandVector_def by blast
    with u show ?thesis by (rule Cons.IH)
  qed
qed simp

text \<open>What the settings menu of the engine may hand over: arrays of their full length, in which every slot is
  unset, a key with a name, or a mouse button with a name on an action that is no movement.\<close>

definition prefs_ok :: "BindingsPreferences \<Rightarrow> bool" where
  "prefs_ok p \<longleftrightarrow> length (PrefPrimaryKeys p) = eGameAction_KeyboardMouseCount
     \<and> length (PrefSecondaryKeys p) = eGameAction_KeyboardMouseCount
     \<and> length (PrefPrimaryMouseButtons p) = eGameAction_KeyboardMouseCount
     \<and> length (PrefSecondaryMouseButtons p) = eGameAction_KeyboardMouseCount
     \<and> list_all (\<lambda>a. slots_ok a (PrefPrimaryKeys p ! a, PrefPrimaryMouseButtons p ! a)
          (PrefSecondaryKeys p ! a, PrefSecondaryMouseButtons p ! a)) [0..<eGameAction_KeyboardMouseCount]"

text \<open>The states a run can reach from the constructor: scripts, from whatever source, updates of the
  keyboard, and the settings menu.\<close>

inductive input_reachable :: "FloatOps \<Rightarrow> (u32 \<Rightarrow> bool) \<Rightarrow> InputModule \<Rightarrow> (InputHandler, 'm) InputState_scheme \<Rightarrow> bool"
  for fo press m where
  constructed: "ModuleInput fo mem s0 = Inr (s, m, menu) \<Longrightarrow> input_reachable fo press m s"
| script: "input_reachable fo press m s \<Longrightarrow>
    ExecuteCommands fo (input_event m press) text user s = Inr (out, s') \<Longrightarrow> input_reachable fo press m s'"
| keys: "input_reachable fo press m s \<Longrightarrow>
    KeyboardUpdated fo (input_event m press) ticks s = Inr (lines, s') \<Longrightarrow> input_reachable fo press m s'"
| menu: "input_reachable fo press m s \<Longrightarrow> prefs_ok p \<Longrightarrow>
    PreferencesSetKeyBindingsHook fo (input_event m press) p s = Inr (out, s') \<Longrightarrow> input_reachable fo press m s'"

lemma prefs_kept:
  assumes "input_ok s" "prefs_ok p"
  shows "input_ok (set_bindings ((bindings s)
       \<lparr>PrimaryKeys := PrefPrimaryKeys p, PrimaryMouseButtons := PrefPrimaryMouseButtons p,
        SecondaryKeys := PrefSecondaryKeys p, SecondaryMouseButtons := PrefSecondaryMouseButtons p\<rparr>) s)"
proof (rule input_ok_set_bindings [OF _ _ assms(1)])
  have "table_slots_ok (bindings s)" using assms(1) by (simp add: input_ok_def bindings_okD(2))
  with assms(2) show "table_slots_ok ((bindings s)
       \<lparr>PrimaryKeys := PrefPrimaryKeys p, PrimaryMouseButtons := PrefPrimaryMouseButtons p,
        SecondaryKeys := PrefSecondaryKeys p, SecondaryMouseButtons := PrefSecondaryMouseButtons p\<rparr>)"
    by (simp add: table_slots_ok_def arrays_ok_def primary_slot_def secondary_slot_def prefs_ok_def)
qed simp

lemma reachable_input_ok: "input_reachable fo press m s \<Longrightarrow> input_ok s"
proof (induction rule: input_reachable.induct)
  case (constructed mem s0 s menu)
  then show ?case
    using LoadDefaultBindings_ok by (auto simp: ModuleInput_def rbind_Inr_iff input_ok_def default_commands_def)
next
  case (script s "text" user out s')
  then show ?case
    using bindings_kept.lines_kept [OF input_events_keep] unfolding ExecuteCommands_def by blast
next
  case (keys s ticks "lines" s')
  then show ?case using update_keys_ok unfolding KeyboardUpdated_def by blast
next
  case (menu s p out s')
  then show ?case
    using bindings_kept.command_kept [OF input_events_keep prefs_kept] unfolding PreferencesSetKeyBindingsHook_def by blast
qed

subsection \<open>Reading a line back\<close>

text \<open>The state of the splitter right after the last argument of a line.\<close>

definition ending :: "string list \<Rightarrow> ArgvState" where
  "ending toks = inside (butlast toks) (last toks) False"

lemma c_str_extra_nul: "c_str (xs @ [NUL]) = c_str xs"
  by (induction xs) (simp_all add: c_str_def)

lemma CommandLineToArgvA_ending:
  assumes "argv_scan line = ending toks" "toks \<noteq> []" "\<forall>t \<in> set toks. NUL \<notin> set t"
  shows "CommandLineToArgvA line = toks"
proof -
  obtain ts t where t: "toks = ts @ [t]" using assms(2) by (cases toks rule: rev_cases) auto
  have scan: "out_text (argv_scan line) @ [NUL] = token_text toks" "arg_starts (argv_scan line) = offsets toks"
    by (simp_all add: assms(1) ending_def inside_def t offsets_snoc token_text_def)
  have le: "i \<le> length (token_text toks)" if "i \<in> set (offsets toks)" for i
  proof -
    from that obtain n where n: "n < length toks" "i = length (token_text (take n toks))"
      by (auto simp: offsets_def token_text_def)
    have "token_text toks = token_text (take n toks) @ token_text (drop n toks)"
      by (simp add: token_text_def flip: concat_append map_append)
    then show ?thesis by (simp add: n(2))
  qed
  have "CommandLineToArgvA line = map (\<lambda>i. c_str (drop i (token_text toks))) (offsets toks)"
    unfolding CommandLineToArgvA_def Let_def scan ..
  also have "\<dots> = map (\<lambda>i. c_str (drop i (token_text toks @ [NUL]))) (offsets toks)"
    using le by (simp add: c_str_extra_nul)
  also have "\<dots> = toks" by (rule read_tokens [OF assms(3)])
  finally show ?thesis .
qed

lemma fold_quoted_args:
  assumes "toks \<noteq> []" "\<forall>n \<in> set args. CHR 0x22 \<notin> set n"
  shows "foldl argv_step (ending toks) (concat (map quoted_arg args)) = ending (toks @ args)"
  using assms
proof (induction args arbitrary: toks)
  case (Cons n args)
  have "argv_step (ending toks) (CHR '' '') = between toks"
    using Cons.prems(1) by (simp add: ending_def step_blank argv_blank_def)
  then have "foldl argv_step (ending toks) (quoted_arg n) = ending (toks @ [n])"
    using Cons.prems(2) by (simp add: quoted_arg_def step_open_quote fold_quoted step_close_quote ending_def)
  with Cons.IH [of "toks @ [n]"] Cons.prems(2) show ?case by simp
qed simp

lemma CommandLineToArgvA_quoted_args:
  assumes cmd: "cmd \<noteq> []" "\<forall>a \<in> set cmd. a \<noteq> CHR 0x22 \<and> a \<noteq> NUL \<and> \<not> argv_blank a"
    and args: "\<forall>n \<in> set args. CHR 0x22 \<notin> set n \<and> NUL \<notin> set n"
  shows "CommandLineToArgvA (cmd @ concat (map quoted_arg args)) = cmd # args"
proof (rule CommandLineToArgvA_ending)
  have "c_str (cmd @ concat (map quoted_arg args)) = cmd @ concat (map quoted_arg args)"
    using assms by (intro c_str_id) (auto simp: quoted_arg_def NUL_def)
  moreover have "foldl argv_step argv_init cmd = ending [cmd]"
    using cmd by (cases cmd) (simp_all add: argv_init_between step_plain fold_plain ending_def)
  ultimately show "argv_scan (cmd @ concat (map quoted_arg args)) = ending (cmd # args)"
    using fold_quoted_args [of "[cmd]" args] args by (simp add: argv_scan_def)
qed (use assms in auto)

lemma getlines_lines:
  assumes "\<forall>l \<in> set ls. delim \<notin> set l"
  shows "getlines delim [] (concat (map (\<lambda>l. l @ [delim]) ls)) = ls"
proof -
  have step: "getlines delim item (l @ delim # rest) = (rev item @ l) # getlines delim [] rest"
    if "delim \<notin> set l" for item l rest
    using that by (induction l arbitrary: item) auto
  show ?thesis using assms by (induction ls) (simp_all add: step)
qed

subsection \<open>Reading a name back\<close>

lemma name_in_table:
  assumes "table_ok pairs" "list_all (plain_name \<circ> fst) pairs" "named pairs v"
  shows "plain_name (name_of pairs v old)" "FindValueIgnoreCase (NameValueTable pairs) (name_of pairs v old) = Some v"
    "(name_of pairs v old, v) \<in> set pairs"
proof -
  obtain n where n: "(n, v) \<in> set pairs" "name_of pairs v old = n"
    "FindValueIgnoreCase (NameValueTable pairs) n = Some v"
    by (rule named_name [OF assms(1,3)])
  from n(1) assms(2) have "plain_name n" by (auto simp: list_all_iff)
  with n show "plain_name (name_of pairs v old)" "(name_of pairs v old, v) \<in> set pairs"
    "FindValueIgnoreCase (NameValueTable pairs) (name_of pairs v old) = Some v" by simp_all
qed

lemma ToLower_map: "ToLower n = map tolower n"
  by (simp add: ToLower_def)

lemma plain_nameD:
  assumes "plain_name n"
  shows "n \<noteq> []" "ToLower n \<noteq> ''none''" "CHR 0x22 \<notin> set n" "NUL \<notin> set n" "CHR 0x0A \<notin> set n"
  using assms by (auto simp: plain_name_def ToLower_map list_all_iff)

text \<open>The name of a slot is empty exactly for an unset slot, and parses to the slot otherwise.\<close>

lemma slot_name_parsed:
  assumes "slot_ok a (k, m)"
  shows "slot_name a k m = [] \<and> (k, m) = unset
    \<or> plain_name (slot_name a k m) \<and> (k, m) \<noteq> unset \<and> ParseKeyOrMouseButton (slot_name a k m) = Some (k, m)"
proof -
  from assms consider "k = eKeyCode_None" "m = eMouseButton_None"
    | "named keyCodes k" "m = eMouseButton_None"
    | "k = eKeyCode_None" "named mouseButtons m" "a < eGameAction_ControllerCount"
    by (auto simp: slot_ok_def)
  then show ?thesis
  proof cases
    case 1
    then show ?thesis by (simp add: slot_name_def)
  next
    case 2
    note n = name_in_table [OF keyCodes_ok plain_keys 2(1), of "[]"]
    have "k < eKeyCode_Count" using 2(1) code_bounds(4) by (auto simp: named_def list_all_iff)
    then show ?thesis
      using 2(2) n plain_nameD [OF n(1)] none_unnamed(1) 2(1)
      by (auto simp: slot_name_def ParseKeyOrMouseButton_def)
  next
    case 3
    let ?n = "name_of mouseButtons m []"
    note n = name_in_table [OF tables_ok(2) plain_tables(2) 3(2), of "[]"]
    have m: "m < eMouseButton_Count" using 3(2) code_bounds(2) by (auto simp: named_def list_all_iff)
    have "FindValueIgnoreCase (NameValueTable keyCodes) ?n \<noteq> Some k'" for k'
    proof
      assume "FindValueIgnoreCase (NameValueTable keyCodes) ?n = Some k'"
      then obtain q where "(q, k') \<in> set keyCodes" "map tolower q = map tolower ?n"
        using table_find(1) [OF keyCodes_ok] by blast
      then show False using mouse_not_key n(3) by (force simp: list_all_iff)
    qed
    then have "FindValueIgnoreCase (NameValueTable keyCodes) ?n = None" by auto
    moreover have "slot_name a k m = ?n" using 3 m by (simp add: slot_name_def)
    ultimately show ?thesis
      using 3(1,2) n plain_nameD [OF n(1)] none_unnamed(2) by (auto simp: ParseKeyOrMouseButton_def)
  qed
qed

subsection \<open>Executing the exported lines\<close>

text \<open>A plain command of the map that calls the handler \<open>h\<close>.\<close>

definition action_command :: "('h, 'm) MapState_scheme \<Rightarrow> string \<Rightarrow> 'h \<Rightarrow> bool" where
  "action_command s n h = (case FindCommand (Commands s) n of None \<Rightarrow> False
     | Some i \<Rightarrow> (let c = Commands s ! i in Type c = TypeCommand \<and> Flags c = 0 \<and> UpdateEvent c = Some h))"

definition word_name :: "string \<Rightarrow> bool" where
  "word_name n \<longleftrightarrow> n \<noteq> [] \<and> list_all (\<lambda>a. a \<noteq> CHR 0x22 \<and> a \<noteq> NUL \<and> \<not> argv_blank a) n"

lemma action_line:
  assumes "action_command s cmd h" "word_name cmd" "\<forall>n \<in> set args. plain_name n"
  shows "ExecuteCommandWithStatus fo disp (cmd @ concat (map quoted_arg args)) user s = disp h args '''' s"
proof -
  obtain i where i: "FindCommand (Commands s) cmd = Some i" "Type (Commands s ! i) = TypeCommand"
    "Flags (Commands s ! i) = 0" "UpdateEvent (Commands s ! i) = Some h"
    using assms(1) by (auto simp: action_command_def Let_def split: option.splits)
  have a: "CommandLineToArgvA (cmd @ concat (map quoted_arg args)) = cmd # args"
    using assms(2,3) plain_nameD by (intro CommandLineToArgvA_quoted_args) (auto simp: word_name_def list_all_iff)
  show ?thesis
    unfolding ExecuteCommandWithStatus_def a
    by (simp add: i has_flag_def host_only_blocked_def FlagsArgsNoParse_def call_event_def)
qed

definition put_bindings :: "BindingsTable \<Rightarrow> ('h, 'm) InputState_scheme \<Rightarrow> ('h, 'm) InputState_scheme" where
  "put_bindings b s = s\<lparr>bindings := b, engineBindings := b\<rparr>"

lemma put_bindings_simps [simp]:
  "bindings (put_bindings b s) = b" "Commands (put_bindings b s) = Commands s"
  "put_bindings b (put_bindings b' s) = put_bindings b s"
  "set_bindings b (put_bindings b' s) = put_bindings (UpdateBindings b) s"
  by (simp_all add: put_bindings_def set_bindings_def)

lemma action_command_put [simp]: "action_command (put_bindings b s) n h = action_command s n h"
  unfolding action_command_def put_bindings_simps ..

lemma put_bindings_same: "input_ok s \<Longrightarrow> put_bindings (bindings s) s = s"
  by (simp add: put_bindings_def input_ok_def)

definition present :: "string \<Rightarrow> string list" where
  "present n = (if n = [] then [] else [n])"

definition controller_args :: "BindingsTable \<Rightarrow> string \<times> GameAction \<Rightarrow> string list" where
  "controller_args b = (\<lambda>(n, a). n # present
     (if ControllerButtons b ! a < eControllerButton_Count then name_of controllerButtons (ControllerButtons b ! a) [] else []))"

definition keyboard_args :: "BindingsTable \<Rightarrow> string \<times> GameAction \<Rightarrow> string list" where
  "keyboard_args b = (\<lambda>(n, a). n # present (slot_name a (PrimaryKeys b ! a) (PrimaryMouseButtons b ! a))
     @ present (slot_name a (SecondaryKeys b ! a) (SecondaryMouseButtons b ! a)))"

lemma controller_line_args: "controller_line cmd b x = (cmd @ concat (map quoted_arg (controller_args b x))) @ [CHR 0x0A]"
  by (cases x) (simp add: controller_line_def controller_args_def present_def newline_text_def Let_def)

lemma keyboard_line_args: "keyboard_line cmd b x = (cmd @ concat (map quoted_arg (keyboard_args b x))) @ [CHR 0x0A]"
  by (cases x) (simp add: keyboard_line_def keyboard_args_def present_def newline_text_def Let_def)

lemma action_named:
  assumes "(n, a) \<in> set gameActions"
  shows "plain_name n" "FindValueIgnoreCase (NameValueTable gameActions) n = Some a" "a \<in> set action_codes"
proof -
  show "plain_name n" using assms plain_tables(3) by (auto simp: list_all_iff)
  show "FindValueIgnoreCase (NameValueTable gameActions) n = Some a"
    using table_find(1) [OF tables_ok(3)] assms by blast
  show "a \<in> set action_codes" using assms by (force simp: action_codes_def)
qed

text \<open>What a line restores.\<close>

definition restore_controller :: "BindingsTable \<Rightarrow> BindingsTable \<Rightarrow> string \<times> GameAction \<Rightarrow> BindingsTable" where
  "restore_controller b0 b = (\<lambda>(n, a). UpdateBindings
     (b\<lparr>ControllerButtons := (ControllerButtons b)[a := ControllerButtons b0 ! a]\<rparr>))"

text \<open>The text has no place for an empty primary slot, so a lone secondary slot is read back as the primary one.\<close>

definition restored_slots :: "BindingsTable \<Rightarrow> GameAction \<Rightarrow> (KeyCode \<times> MouseButton) \<times> (KeyCode \<times> MouseButton)" where
  "restored_slots b0 a = shift_slots (primary_slot b0 a) (secondary_slot b0 a)"

definition restore_keyboard :: "BindingsTable \<Rightarrow> BindingsTable \<Rightarrow> string \<times> GameAction \<Rightarrow> BindingsTable" where
  "restore_keyboard b0 b = (\<lambda>(n, a). case restored_slots b0 a of (p, q) \<Rightarrow> UpdateBindings
     (b\<lparr>PrimaryKeys := (PrimaryKeys b)[a := fst p],
       PrimaryMouseButtons := (PrimaryMouseButtons b)[a := snd p],
       SecondaryKeys := (SecondaryKeys b)[a := fst q],
       SecondaryMouseButtons := (SecondaryMouseButtons b)[a := snd q]\<rparr>))"

lemma button_parsed:
  assumes "button_ok c"
  defines "n \<equiv> if c < eControllerButton_Count then name_of controllerButtons c [] else []"
  shows "n = [] \<and> c = eControllerButton_None \<or> plain_name n \<and> ParseControllerButton n = Some c"
proof -
  from assms(1) consider "c = eControllerButton_None" | "named controllerButtons c" by (auto simp: button_ok_def)
  then show ?thesis
  proof cases
    case 2
    note t = name_in_table [OF tables_ok(1) plain_tables(1) 2, of "[]"]
    have "c < eControllerButton_Count" using 2 code_bounds(1) by (auto simp: named_def list_all_iff)
    then show ?thesis using t plain_nameD [OF t(1)] by (simp add: n_def ParseControllerButton_def)
  qed (simp add: n_def)
qed

lemma controller_line_executed:
  assumes b0: "bindings_ok b0" and x: "(n, a) \<in> set gameActions" "a < eGameAction_ControllerCount"
    and s: "action_command s cmd OnControllerAction" "word_name cmd" "arrays_ok b"
  obtains info where "ExecuteCommandWithStatus fo (input_event m press)
      (cmd @ concat (map quoted_arg (controller_args b0 (n, a)))) True (put_bindings b s)
    = Inr (True, info, put_bindings (restore_controller b0 b (n, a)) s)"
proof -
  let ?c = "ControllerButtons b0 ! a"
  let ?n = "if ?c < eControllerButton_Count then name_of controllerButtons ?c [] else []"
  note n = action_named [OF x(1)]
  have c: "button_ok ?c" using bindings_okD(5) [OF b0] x(2) by simp
  note p = button_parsed [OF c]
  have args: "\<forall>t \<in> set (controller_args b0 (n, a)). plain_name t"
    using n(1) p by (auto simp: controller_args_def present_def)
  have "CommandBindControllerAction (controller_args b0 (n, a)) '''' (put_bindings b s)
      = Inr (True, if ?c \<noteq> eControllerButton_None then ''Action binding set.'' else ''Action binding cleared.'',
          put_bindings (restore_controller b0 b (n, a)) s)"
    using p n(2) x(2) bind_controller_result [OF s(3) x(2), of ?c] plain_nameD(1) [of ?n]
    by (auto simp: CommandBindControllerAction_def controller_args_def present_def restore_controller_def)
  then show thesis
    using action_line [OF _ s(2) args, of "put_bindings b s" OnControllerAction] s(1) by (intro that) simp
qed

lemma keyboard_line_executed:
  assumes b0: "bindings_ok b0" and x: "(n, a) \<in> set gameActions"
    and s: "action_command s cmd OnKeyboardAction" "word_name cmd" "arrays_ok b"
  obtains info where "ExecuteCommandWithStatus fo (input_event m press)
      (cmd @ concat (map quoted_arg (keyboard_args b0 (n, a)))) True (put_bindings b s)
    = Inr (True, info, put_bindings (restore_keyboard b0 b (n, a)) s)"
proof -
  note n = action_named [OF x(1)]
  let ?p = "primary_slot b0 a" and ?q = "secondary_slot b0 a"
  have ok: "slots_ok a ?p ?q" using bindings_okD(4) [OF b0] action_codes_bounds(1) [OF n(3)] by simp
  have p: "slot_ok a (PrimaryKeys b0 ! a, PrimaryMouseButtons b0 ! a)"
    "slot_ok a (SecondaryKeys b0 ! a, SecondaryMouseButtons b0 ! a)"
    using ok by (simp_all add: slots_ok_def primary_slot_def secondary_slot_def)
  note pp = slot_name_parsed [OF p(1)] and pq = slot_name_parsed [OF p(2)]
  have args: "\<forall>t \<in> set (keyboard_args b0 (n, a)). plain_name t"
    using n(1) pp pq by (auto simp: keyboard_args_def present_def)
  obtain p' q' where r: "restored_slots b0 a = (p', q')" by (cases "restored_slots b0 a")
  have parse: "parse_slot (keyboard_args b0 (n, a)) 1 = Some p'" "parse_slot (keyboard_args b0 (n, a)) 2 = Some q'"
    using pp pq plain_nameD(1) r
    by (auto simp: keyboard_args_def present_def parse_slot_def restored_slots_def shift_slots_def
        primary_slot_def secondary_slot_def split: if_splits)
  have ok': "slots_ok a p' q'"
    using ok r shift_slots_ok unfolding restored_slots_def slots_ok_def by blast
  have mouse: "\<not> (eGameAction_ControllerCount \<le> a \<and> (snd p' \<noteq> eMouseButton_None \<or> snd q' \<noteq> eMouseButton_None))"
    using ok' by (auto simp: slots_ok_def slot_ok_def)
  have shift: "shift_slots p' q' = (p', q')"
    using r by (auto simp: restored_slots_def shift_slots_def split: if_splits)
  have len: "1 \<le> length (keyboard_args b0 (n, a))" "length (keyboard_args b0 (n, a)) \<le> 3"
    by (simp_all add: keyboard_args_def present_def)
  have hd: "hd (keyboard_args b0 (n, a)) = n" by (simp add: keyboard_args_def)
  have bound: "a < eGameAction_KeyboardMouseCount" using n(3) action_codes_bounds by blast
  have "CommandBindKeyboardAction (keyboard_args b0 (n, a)) '''' (put_bindings b s)
      = Inr (True, if p' \<noteq> unset then ''Action binding set.'' else ''Action binding cleared.'',
          put_bindings (restore_keyboard b0 b (n, a)) s)"
    unfolding CommandBindKeyboardAction_def hd n(2) parse shift
    using len mouse bind_keyboard_result [OF s(3) bound, of p' q']
    by (auto simp: restore_keyboard_def r shift)
  then show thesis
    using action_line [OF _ s(2) args, of "put_bindings b s" OnKeyboardAction] s(1) by (intro that) simp
qed

lemma lines_executed:
  assumes "\<And>x b. x \<in> set xs \<Longrightarrow> arrays_ok b \<Longrightarrow> \<exists>info. ExecuteCommandWithStatus fo disp (line x) user (put_bindings b s)
      = Inr (True, info, put_bindings (f b x) s) \<and> arrays_ok (f b x)"
    and "arrays_ok b"
  shows "execute_lines fo disp user k ss (map line xs @ rest) (put_bindings b s)
    = execute_lines fo disp user (k + length xs) ss rest (put_bindings (foldl f b xs) s) \<and> arrays_ok (foldl f b xs)"
  using assms
proof (induction xs arbitrary: b k)
  case (Cons x xs)
  obtain info where "ExecuteCommandWithStatus fo disp (line x) user (put_bindings b s)
      = Inr (True, info, put_bindings (f b x) s)" "arrays_ok (f b x)"
    using Cons.prems(1) [of x b] Cons.prems(2) by auto
  then show ?case using Cons.IH [of "f b x" "Suc k"] Cons.prems(1) by simp
qed simp

lemma restore_arrays:
  "arrays_ok (restore_controller b0 b x) = arrays_ok b" "arrays_ok (restore_keyboard b0 b x) = arrays_ok b"
proof -
  obtain n c where x: "x = (n, c)" by (cases x)
  show "arrays_ok (restore_controller b0 b x) = arrays_ok b"
    unfolding x restore_controller_def prod.case UpdateBindings_arrays by (simp add: arrays_ok_def)
  show "arrays_ok (restore_keyboard b0 b x) = arrays_ok b"
    by (cases "restored_slots b0 c") (simp add: x restore_keyboard_def UpdateBindings_arrays, simp add: arrays_ok_def)
qed

lemma restore_step:
  assumes "arrays_ok b" "a \<noteq> eGameActionVehicleExit" "a < eGameAction_KeyboardMouseCount"
  shows "a < eGameAction_ControllerCount \<Longrightarrow> ControllerButtons (restore_controller b0 b x) ! a
      = (if a = snd x then ControllerButtons b0 ! a else ControllerButtons b ! a)"
    "primary_slot (restore_controller b0 b x) a = primary_slot b a"
    "secondary_slot (restore_controller b0 b x) a = secondary_slot b a"
    "ControllerButtons (restore_keyboard b0 b x) ! a = ControllerButtons b ! a"
    "primary_slot (restore_keyboard b0 b x) a = (if a = snd x then fst (restored_slots b0 a) else primary_slot b a)"
    "secondary_slot (restore_keyboard b0 b x) a = (if a = snd x then snd (restored_slots b0 a) else secondary_slot b a)"
proof -
  obtain n c where x: "x = (n, c)" by (cases x)
  have len: "length (ControllerButtons b) = 59" "length (PrimaryKeys b) = 63" "length (SecondaryKeys b) = 63"
    "length (PrimaryMouseButtons b) = 63" "length (SecondaryMouseButtons b) = 63"
    using assms(1) by (simp_all add: arrays_ok_def)
  note f = UpdateBindings_fields [OF assms(2)]
  show "a < eGameAction_ControllerCount \<Longrightarrow> ControllerButtons (restore_controller b0 b x) ! a
      = (if a = snd x then ControllerButtons b0 ! a else ControllerButtons b ! a)"
    "ControllerButtons (restore_keyboard b0 b x) ! a = ControllerButtons b ! a"
    by (simp_all add: x restore_controller_def restore_keyboard_def f len nth_list_update split: prod.split)
  show "primary_slot (restore_controller b0 b x) a = primary_slot b a"
    "secondary_slot (restore_controller b0 b x) a = secondary_slot b a"
    unfolding x restore_controller_def prod.case f by (simp_all add: primary_slot_def secondary_slot_def)
  show "primary_slot (restore_keyboard b0 b x) a = (if a = snd x then fst (restored_slots b0 a) else primary_slot b a)"
    "secondary_slot (restore_keyboard b0 b x) a = (if a = snd x then snd (restored_slots b0 a) else secondary_slot b a)"
    unfolding x restore_keyboard_def prod.case case_prod_beta f
    using assms(3) by (simp_all add: primary_slot_def secondary_slot_def len nth_list_update)
qed

lemma restore_controllers:
  assumes "a \<noteq> eGameActionVehicleExit" "a < eGameAction_KeyboardMouseCount" "arrays_ok b"
  shows "a < eGameAction_ControllerCount \<longrightarrow> ControllerButtons (foldl (restore_controller b0) b xs) ! a
      = (if a \<in> snd ` set xs then ControllerButtons b0 ! a else ControllerButtons b ! a)"
    "primary_slot (foldl (restore_controller b0) b xs) a = primary_slot b a"
    "secondary_slot (foldl (restore_controller b0) b xs) a = secondary_slot b a"
  using assms by (induction xs arbitrary: b) (auto simp: restore_arrays restore_step)

lemma restore_keyboards:
  assumes "a \<noteq> eGameActionVehicleExit" "a < eGameAction_KeyboardMouseCount" "arrays_ok b"
  shows "ControllerButtons (foldl (restore_keyboard b0) b xs) ! a = ControllerButtons b ! a"
    "primary_slot (foldl (restore_keyboard b0) b xs) a = (if a \<in> snd ` set xs then fst (restored_slots b0 a) else primary_slot b a)"
    "secondary_slot (foldl (restore_keyboard b0) b xs) a = (if a \<in> snd ` set xs then snd (restored_slots b0 a) else secondary_slot b a)"
  using assms by (induction xs arbitrary: b) (auto simp: restore_arrays restore_step)

text \<open>The table binds every named action as the file says.\<close>

definition restored :: "BindingsTable \<Rightarrow> BindingsTable \<Rightarrow> bool" where
  "restored b b0 \<longleftrightarrow> list_all (\<lambda>a. (primary_slot b a, secondary_slot b a) = restored_slots b0 a
     \<and> (a < eGameAction_ControllerCount \<longrightarrow> ControllerButtons b ! a = ControllerButtons b0 ! a)) action_codes"

definition controller_actions :: "(string \<times> GameAction) list" where
  "controller_actions = filter (\<lambda>(_, action). action < eGameAction_ControllerCount) gameActions"

lemma foldl_restored:
  assumes "arrays_ok b"
  shows "restored (foldl (restore_keyboard b0) (foldl (restore_controller b0) b controller_actions) gameActions) b0"
proof -
  have "arrays_ok (foldl (restore_controller b0) b controller_actions)"
    using assms by (rule foldl_invariant) (simp add: restore_arrays)
  note k = restore_keyboards [OF _ _ this] and c = restore_controllers [OF _ _ assms]
  show ?thesis
    unfolding restored_def list_all_iff
  proof
    fix a assume a: "a \<in> set action_codes"
    then have "a \<in> snd ` set gameActions" "a < eGameAction_ControllerCount \<longrightarrow> a \<in> snd ` set controller_actions"
      by (force simp: action_codes_def controller_actions_def)+
    then show "(primary_slot (foldl (restore_keyboard b0) (foldl (restore_controller b0) b controller_actions) gameActions) a,
        secondary_slot (foldl (restore_keyboard b0) (foldl (restore_controller b0) b controller_actions) gameActions) a)
        = restored_slots b0 a
      \<and> (a < eGameAction_ControllerCount \<longrightarrow>
        ControllerButtons (foldl (restore_keyboard b0) (foldl (restore_controller b0) b controller_actions) gameActions) ! a
        = ControllerButtons b0 ! a)"
      using k [OF action_codes_bounds(2,1), OF a a] c [OF action_codes_bounds(2,1), OF a a] by simp
  qed
qed

definition exported_lines :: "string \<Rightarrow> string \<Rightarrow> BindingsTable \<Rightarrow> string list" where
  "exported_lines cc kc b = map (\<lambda>x. cc @ concat (map quoted_arg (controller_args b x))) controller_actions
     @ [[]] @ map (\<lambda>x. kc @ concat (map quoted_arg (keyboard_args b x))) gameActions"

lemma ExportBindings_lines:
  assumes "deref (ActionControllerCommand m) s = Inr cc" "deref (ActionKeyboardCommand m) s = Inr kc"
  shows "ExportBindings m s = Inr (concat (map (\<lambda>l. l @ [CHR 0x0A]) (exported_lines (Name cc) (Name kc) (bindings s))))"
proof -
  have "controller_line (Name cc) (bindings s) = (\<lambda>x. (Name cc @ concat (map quoted_arg (controller_args (bindings s) x))) @ [CHR 0x0A])"
    "keyboard_line (Name kc) (bindings s) = (\<lambda>x. (Name kc @ concat (map quoted_arg (keyboard_args (bindings s) x))) @ [CHR 0x0A])"
    by (intro ext controller_line_args keyboard_line_args)+
  then show ?thesis
    by (simp add: ExportBindings_def assms exported_lines_def controller_actions_def newline_text_def o_def)
qed

lemma quoted_args_no_newline:
  "\<forall>n \<in> set args. CHR 0x0A \<notin> set n \<Longrightarrow> CHR 0x0A \<notin> set (concat (map quoted_arg args))"
  by (induction args) (auto simp: quoted_arg_def)

lemma args_plain:
  assumes "bindings_ok b" "(n, a) \<in> set gameActions"
  shows "a < eGameAction_ControllerCount \<Longrightarrow> \<forall>t \<in> set (controller_args b (n, a)). plain_name t"
    "\<forall>t \<in> set (keyboard_args b (n, a)). plain_name t"
proof -
  note n = action_named [OF assms(2)]
  have ok: "slots_ok a (primary_slot b a) (secondary_slot b a)"
    "a < eGameAction_ControllerCount \<Longrightarrow> button_ok (ControllerButtons b ! a)"
    using bindings_okD(4,5) [OF assms(1)] action_codes_bounds(1) [OF n(3)] by simp_all
  show "\<forall>t \<in> set (keyboard_args b (n, a)). plain_name t"
    using n(1) ok(1) slot_name_parsed [of a "PrimaryKeys b ! a" "PrimaryMouseButtons b ! a"]
      slot_name_parsed [of a "SecondaryKeys b ! a" "SecondaryMouseButtons b ! a"]
    by (auto simp: keyboard_args_def present_def slots_ok_def primary_slot_def secondary_slot_def)
  show "a < eGameAction_ControllerCount \<Longrightarrow> \<forall>t \<in> set (controller_args b (n, a)). plain_name t"
    using n(1) button_parsed [OF ok(2)] by (auto simp: controller_args_def present_def)
qed

lemma exported_lines_no_newline:
  assumes "bindings_ok b" "word_name cc" "word_name kc" "l \<in> set (exported_lines cc kc b)"
  shows "CHR 0x0A \<notin> set l"
proof -
  have w: "CHR 0x0A \<notin> set cc" "CHR 0x0A \<notin> set kc"
    using assms(2,3) by (auto simp: word_name_def list_all_iff argv_blank_def)
  from assms(4) consider "l = []"
    | n a where "(n, a) \<in> set gameActions" "a < eGameAction_ControllerCount"
        "l = cc @ concat (map quoted_arg (controller_args b (n, a)))"
    | n a where "(n, a) \<in> set gameActions" "l = kc @ concat (map quoted_arg (keyboard_args b (n, a)))"
    by (auto simp: exported_lines_def controller_actions_def)
  then show ?thesis
  proof cases
    case (2 n a)
    have "CHR 0x0A \<notin> set (concat (map quoted_arg (controller_args b (n, a))))"
      using args_plain(1) [OF assms(1) 2(1,2)] plain_nameD(5) by (intro quoted_args_no_newline) blast
    then show ?thesis unfolding 2(3) set_append using w by blast
  next
    case (3 n a)
    have "CHR 0x0A \<notin> set (concat (map quoted_arg (keyboard_args b (n, a))))"
      using args_plain(2) [OF assms(1) 3(1)] plain_nameD(5) by (intro quoted_args_no_newline) blast
    then show ?thesis unfolding 3(2) set_append using w by blast
  qed simp
qed

lemma empty_line: "ExecuteCommandWithStatus fo disp [] user s = Inr (False, ''Invalid input'', s)"
  by (simp add: ExecuteCommandWithStatus_def CommandLineToArgvA_def argv_scan_def argv_init_def)

lemma exported_lines_executed:
  assumes b0: "bindings_ok b0" and s: "action_command s cc OnControllerAction" "action_command s kc OnKeyboardAction"
    and w: "word_name cc" "word_name kc" and b: "arrays_ok b"
  shows "execute_lines fo (input_event m press) True 0 [] (exported_lines cc kc b0) (put_bindings b s)
    = Inr (''Error at line '' @ dec (length controller_actions) @ endl,
        put_bindings (foldl (restore_keyboard b0) (foldl (restore_controller b0) b controller_actions) gameActions) s)"
proof -
  let ?d = "input_event m press"
  let ?b = "foldl (restore_controller b0) b controller_actions"
  have c: "\<exists>info. ExecuteCommandWithStatus fo ?d (cc @ concat (map quoted_arg (controller_args b0 x))) True (put_bindings b s)
      = Inr (True, info, put_bindings (restore_controller b0 b x) s) \<and> arrays_ok (restore_controller b0 b x)"
    if "x \<in> set controller_actions" "arrays_ok b" for x b
  proof -
    obtain n a where x: "x = (n, a)" by (cases x)
    then have "(n, a) \<in> set gameActions" "a < eGameAction_ControllerCount"
      using that(1) by (auto simp: controller_actions_def)
    from controller_line_executed [OF b0 this s(1) w(1) that(2)] that(2) show ?thesis
      unfolding x restore_arrays by metis
  qed
  have k: "\<exists>info. ExecuteCommandWithStatus fo ?d (kc @ concat (map quoted_arg (keyboard_args b0 x))) True (put_bindings b s)
      = Inr (True, info, put_bindings (restore_keyboard b0 b x) s) \<and> arrays_ok (restore_keyboard b0 b x)"
    if "x \<in> set gameActions" "arrays_ok b" for x b
  proof -
    obtain n a where x: "x = (n, a)" by (cases x)
    with that(1) have "(n, a) \<in> set gameActions" by simp
    from keyboard_line_executed [OF b0 this s(2) w(2) that(2)] that(2) show ?thesis
      unfolding x restore_arrays by metis
  qed
  have 1: "execute_lines fo ?d True 0 [] (exported_lines cc kc b0) (put_bindings b s)
      = execute_lines fo ?d True (length controller_actions) []
         ([[]] @ map (\<lambda>x. kc @ concat (map quoted_arg (keyboard_args b0 x))) gameActions) (put_bindings ?b s)
      \<and> arrays_ok ?b"
    unfolding exported_lines_def using lines_executed [where xs = controller_actions and k = 0 and f = "restore_controller b0", OF c b] by simp
  then have "arrays_ok ?b" ..
  note 2 = lines_executed [where xs = gameActions and rest = "[]" and f = "restore_keyboard b0", OF k this]
  show ?thesis using 1 2 by (simp add: empty_line)
qed

subsection \<open>Registration of the module\<close>

definition lower_name :: "string \<Rightarrow> string" where
  "lower_name n = map tolower (c_str n)"

text \<open>The keys of a list of commands: their names and short names in lower case.\<close>

definition keys_of :: "'h Command list \<Rightarrow> string list" where
  "keys_of cmds = concat (map (\<lambda>c. [lower_name (Name c), lower_name (ShortName c)]) cmds)"

lemma FindCommand_fresh: "lower_name n \<notin> set (keys_of cmds) \<Longrightarrow> FindCommand cmds n = None"
  by (auto simp: keys_of_def FindCommand_def find_index_None_iff command_matches_def stricmp_eq_def lower_name_def)

lemma AddCommand_fresh:
  "lower_name (Name c) \<notin> set (keys_of cmds) \<Longrightarrow> lower_name (ShortName c) \<notin> set (keys_of cmds) \<Longrightarrow>
     add_result cmds (AddCommand cmds c) = (cmds @ [c], Some (length cmds))"
  by (simp add: AddCommand_def add_result_def FindCommand_fresh)

lemma module_names:
  "Name (module_command mem mn n sn d f u t) = full_name mn n" "ShortName (module_command mem mn n sn d f u t) = sn"
  by (simp_all add: module_command_def new_command_def)

lemma input_names:
  "lower_name (full_name ''Input'' ''RawInput'') = ''input.rawinput''" "lower_name ''rawinput'' = ''rawinput''"
  "lower_name (full_name ''Input'' ''ControllerPort'') = ''input.controllerport''" "lower_name ''controllerport'' = ''controllerport''"
  "lower_name (full_name ''Input'' ''Bind'') = ''input.bind''" "lower_name ''bind'' = ''bind''"
  "lower_name (full_name ''Input'' ''UIButtonPress'') = ''input.uibuttonpress''" "lower_name ''ui_btn_press'' = ''ui_btn_press''"
  "lower_name (full_name ''Input'' ''ControllerAction'') = ''input.controlleraction''" "lower_name ''controller'' = ''controller''"
  "lower_name (full_name ''Input'' ''KeyboardAction'') = ''input.keyboardaction''" "lower_name ''keyboard'' = ''keyboard''"
  "lower_name (full_name ''Input'' ''DumpBindingsJson'') = ''input.dumpbindingsjson''"
  "lower_name ''dumpbindingsjson'' = ''dumpbindingsjson''"
  "lower_name (full_name ''Input'' ''ControllerSensitivityX'') = ''input.controllersensitivityx''" "lower_name ''xsens'' = ''xsens''"
  "lower_name (full_name ''Input'' ''ControllerSensitivityY'') = ''input.controllersensitivityy''" "lower_name ''ysens'' = ''ysens''"
  by code_simp+

lemma register_input_fresh: "is_ok (register_input fo mem [])"
  unfolding register_input_def ModuleAddVariableInt_def ModuleAddCommand_def ModuleAddVariableFloat_def
  by (simp add: AddCommand_fresh set_int_range_def module_names input_names keys_of_def nth_append)

subsection \<open>Properties of the bindings\<close>

text \<open>C18. Every state the program can reach, by scripts from whatever source, by key presses, and through the
  settings menu, has a bindings table in which all 63 actions, named or not, are bound to codes with a name or to
  nothing: arrays of their full length, no mouse button on a movement action, no button and key in
  one slot, sensitivities of at least one, the hold flags of the defaults, leaving a vehicle bound like the use of
  an item; and the engine has been given exactly this table. The settings menu of the engine is assumed to hand
  over such slots itself.\<close>

theorem reachable_bindings_ok:
  assumes "input_reachable fo press m s"
  shows "bindings_ok (bindings s) \<and> engineBindings s = bindings s
    \<and> length (commandBindings s) = unat eKeyCode_Count"
  using reachable_input_ok [OF assms] by (simp add: input_ok_def)

definition demo_input_command :: "string \<Rightarrow> InputHandler \<Rightarrow> InputHandler Command" where
  "demo_input_command n h = \<lparr>Name = n, ModuleName = '''', ShortName = '''', Description = '''', Flags = 0,
     Type = TypeCommand, UpdateEvent = Some h, ValueInt = 0, ValueInt64 = 0, ValueFloat = 0, ValueString = '''',
     DefaultValueInt = 0, DefaultValueInt64 = 0, DefaultValueFloat = 0, DefaultValueString = '''',
     ValueIntMin = 0, ValueIntMax = 0, ValueInt64Min = 0, ValueInt64Max = 0, ValueFloatMin = 0, ValueFloatMax = 0,
     CommandArgs = []\<rparr>"

definition demo_input :: "InputHandler Command list \<Rightarrow> BindingsTable \<Rightarrow> InputHandler InputState" where
  "demo_input cmds b = \<lparr>Commands = cmds, queuedCommands = [], GameHasMenuShown = True, ActiveSession = None,
     bindings = b, commandBindings = default_commands, engineBindings = b\<rparr>"

text \<open>The module constructed on an empty command map.\<close>

definition constructed_input :: "InputHandler InputState \<times> InputModule" where
  "constructed_input = (case ModuleInput demo_floats (demo_input_command '''' OnBind) (demo_input [] zero_bindings) of
     Inr (s, m, _) \<Rightarrow> (s, m)
   | Inl _ \<Rightarrow> (demo_input [] zero_bindings, \<lparr>VarInputRawInput = None, VarInputControllerPort = None,
        VarControllerSensitivityX = None, VarControllerSensitivityY = None,
        ActionControllerCommand = None, ActionKeyboardCommand = None\<rparr>))"

lemma constructed_reachable: "input_reachable demo_floats press (snd constructed_input) (fst constructed_input)"
proof -
  let ?r = "ModuleInput demo_floats (demo_input_command '''' OnBind) (demo_input [] zero_bindings)"
  obtain r where "register_input demo_floats (demo_input_command '''' OnBind) [] = Inr r"
    using register_input_fresh by (rule is_okE)
  then obtain s m menu where "?r = Inr (s, m, menu)"
    by (cases r) (simp add: ModuleInput_def demo_input_def)
  then show ?thesis
    using input_reachable.constructed [of demo_floats _ _ s m menu press] by (simp add: constructed_input_def)
qed

theorem reachable_bindings_ok_witness:
  "bindings_ok (bindings (fst constructed_input))
    \<and> engineBindings (fst constructed_input) = bindings (fst constructed_input)
    \<and> length (commandBindings (fst constructed_input)) = unat eKeyCode_Count"
  by (rule reachable_bindings_ok [OF constructed_reachable])

text \<open>C32. No binding command writes outside an array: in every reachable state the three commands that
  change bindings return, whatever their arguments.\<close>

theorem bind_commands_in_bounds:
  assumes "input_reachable fo press m s"
  shows "is_ok (CommandBind args info s) \<and> is_ok (CommandBindControllerAction args info s)
    \<and> is_ok (CommandBindKeyboardAction args info s)"
proof -
  have ok: "is_ok r" if "handled r" for r :: "(bool \<times> string \<times> (InputHandler, 'a) InputState_scheme) res"
    using that by (auto simp: handled_def split: sum.splits)
  note s = reachable_input_ok [OF assms]
  show ?thesis
    using CommandBind_ok [OF s] CommandBindControllerAction_ok [OF s] CommandBindKeyboardAction_ok [OF s]
    by (auto intro: ok)
qed

theorem bind_commands_in_bounds_witness:
  "is_ok (CommandBind [''forward'', ''W''] '''' (fst constructed_input))
    \<and> is_ok (CommandBindControllerAction [''forward'', ''W''] '''' (fst constructed_input))
    \<and> is_ok (CommandBindKeyboardAction [''forward'', ''W''] '''' (fst constructed_input))"
  by (rule bind_commands_in_bounds [OF constructed_reachable])

lemma exported_count: "length controller_actions = 27" "dec 27 = ''27''"
  by code_simp+

text \<open>C13. The bindings saved with the configuration are restored when the file is executed: whatever
  table the reading state has, after it every action that has a name is bound as it was when the
  file was written, except that a secondary slot without a primary one becomes the primary slot; leaving a
  vehicle is bound like the use of an item, and the engine has been given the table. The other actions are not
  in the file and keep the bindings of the reading state. Both states are as every reachable state is (C18),
  and the two commands of the file are registered under names without blanks and quotes. The empty line between the two
  halves of the text is reported as an error of line 27.\<close>

theorem exported_bindings_restored:
  assumes "input_ok s0" "deref (ActionControllerCommand m0) s0 = Inr cc" "deref (ActionKeyboardCommand m0) s0 = Inr kc"
    and "word_name (Name cc)" "word_name (Name kc)" "input_ok s"
    and "action_command s (Name cc) OnControllerAction" "action_command s (Name kc) OnKeyboardAction"
  shows "\<exists>file s'. ExportBindings m0 s0 = Inr file
    \<and> ExecuteCommands fo (input_event m press) file True s = Inr (''Error at line 27'' @ endl, s')
    \<and> restored (bindings s') (bindings s0) \<and> exit_copies_use (bindings s')
    \<and> engineBindings s' = bindings s' \<and> Commands s' = Commands s"
proof -
  let ?b = "foldl (restore_keyboard (bindings s0)) (foldl (restore_controller (bindings s0)) (bindings s) controller_actions) gameActions"
  let ?ls = "exported_lines (Name cc) (Name kc) (bindings s0)"
  have b0: "bindings_ok (bindings s0)" and b: "arrays_ok (bindings s)"
    using assms(1,6) bindings_okD(1) by (auto simp: input_ok_def)
  have "getlines (CHR 0x0A) [] (concat (map (\<lambda>l. l @ [CHR 0x0A]) ?ls)) = ?ls"
    using exported_lines_no_newline [OF b0 assms(4,5)] by (intro getlines_lines) blast
  with exported_lines_executed [OF b0 assms(7,8,4,5) b, of fo m press]
  have e: "ExecuteCommands fo (input_event m press) (concat (map (\<lambda>l. l @ [CHR 0x0A]) ?ls)) True s
      = Inr (''Error at line 27'' @ endl, put_bindings ?b s)"
    by (simp add: ExecuteCommands_def put_bindings_same [OF assms(6)] exported_count)
  then have "input_ok (put_bindings ?b s)"
    using bindings_kept.lines_kept [OF input_events_keep assms(6)] unfolding ExecuteCommands_def by blast
  then have "exit_copies_use ?b" by (simp add: input_ok_def bindings_ok_def)
  moreover have "engineBindings (put_bindings ?b s) = ?b" by (simp add: put_bindings_def)
  ultimately show ?thesis
    using e ExportBindings_lines [OF assms(2,3)] foldl_restored [OF b, of "bindings s0"] by simp
qed

text \<open>The table in which nothing is bound.\<close>

definition nothing_bound :: BindingsTable where
  "nothing_bound = UpdateBindings (foldl unbind LoadDefaultBindings [0..<eGameAction_KeyboardMouseCount])"

lemma nothing_bound_ok: "bindings_ok nothing_bound"
proof -
  let ?b = "foldl unbind LoadDefaultBindings [0..<eGameAction_KeyboardMouseCount]"
  have hold: "ControllerHoldButtons (foldl unbind b is) = ControllerHoldButtons b" for b "is"
    by (induction "is" arbitrary: b) (simp_all add: unbind_def)
  have d: "table_slots_ok LoadDefaultBindings" by (rule bindings_okD(2) [OF LoadDefaultBindings_ok])
  then have "arrays_ok LoadDefaultBindings" by (simp add: table_slots_ok_def)
  note f = foldl_unbind [OF this order_refl]
  have none: "slots_ok a unset unset" "button_ok eControllerButton_None" for a
    by (simp_all add: slots_ok_def slot_ok_def button_ok_def)
  have "button_ok (ControllerButtons ?b ! a)" if "a < eGameAction_ControllerCount" for a
    using f that none(2) by simp
  then have "list_all button_ok (ControllerButtons ?b)"
    using f by (simp add: list_all_length arrays_ok_def)
  with d f none(1) have "table_slots_ok ?b"
    by (simp add: table_slots_ok_def list_all_iff [of _ "[0..<63]"])
  with hold show ?thesis unfolding nothing_bound_def by (intro bindings_ok_update)
qed

lemma demo_input_ok: "bindings_ok b \<Longrightarrow> input_ok (demo_input cmds b)"
  by (simp add: input_ok_def demo_input_def default_commands_def)

theorem exported_bindings_restored_witness:
  "\<exists>file s'. ExportBindings \<lparr>VarInputRawInput = None, VarInputControllerPort = None,
        VarControllerSensitivityX = None, VarControllerSensitivityY = None,
        ActionControllerCommand = Some 0, ActionKeyboardCommand = Some 1\<rparr>
      (demo_input [demo_input_command ''a'' OnControllerAction, demo_input_command ''b'' OnKeyboardAction]
        LoadDefaultBindings) = Inr file
    \<and> ExecuteCommands demo_floats (input_event \<lparr>VarInputRawInput = None, VarInputControllerPort = None,
        VarControllerSensitivityX = None, VarControllerSensitivityY = None,
        ActionControllerCommand = Some 0, ActionKeyboardCommand = Some 1\<rparr> (\<lambda>_. True)) file True
      (demo_input [demo_input_command ''a'' OnControllerAction, demo_input_command ''b'' OnKeyboardAction]
        nothing_bound) = Inr (''Error at line 27'' @ endl, s')
    \<and> restored (bindings s') (bindings (demo_input [demo_input_command ''a'' OnControllerAction,
        demo_input_command ''b'' OnKeyboardAction] LoadDefaultBindings))
    \<and> exit_copies_use (bindings s')
    \<and> engineBindings s' = bindings s' \<and> Commands s' = Commands (demo_input
        [demo_input_command ''a'' OnControllerAction, demo_input_command ''b'' OnKeyboardAction] nothing_bound)"
  by (rule exported_bindings_restored [where cc = "demo_input_command ''a'' OnControllerAction"
        and kc = "demo_input_command ''b'' OnKeyboardAction"])
    (simp_all add: demo_input_ok LoadDefaultBindings_ok nothing_bound_ok,
      simp_all add: deref_def demo_input_def demo_input_command_def word_name_def NUL_def argv_blank_def
        action_command_def FindCommand_def command_matches_def stricmp_eq_def c_str_def tolower_def isupper_def ord_of_def)

end
