(* ===== verification/KeyCommands.thy ===== *)
theory KeyCommands
  imports BindingsFile
begin

text \<open>
  Commands bound to keys over time: what a hold binding sends for a sequence of readings of its key,
  and what is left of it when the key is bound again while it is down.
\<close>

subsection \<open>A key over time\<close>

text \<open>The commands one key executes for the readings of successive updates, and its binding at the end.\<close>

fun key_run :: "CommandBinding \<Rightarrow> u8 list \<Rightarrow> string list list \<times> CommandBinding" where
  "key_run b [] = ([], b)"
| "key_run b (t # ts) = (case key_event b t of
     None \<Rightarrow> key_run b ts
   | Some (command, b') \<Rightarrow> (case key_run b' ts of (commands, b'') \<Rightarrow> (command # commands, b'')))"

text \<open>Between two readings of a fresh press the key is seen released.\<close>

fun presses_apart :: "bool \<Rightarrow> u8 list \<Rightarrow> bool" where
  "presses_apart down [] = True"
| "presses_apart down (t # ts) = (if t = 1 then \<not> down \<and> presses_apart True ts
     else if t = 0 then presses_apart False ts else presses_apart down ts)"

definition hold_argument :: "bool \<Rightarrow> string" where
  "hold_argument down = (if down then ''1'' else ''0'')"

text \<open>\<open>n\<close> commands that alternate, the first one announcing \<open>down\<close>.\<close>

fun alternating :: "string list \<Rightarrow> bool \<Rightarrow> nat \<Rightarrow> string list list" where
  "alternating c down 0 = []"
| "alternating c down (Suc n) = (c @ [hold_argument down]) # alternating c (\<not> down) n"

lemma key_event_hold:
  assumes "isHold b" "bound_command b \<noteq> []"
  shows "key_event b t = (if t = 1 then Some (bound_command b @ [''1''], b\<lparr>hold_active := True\<rparr>)
    else if t = 0 \<and> hold_active b then Some (bound_command b @ [''0''], b\<lparr>hold_active := False\<rparr>) else None)"
proof -
  have "1 < t \<longleftrightarrow> t \<noteq> 0 \<and> t \<noteq> 1" by (metis word_gt_0 word_less_1 linorder_neqE less_irrefl less_asym)
  then show ?thesis using assms by (auto simp: key_event_def)
qed

lemma key_run_alternates:
  assumes "isHold b" "bound_command b \<noteq> []" "presses_apart (hold_active b) ts"
  shows "fst (key_run b ts) = alternating (bound_command b) (\<not> hold_active b) (length (fst (key_run b ts)))
    \<and> hold_active (snd (key_run b ts)) = (hold_active b = even (length (fst (key_run b ts))))"
  using assms
proof (induction ts arbitrary: b)
  case (Cons t ts)
  note e = key_event_hold [OF Cons.prems(1,2), of t]
  show ?case
  proof (cases "t = 1 \<or> t = 0 \<and> hold_active b")
    case True
    then have "key_event b t = Some (bound_command b @ [hold_argument (t = 1)], b\<lparr>hold_active := (t = 1)\<rparr>)"
      and "hold_active b = (t \<noteq> 1)" "presses_apart (t = 1) ts"
      using e Cons.prems(3) by (auto simp: hold_argument_def split: if_splits)
    with Cons.IH [of "b\<lparr>hold_active := (t = 1)\<rparr>"] Cons.prems show ?thesis
      by (auto split: prod.split)
  next
    case False
    with e have "key_event b t = None" by auto
    moreover have "presses_apart (hold_active b) ts"
      using False Cons.prems(3) by (auto split: if_splits)
    ultimately show ?thesis using Cons.IH [of b] Cons.prems by simp
  qed
qed simp

text \<open>Whether the key is down after some readings: one press reads 1, then more, and a released key reads 0.\<close>

definition key_down :: "bool \<Rightarrow> u8 list \<Rightarrow> bool" where
  "key_down down ts = foldl (\<lambda>down t. if t = 1 then True else if t = 0 then False else down) down ts"

lemma key_down_simps [simp]:
  "key_down down [] = down"
  "key_down down (t # ts) = key_down (if t = 1 then True else if t = 0 then False else down) ts"
  by (simp_all add: key_down_def)

lemma key_run_counts:
  assumes "isHold b" "bound_command b \<noteq> []" "presses_apart (hold_active b) ts"
  shows "length (fst (key_run b ts)) + of_bool (key_down (hold_active b) ts) = 2 * count_list ts 1 + of_bool (hold_active b)
    \<and> hold_active (snd (key_run b ts)) = key_down (hold_active b) ts"
  using assms
proof (induction ts arbitrary: b)
  case (Cons t ts)
  note e = key_event_hold [OF Cons.prems(1,2), of t]
  consider (press) "t = 1" | (release) "t = 0" "hold_active b" | (other) "t \<noteq> 1" "\<not> (t = 0 \<and> hold_active b)" by blast
  then show ?case
  proof cases
    case press
    then show ?thesis using e Cons.IH [of "b\<lparr>hold_active := True\<rparr>"] Cons.prems by (auto split: prod.split if_splits)
  next
    case release
    then show ?thesis using e Cons.IH [of "b\<lparr>hold_active := False\<rparr>"] Cons.prems by (auto split: prod.split if_splits)
  next
    case other
    then have "key_event b t = None" "presses_apart (hold_active b) ts"
      "key_down (hold_active b) (t # ts) = key_down (hold_active b) ts"
      using e Cons.prems(3) by (auto split: if_splits)
    then show ?thesis using other(1) Cons.IH [of b] Cons.prems(1,2) by simp
  qed
qed simp

subsection \<open>Properties of key commands\<close>

text \<open>C30. A command bound with a plus sign is told of every press and every release in turn, starting with a
  press: whatever the readings of the key, as long as it is seen released between two fresh presses, the
  commands executed alternate between the arguments 1 and 0, there are two for every press, or one less while
  the key is still down at the end, and the binding is active exactly when the key is down.\<close>

theorem hold_command_alternates:
  assumes "isHold b" "bound_command b \<noteq> []" "\<not> hold_active b" "presses_apart False ts"
  shows "fst (key_run b ts) = alternating (bound_command b) True (2 * count_list ts 1 - (if key_down False ts then 1 else 0))
    \<and> hold_active (snd (key_run b ts)) = key_down False ts"
proof -
  have p: "presses_apart (hold_active b) ts" using assms(3,4) by simp
  have "length (fst (key_run b ts)) = 2 * count_list ts 1 - (if key_down False ts then 1 else 0)"
    using key_run_counts [OF assms(1,2) p] assms(3) by (auto split: if_splits)
  with key_run_alternates [OF assms(1,2) p] key_run_counts [OF assms(1,2) p] assms(3) show ?thesis by simp
qed

theorem hold_command_alternates_witness:
  "fst (key_run \<lparr>bound_command = [''fly''], isHold = True, hold_active = False\<rparr> [1, 2, 3, 0, 0, 1, 2])
     = [[''fly'', ''1''], [''fly'', ''0''], [''fly'', ''1'']]
   \<and> hold_active (snd (key_run \<lparr>bound_command = [''fly''], isHold = True, hold_active = False\<rparr> [1, 2, 3, 0, 0, 1, 2]))"
  using hold_command_alternates [of "\<lparr>bound_command = [''fly''], isHold = True, hold_active = False\<rparr>" "[1, 2, 3, 0, 0, 1, 2]"]
  by (simp add: key_down_def hold_argument_def numeral_3_eq_3)

text \<open>C40. Binding a key again while it holds a command down forgets the command without releasing it:
  \<open>CommandBind\<close> leaves the binding active, so when the key goes up the new command is told of a release
  it never had a press for, and the old command stays pressed.\<close>

theorem rebound_key_releases_new_command:
  assumes "FindValueIgnoreCase (NameValueTable keyCodes) key = Some k" "unat k < length (commandBindings s)"
    and "hold_active (commandBindings s ! unat k)" "readings \<in> lists {t. 1 < t}"
  shows "\<exists>info s'. CommandBind (key # (CHR ''+'' # new) # args) out s = Inr (True, info, s')
    \<and> fst (key_run (commandBindings s' ! unat k) (readings @ [0])) = [new # args @ [''0'']]"
proof -
  let ?b = "(commandBindings s ! unat k)\<lparr>isHold := True, bound_command := new # args\<rparr>"
  have "key_event ?b t = None" if "1 < t" for t
    using that by (simp add: key_event_def)
  then have "fst (key_run ?b (readings @ [0])) = fst (key_run ?b [0])"
    using assms(4) by (induction readings) auto
  also have "\<dots> = [new # args @ [''0'']]"
    using assms(3) by (simp add: key_event_def)
  finally show ?thesis
    using assms(1,2) by (simp add: CommandBind_def write_at_Inr Let_def)
qed

lemma key_named_H: "FindValueIgnoreCase (NameValueTable keyCodes) ''h'' = Some eKeyCodeH"
proof -
  have "(''H'', eKeyCodeH) \<in> set keyCodes" by (simp add: keyCodes_def)
  moreover have "map tolower ''H'' = map tolower ''h''" by code_simp
  ultimately show ?thesis using table_find(1) [OF keyCodes_ok] by blast
qed

theorem rebound_key_releases_new_command_witness:
  "\<exists>info s'. CommandBind [''h'', ''+zoom''] ''''
      ((demo_input [] zero_bindings)\<lparr>commandBindings := replicate 109 \<lparr>bound_command = [''fly''], isHold = True, hold_active = True\<rparr>\<rparr>)
      = Inr (True, info, s')
    \<and> fst (key_run (commandBindings s' ! unat eKeyCodeH) ([2, 3] @ [0])) = [[''zoom'', ''0'']]"
proof -
  have "[2, 3] \<in> lists {t::u8. 1 < t}" by simp
  then show ?thesis
    using rebound_key_releases_new_command [OF key_named_H, of "(demo_input [] zero_bindings)\<lparr>commandBindings :=
        replicate 109 \<lparr>bound_command = [''fly''], isHold = True, hold_active = True\<rparr>\<rparr>" "[2, 3]" "''zoom''" "[]" "''''"]
    by simp
qed

end
