(* ===== verification/InputContext.thy ===== *)
theory InputContext
  imports Prelude
begin

text \<open>
  \<open>Patches/Input.cpp\<close>: the stack of input contexts that replace the game's input while one is active, and
  \<open>Web/Ui/ScreenLayer.cpp\<close>, the overlay that captures the input with them. A context is an identifier;
  its callbacks are parameters that may change the whole state. The engine's block flags, one for
  each input type, are a field of the state: \<open>BlockInput\<close> sets one of them, the two quick routines all.
\<close>

subsection \<open>The stack\<close>

record 'c InputStack =
  contextStack :: "'c list"
  contextDone :: bool
  blockStates :: "bool list"
  blockedInput :: "bool list"

record ('c, 's) ContextOps =
  Activated :: "'c \<Rightarrow> 's \<Rightarrow> 's"
  Deactivated :: "'c \<Rightarrow> 's \<Rightarrow> 's"
  GameInputTick :: "'c \<Rightarrow> 's \<Rightarrow> bool \<times> 's"
  UiInputTick :: "'c \<Rightarrow> 's \<Rightarrow> bool \<times> 's"

definition InputType_Count :: nat where "InputType_Count = 3"

type_synonym ('c, 'm) stack_ops = "('c, ('c, 'm) InputStack_scheme) ContextOps"

definition PushContext :: "('c, 'm) stack_ops \<Rightarrow> 'c \<Rightarrow> ('c, 'm) InputStack_scheme \<Rightarrow> ('c, 'm) InputStack_scheme" where
  "PushContext ops context s =
     (let s1 = (case contextStack s of
          [] \<Rightarrow> s\<lparr>blockedInput := replicate InputType_Count True\<rparr>
        | active # _ \<Rightarrow> Deactivated ops active s) in
      Activated ops context (s1\<lparr>contextStack := context # contextStack s1\<rparr>))"

text \<open>\<open>top\<close> and \<open>pop\<close> of an empty stack are undefined.\<close>

definition PopContext :: "('c, 'm) stack_ops \<Rightarrow> ('c, 'm) InputStack_scheme \<Rightarrow> ('c, 'm) InputStack_scheme res" where
  "PopContext ops s = (case contextStack s of
     [] \<Rightarrow> Inl Undefined
   | active # _ \<Rightarrow>
       (let s1 = Deactivated ops active s in
        case contextStack s1 of
          [] \<Rightarrow> Inl Undefined
        | _ # rest \<Rightarrow> (let s2 = s1\<lparr>contextStack := rest\<rparr> in
            Inr (case rest of
                [] \<Rightarrow> s2\<lparr>blockedInput := blockStates s2\<rparr>
              | previous # _ \<Rightarrow> Activated ops previous s2))))"

definition QuickBlockInput :: "('c, 'm) InputStack_scheme \<Rightarrow> ('c, 'm) InputStack_scheme" where
  "QuickBlockInput s = s\<lparr>blockedInput := replicate InputType_Count True\<rparr>"

definition QuickUnblockInput :: "('c, 'm) InputStack_scheme \<Rightarrow> ('c, 'm) InputStack_scheme" where
  "QuickUnblockInput s = s\<lparr>blockedInput := replicate InputType_Count False\<rparr>"

text \<open>Ticking the active context, in the two routines below.\<close>

definition tick_top :: "('c \<Rightarrow> ('c, 'm) InputStack_scheme \<Rightarrow> bool \<times> ('c, 'm) InputStack_scheme)
    \<Rightarrow> ('c, 'm) InputStack_scheme \<Rightarrow> ('c, 'm) InputStack_scheme" where
  "tick_top tick s =
     (let (ok, s1) = tick (hd (contextStack s)) (QuickUnblockInput s) in
      QuickBlockInput (if ok then s1 else s1\<lparr>contextDone := True\<rparr>))"

definition UpdateInputHook :: "('c, 'm) stack_ops \<Rightarrow> (('c, 'm) InputStack_scheme \<Rightarrow> ('c, 'm) InputStack_scheme) list
    \<Rightarrow> ('c, 'm) InputStack_scheme \<Rightarrow> ('c, 'm) InputStack_scheme res" where
  "UpdateInputHook ops defaultHandlers s =
     rbind (if contextDone s then rbind (PopContext ops s) (\<lambda>s1. Inr (s1\<lparr>contextDone := False\<rparr>)) else Inr s)
       (\<lambda>s1. Inr (if contextStack s1 \<noteq> [] then tick_top (GameInputTick ops) s1
                  else foldl (\<lambda>s handler. handler s) s1 defaultHandlers))"

definition UiTick :: "('c, 'm) stack_ops \<Rightarrow> ('c, 'm) InputStack_scheme \<Rightarrow> ('c, 'm) InputStack_scheme" where
  "UiTick ops s = (if contextStack s = [] then s else tick_top (UiInputTick ops) s)"

definition BlockInputHook :: "nat \<Rightarrow> bool \<Rightarrow> ('c, 'm) InputStack_scheme \<Rightarrow> ('c, 'm) InputStack_scheme" where
  "BlockInputHook type blocked s =
     (let s1 = (if contextStack s = [] then s\<lparr>blockedInput := (blockedInput s)[type := blocked]\<rparr> else s) in
      s1\<lparr>blockStates := (blockStates s1)[type := blocked]\<rparr>)"

text \<open>\<open>val\<close> is what the engine's routine answers for the configured port.\<close>

definition GetControllerStateHook :: "8 word \<Rightarrow> ('c, 'm) InputStack_scheme \<Rightarrow> 8 word" where
  "GetControllerStateHook val s = (if contextStack s = [] then val else 0)"

subsection \<open>The overlay\<close>

text \<open>\<open>Web/Ui/ScreenLayer.cpp\<close>. All its contexts are alike. What it asks of the renderer is recorded; the
  renderer's state is a field the renderer changes.\<close>

datatype ScreenEffect =
    ShowedRenderer bool
  | RanJavascript string
  | ClearedCache
  | Reloaded
  | OpenedDebugger

record 'c OverlayState = "'c InputStack" +
  InputCaptured :: bool
  IsRendering :: bool
  WebDebugging :: bool
  screen_effects :: "ScreenEffect list"

definition screen_effect :: "ScreenEffect \<Rightarrow> ('c, 'm) OverlayState_scheme \<Rightarrow> ('c, 'm) OverlayState_scheme" where
  "screen_effect e s = s\<lparr>screen_effects := screen_effects s @ [e]\<rparr>"

definition ShowLayer :: "bool \<Rightarrow> ('c, 'm) OverlayState_scheme \<Rightarrow> ('c, 'm) OverlayState_scheme" where
  "ShowLayer visible s = (if visible = IsRendering s then s else screen_effect (ShowedRenderer visible) s)"

definition ShowScreen :: "string \<Rightarrow> string \<Rightarrow> ('c, 'm) OverlayState_scheme \<Rightarrow> ('c, 'm) OverlayState_scheme" where
  "ShowScreen screenId data = screen_effect (RanJavascript
     (''if (window.ui) ui.requestScreen('' @ [CHR 0x27] @ screenId @ [CHR 0x27] @ '', '' @ data @ '');''))"

definition HideScreen :: "string \<Rightarrow> ('c, 'm) OverlayState_scheme \<Rightarrow> ('c, 'm) OverlayState_scheme" where
  "HideScreen screenId = screen_effect (RanJavascript
     (''if (window.ui) ui.hideScreen('' @ [CHR 0x27] @ screenId @ [CHR 0x27] @ '');''))"

definition NotifyScreen :: "string \<Rightarrow> string \<Rightarrow> bool \<Rightarrow> ('c, 'm) OverlayState_scheme \<Rightarrow> ('c, 'm) OverlayState_scheme" where
  "NotifyScreen event data broadcast = screen_effect (RanJavascript
     (''if (window.ui) ui.notify('' @ [CHR 0x27] @ event @ [CHR 0x27] @ '','' @ data @ '',''
      @ (if broadcast then ''true'' else ''false'') @ '',true);''))"

text \<open>The debug keys; \<open>pressed n\<close> tells whether key F\<open>n\<close> was just pressed. Releasing the input is inlined
  from \<open>CaptureInput\<close>, which does nothing else for \<open>False\<close>.\<close>

definition release_input :: "('c, 'm) OverlayState_scheme \<Rightarrow> ('c, 'm) OverlayState_scheme" where
  "release_input s = s\<lparr>InputCaptured := False\<rparr>"

definition OnGameInputUpdated :: "(nat \<Rightarrow> bool) \<Rightarrow> ('c, 'm) OverlayState_scheme \<Rightarrow> ('c, 'm) OverlayState_scheme" where
  "OnGameInputUpdated pressed s =
     (if \<not> WebDebugging s then s
      else (let s1 = (if pressed 5 then screen_effect (RanJavascript ''ui.reload();'') (screen_effect ClearedCache s) else s);
                s2 = (if pressed 6 then release_input (screen_effect Reloaded s1) else s1) in
            if pressed 7 then screen_effect OpenedDebugger s2 else s2))"

definition stop_unless_rendering :: "('c, 'm) OverlayState_scheme \<Rightarrow> ('c, 'm) OverlayState_scheme" where
  "stop_unless_rendering s = (if IsRendering s then s else release_input s)"

definition WebOverlayInputContext :: "(nat \<Rightarrow> bool) \<Rightarrow> (unit, 'm OverlayState_ext) stack_ops" where
  "WebOverlayInputContext pressed = \<lparr>Activated = (\<lambda>_ s. s), Deactivated = (\<lambda>_ s. s),
     GameInputTick = (\<lambda>_ s. let s1 = stop_unless_rendering (OnGameInputUpdated pressed s) in (InputCaptured s1, s1)),
     UiInputTick = (\<lambda>_ s. let s1 = stop_unless_rendering s in (InputCaptured s1, s1))\<rparr>"

definition CaptureInput :: "bool \<Rightarrow> (unit, 'm) OverlayState_scheme \<Rightarrow> (unit, 'm) OverlayState_scheme" where
  "CaptureInput capture s =
     (if InputCaptured s = capture \<or> (capture \<and> \<not> IsRendering s) then s
      else (let s1 = s\<lparr>InputCaptured := capture\<rparr> in
            if capture then PushContext (WebOverlayInputContext (\<lambda>_. False)) () s1 else s1))"

subsection \<open>Runs\<close>

text \<open>What happens to the overlay: a page asks for the input or gives it back, the renderer is shown or
  hidden, the game updates its input (with the debug keys that were just pressed), Windows messages are
  pumped, and the game blocks or unblocks a type of input.\<close>

datatype OverlayEvent =
    PageCaptures bool
  | RendererShown bool
  | GameUpdates "nat list"
  | MessagesPumped
  | GameBlocks nat bool

fun overlay_step :: "OverlayEvent \<Rightarrow> (unit, 'm) OverlayState_scheme \<Rightarrow> (unit, 'm) OverlayState_scheme res" where
  "overlay_step (PageCaptures c) s = Inr (CaptureInput c s)"
| "overlay_step (RendererShown r) s = Inr (s\<lparr>IsRendering := r\<rparr>)"
| "overlay_step (GameUpdates keys) s =
     UpdateInputHook (WebOverlayInputContext (\<lambda>n. n \<in> set keys)) [OnGameInputUpdated (\<lambda>n. n \<in> set keys)] s"
| "overlay_step MessagesPumped s = Inr (UiTick (WebOverlayInputContext (\<lambda>_. False)) s)"
| "overlay_step (GameBlocks type b) s = Inr (BlockInputHook type b s)"

fun overlay_run :: "OverlayEvent list \<Rightarrow> (unit, 'm) OverlayState_scheme \<Rightarrow> (unit, 'm) OverlayState_scheme res" where
  "overlay_run [] s = Inr s"
| "overlay_run (e # es) s = rbind (overlay_step e s) (overlay_run es)"

text \<open>The invariant: the game's input is blocked exactly while there are contexts, and otherwise as the game
  asked; a finished context is on the stack; and a captured input has a context of its own.\<close>

definition all_blocked :: "bool list" where
  "all_blocked = replicate InputType_Count True"

definition overlay_ok :: "(unit, 'm) OverlayState_scheme \<Rightarrow> bool" where
  "overlay_ok s \<longleftrightarrow> blockedInput s = (if contextStack s = [] then blockStates s else all_blocked)
     \<and> (contextDone s \<longrightarrow> contextStack s \<noteq> [])
     \<and> (InputCaptured s \<longrightarrow> (if contextDone s then 1 else 0) < length (contextStack s))"

lemma screen_effect_fields [simp]:
  "contextStack (screen_effect e s) = contextStack s" "contextDone (screen_effect e s) = contextDone s"
  "blockStates (screen_effect e s) = blockStates s" "blockedInput (screen_effect e s) = blockedInput s"
  "InputCaptured (screen_effect e s) = InputCaptured s"
  by (simp_all add: screen_effect_def)

lemma release_input_fields [simp]:
  "contextStack (release_input s) = contextStack s" "contextDone (release_input s) = contextDone s"
  "blockStates (release_input s) = blockStates s" "blockedInput (release_input s) = blockedInput s"
  "\<not> InputCaptured (release_input s)"
  by (simp_all add: release_input_def)

text \<open>The debug keys and a tick leave the stack alone and at most release the input.\<close>

lemma OnGameInputUpdated_fields:
  "contextStack (OnGameInputUpdated p s) = contextStack s" "contextDone (OnGameInputUpdated p s) = contextDone s"
  "blockStates (OnGameInputUpdated p s) = blockStates s" "blockedInput (OnGameInputUpdated p s) = blockedInput s"
  "InputCaptured (OnGameInputUpdated p s) \<Longrightarrow> InputCaptured s"
  by (auto simp: OnGameInputUpdated_def Let_def split: if_splits)

lemma stop_unless_rendering_fields:
  "contextStack (stop_unless_rendering s) = contextStack s" "contextDone (stop_unless_rendering s) = contextDone s"
  "blockStates (stop_unless_rendering s) = blockStates s" "blockedInput (stop_unless_rendering s) = blockedInput s"
  "InputCaptured (stop_unless_rendering s) \<Longrightarrow> InputCaptured s"
  by (auto simp: stop_unless_rendering_def split: if_splits)

lemma Quick_fields [simp]:
  "contextStack (QuickBlockInput s) = contextStack s" "contextDone (QuickBlockInput s) = contextDone s"
  "blockStates (QuickBlockInput s) = blockStates s" "blockedInput (QuickBlockInput s) = all_blocked"
  "InputCaptured (QuickBlockInput s') = InputCaptured s'"
  "contextStack (QuickUnblockInput s) = contextStack s" "contextDone (QuickUnblockInput s) = contextDone s"
  "blockStates (QuickUnblockInput s) = blockStates s" "InputCaptured (QuickUnblockInput s') = InputCaptured s'"
  by (simp_all add: QuickBlockInput_def QuickUnblockInput_def all_blocked_def)

lemmas overlay_fields = OnGameInputUpdated_fields(1-4) stop_unless_rendering_fields(1-4)

text \<open>A tick of the overlay's context: it is done exactly when the input is no longer captured.\<close>

lemma tick_top_fields:
  assumes "tick = GameInputTick (WebOverlayInputContext p) \<or> tick = UiInputTick (WebOverlayInputContext p)"
  shows "contextStack (tick_top tick s) = contextStack s" "blockStates (tick_top tick s) = blockStates s"
    "blockedInput (tick_top tick s) = all_blocked"
    "contextDone (tick_top tick s) = (contextDone s \<or> \<not> InputCaptured (tick_top tick s))"
    "InputCaptured (tick_top tick s) \<Longrightarrow> InputCaptured s"
  using assms stop_unless_rendering_fields(5) [of "QuickUnblockInput s"]
    stop_unless_rendering_fields(5) [of "OnGameInputUpdated p (QuickUnblockInput s)"]
    OnGameInputUpdated_fields(5) [of p "QuickUnblockInput s"]
  by (auto simp: tick_top_def WebOverlayInputContext_def Let_def overlay_fields split: if_splits)


lemma web_callbacks [simp]:
  "Activated (WebOverlayInputContext p) c s = s" "Deactivated (WebOverlayInputContext p) c s = s"
  by (simp_all add: WebOverlayInputContext_def)

text \<open>The first part of \<open>UpdateInputHook\<close>: the state after popping a finished context.\<close>

definition popped :: "(unit, 'm) OverlayState_scheme \<Rightarrow> (unit, 'm) OverlayState_scheme" where
  "popped s = (if contextDone s
     then s\<lparr>contextStack := tl (contextStack s),
            blockedInput := (if tl (contextStack s) = [] then blockStates s else blockedInput s),
            contextDone := False\<rparr>
     else s)"

lemma update_popped:
  assumes "overlay_ok s"
  shows "UpdateInputHook (WebOverlayInputContext p) handlers s = Inr
    (if contextStack (popped s) \<noteq> [] then tick_top (GameInputTick (WebOverlayInputContext p)) (popped s)
     else foldl (\<lambda>s handler. handler s) (popped s) handlers)"
proof (cases "contextDone s")
  case True
  then obtain c rest where "contextStack s = c # rest"
    using assms by (cases "contextStack s") (simp_all add: overlay_ok_def)
  with True show ?thesis
    by (cases rest) (simp_all add: UpdateInputHook_def PopContext_def Let_def popped_def)
qed (simp add: UpdateInputHook_def popped_def)

lemma overlay_ok_popped: "overlay_ok s \<Longrightarrow> overlay_ok (popped s) \<and> \<not> contextDone (popped s)"
  by (cases "contextStack s") (auto simp: overlay_ok_def popped_def)

lemma overlay_ok_tick:
  assumes "overlay_ok s" "contextStack s \<noteq> []"
    "tick = GameInputTick (WebOverlayInputContext p) \<or> tick = UiInputTick (WebOverlayInputContext p)"
  shows "overlay_ok (tick_top tick s)"
  using assms(1,2) tick_top_fields [OF assms(3), of s] by (auto simp: overlay_ok_def)

lemma overlay_ok_capture: "overlay_ok s \<Longrightarrow> overlay_ok (CaptureInput c s)"
  by (auto simp: overlay_ok_def CaptureInput_def PushContext_def Let_def all_blocked_def split: list.split)

lemma overlay_step_ok:
  assumes "overlay_ok s"
  shows "\<exists>s'. overlay_step e s = Inr s' \<and> overlay_ok s'"
proof (cases e)
  case (GameUpdates keys)
  note p = overlay_ok_popped [OF assms]
  have "overlay_ok (OnGameInputUpdated (\<lambda>n. n \<in> set keys) (popped s))" if "contextStack (popped s) = []"
    using p that OnGameInputUpdated_fields(5) [of "\<lambda>n. n \<in> set keys" "popped s"]
    by (auto simp: overlay_ok_def OnGameInputUpdated_fields)
  then show ?thesis
    using p overlay_ok_tick by (auto simp: GameUpdates update_popped [OF assms])
next
  case MessagesPumped
  then show ?thesis using assms overlay_ok_tick by (auto simp: UiTick_def)
next
  case (GameBlocks type b)
  then show ?thesis using assms by (auto simp: overlay_ok_def BlockInputHook_def Let_def)
next
  case (RendererShown r)
  then show ?thesis using assms by (simp add: overlay_ok_def)
qed (use assms overlay_ok_capture in auto)

lemma overlay_run_ok: "overlay_ok s \<Longrightarrow> \<exists>s'. overlay_run es s = Inr s' \<and> overlay_ok s'"
proof (induction es arbitrary: s)
  case (Cons e es)
  obtain s1 where "overlay_step e s = Inr s1" "overlay_ok s1" using overlay_step_ok [OF Cons.prems] by blast
  with Cons.IH show ?case by simp
qed simp

text \<open>The flags the game has asked for in a run, whether they took effect at once or not.\<close>

definition asked :: "OverlayEvent list \<Rightarrow> bool list \<Rightarrow> bool list" where
  "asked es flags = foldl (\<lambda>flags e. case e of GameBlocks type b \<Rightarrow> flags[type := b] | _ \<Rightarrow> flags) flags es"

lemma overlay_step_asked:
  assumes "overlay_ok s" "overlay_step e s = Inr s'"
  shows "blockStates s' = asked [e] (blockStates s)"
proof (cases e)
  case (GameUpdates keys)
  have "blockStates (popped s) = blockStates s" by (simp add: popped_def)
  then show ?thesis
    using assms(2) tick_top_fields(2) [OF disjI1 [OF refl], where s = "popped s"]
    by (auto simp: GameUpdates update_popped [OF assms(1)] asked_def OnGameInputUpdated_fields split: if_splits)
next
  case (PageCaptures c)
  then show ?thesis using assms(2) by (auto simp: asked_def CaptureInput_def PushContext_def Let_def split: list.split)
next
  case MessagesPumped
  then show ?thesis
    using assms(2) tick_top_fields(2) [OF disjI2 [OF refl], where s = s] by (auto simp: asked_def UiTick_def split: if_splits)
qed (use assms(2) in \<open>auto simp: asked_def BlockInputHook_def Let_def\<close>)

lemma overlay_run_asked: "overlay_ok s \<Longrightarrow> overlay_run es s = Inr s' \<Longrightarrow> blockStates s' = asked es (blockStates s)"
proof (induction es arbitrary: s)
  case (Cons e es)
  obtain s1 where s1: "overlay_step e s = Inr s1" "overlay_ok s1" using overlay_step_ok [OF Cons.prems(1)] by blast
  then have "blockStates s' = asked es (asked [e] (blockStates s))"
    using Cons.IH [OF s1(2)] Cons.prems overlay_step_asked [OF Cons.prems(1) s1(1)] by simp
  then show ?case by (simp add: asked_def)
qed (simp add: asked_def)

text \<open>How many updates of the game an abandoned stack still takes.\<close>

definition updates_left :: "('c, 'm) InputStack_scheme \<Rightarrow> nat" where
  "updates_left s = length (contextStack s) + (if contextStack s = [] \<or> contextDone s then 0 else 1)"

definition is_update :: "OverlayEvent \<Rightarrow> bool" where
  "is_update e = (case e of GameUpdates _ \<Rightarrow> True | _ \<Rightarrow> False)"

lemma overlay_step_released:
  assumes "overlay_ok s" "\<not> InputCaptured s" "e \<noteq> PageCaptures True" "overlay_step e s = Inr s'"
  shows "\<not> InputCaptured s' \<and> updates_left s' \<le> updates_left s - (if is_update e then 1 else 0)"
proof (cases e)
  case (GameUpdates keys)
  let ?p = "\<lambda>n. n \<in> set keys"
  note p = overlay_ok_popped [OF assms(1)]
  have rel: "\<not> InputCaptured (popped s)" using assms(2) by (simp add: popped_def)
  have left: "length (contextStack (popped s)) \<le> updates_left s - 1"
    using assms(1) by (auto simp: popped_def updates_left_def)
  show ?thesis
  proof (cases "contextStack (popped s) = []")
    case True
    then have "s' = OnGameInputUpdated ?p (popped s)"
      using assms(4) GameUpdates update_popped [OF assms(1)] by simp
    then show ?thesis
      using True rel OnGameInputUpdated_fields(5) [of ?p "popped s"]
      by (auto simp: updates_left_def OnGameInputUpdated_fields(1))
  next
    case False
    then have s': "s' = tick_top (GameInputTick (WebOverlayInputContext ?p)) (popped s)"
      using assms(4) GameUpdates update_popped [OF assms(1)] by simp
    note t = tick_top_fields [of "GameInputTick (WebOverlayInputContext ?p)" ?p "popped s", OF disjI1 [OF refl]]
    show ?thesis using t rel left by (auto simp: s' updates_left_def is_update_def GameUpdates)
  qed
next
  case MessagesPumped
  note t = tick_top_fields [of "UiInputTick (WebOverlayInputContext (\<lambda>_. False))" "\<lambda>_. False" s, OF disjI2 [OF refl]]
  show ?thesis
    using assms(2,4) t MessagesPumped by (auto simp: UiTick_def updates_left_def is_update_def split: if_splits)
next
  case (PageCaptures c)
  then show ?thesis using assms by (auto simp: CaptureInput_def is_update_def)
next
  case (RendererShown r)
  then show ?thesis using assms(2,4) by (auto simp: updates_left_def is_update_def)
next
  case (GameBlocks type b)
  then show ?thesis using assms(2,4)
    by (cases "contextStack s = []") (auto simp: updates_left_def is_update_def BlockInputHook_def Let_def)
qed

lemma overlay_run_released:
  "overlay_ok s \<Longrightarrow> \<not> InputCaptured s \<Longrightarrow> PageCaptures True \<notin> set es \<Longrightarrow> overlay_run es s = Inr s' \<Longrightarrow>
    updates_left s' \<le> updates_left s - length (filter is_update es)"
proof (induction es arbitrary: s)
  case (Cons e es)
  obtain s1 where s1: "overlay_step e s = Inr s1" "overlay_ok s1" using overlay_step_ok [OF Cons.prems(1)] by blast
  have r: "\<not> InputCaptured s1 \<and> updates_left s1 \<le> updates_left s - (if is_update e then 1 else 0)"
    using overlay_step_released [OF Cons.prems(1,2) _ s1(1)] Cons.prems(3) by auto
  have "updates_left s' \<le> updates_left s1 - length (filter is_update es)"
    using Cons.IH [OF s1(2)] r Cons.prems(3,4) s1(1) by simp
  with r show ?case by (auto split: if_splits)
qed simp

subsection \<open>Properties of the contexts\<close>

text \<open>C19. While a page has captured the input, the game gets none: whatever happens, in whatever order, no
  routine reads an empty stack, and as long as the input is captured there is a context on the stack,
  every type of input is blocked and the controller reads as idle; once the stack is empty the block
  flags are the ones the game asked for last, those it asked for while the input was captured included.\<close>

theorem captured_input_is_blocked:
  assumes "contextStack s = []" "\<not> contextDone s" "\<not> InputCaptured s" "blockedInput s = blockStates s"
  shows "\<exists>s'. overlay_run es s = Inr s'
    \<and> (InputCaptured s' \<longrightarrow> contextStack s' \<noteq> [] \<and> blockedInput s' = all_blocked \<and> GetControllerStateHook val s' = 0)
    \<and> (contextStack s' = [] \<longrightarrow> blockedInput s' = asked es (blockStates s))"
proof -
  have ok: "overlay_ok s" using assms by (simp add: overlay_ok_def)
  then obtain s' where r: "overlay_run es s = Inr s'" "overlay_ok s'" using overlay_run_ok by blast
  with overlay_run_asked [OF ok r(1)] show ?thesis by (auto simp: overlay_ok_def GetControllerStateHook_def)
qed

definition demo_overlay :: "unit OverlayState" where
  "demo_overlay = \<lparr>contextStack = [], contextDone = False, blockStates = [False, False, True],
     blockedInput = [False, False, True], InputCaptured = False, IsRendering = True, WebDebugging = False,
     screen_effects = []\<rparr>"

theorem captured_input_is_blocked_witness:
  "\<exists>s'. overlay_run [PageCaptures True, GameBlocks 0 True, GameUpdates [], MessagesPumped] demo_overlay = Inr s'
    \<and> (InputCaptured s' \<longrightarrow> contextStack s' \<noteq> [] \<and> blockedInput s' = all_blocked \<and> GetControllerStateHook 1 s' = 0)
    \<and> (contextStack s' = [] \<longrightarrow> blockedInput s' =
        asked [PageCaptures True, GameBlocks 0 True, GameUpdates [], MessagesPumped] (blockStates demo_overlay))"
  by (rule captured_input_is_blocked) (simp_all add: demo_overlay_def)

text \<open>C36. Released input comes back: once the input is given back and no page captures it again, as many
  updates of the game as there are contexts, and one more, empty the stack and restore the flags the
  game asked for last, those it asked for in the meantime included.\<close>

theorem released_input_returns:
  assumes "overlay_ok s" "\<not> InputCaptured s" "PageCaptures True \<notin> set es"
    and "length (contextStack s) < length (filter is_update es)"
  shows "\<exists>s'. overlay_run es s = Inr s' \<and> contextStack s' = [] \<and> blockedInput s' = asked es (blockStates s)"
proof -
  obtain s' where r: "overlay_run es s = Inr s'" "overlay_ok s'" using overlay_run_ok [OF assms(1)] by blast
  have "updates_left s \<le> Suc (length (contextStack s))" by (simp add: updates_left_def)
  with overlay_run_released [OF assms(1-3) r(1)] assms(4) have "updates_left s' = 0" by linarith
  then show ?thesis using r overlay_run_asked [OF assms(1) r(1)] by (simp add: updates_left_def overlay_ok_def)
qed

theorem released_input_returns_witness:
  "\<exists>s'. overlay_run [MessagesPumped, GameUpdates [], GameBlocks 1 True, GameUpdates [5], GameUpdates []]
      (demo_overlay\<lparr>contextStack := [(), ()], blockedInput := all_blocked\<rparr>) = Inr s'
    \<and> contextStack s' = [] \<and> blockedInput s' = [False, True, True]"
proof -
  let ?s = "demo_overlay\<lparr>contextStack := [(), ()], blockedInput := all_blocked\<rparr>"
  have "overlay_ok ?s" "\<not> InputCaptured ?s" by (simp_all add: overlay_ok_def demo_overlay_def)
  from released_input_returns [OF this, of "[MessagesPumped, GameUpdates [], GameBlocks 1 True, GameUpdates [5], GameUpdates []]"]
  show ?thesis by (simp add: is_update_def asked_def demo_overlay_def)
qed

text \<open>The flag that the active context is done belongs to no context: when a new context is pushed after
  the active one reported that it is done, the next update pops the new one, and the finished context
  is active and ticked again.\<close>

theorem fresh_context_popped:
  assumes "contextStack s = old # rest" "contextDone s"
    and "\<And>c s. contextStack (Activated ops c s) = contextStack s \<and> contextDone (Activated ops c s) = contextDone s"
    and "\<And>c s. contextStack (Deactivated ops c s) = contextStack s \<and> contextDone (Deactivated ops c s) = contextDone s"
  shows "\<exists>s'. UpdateInputHook ops defaultHandlers (PushContext ops new s) = Inr (tick_top (GameInputTick ops) s')
    \<and> contextStack s' = old # rest"
  using assms
  by (simp add: UpdateInputHook_def PushContext_def PopContext_def Let_def) (intro exI conjI, rule refl, simp)

theorem fresh_context_popped_witness:
  "\<exists>s'. UpdateInputHook \<lparr>Activated = (\<lambda>c s. s), Deactivated = (\<lambda>c s. s), GameInputTick = (\<lambda>c s. (c = 2, s)),
        UiInputTick = (\<lambda>c s. (True, s))\<rparr> []
      (PushContext \<lparr>Activated = (\<lambda>c s. s), Deactivated = (\<lambda>c s. s), GameInputTick = (\<lambda>c s. (c = 2, s)),
        UiInputTick = (\<lambda>c s. (True, s))\<rparr> (2::nat)
        \<lparr>contextStack = [1], contextDone = True, blockStates = [], blockedInput = []\<rparr>)
    = Inr (tick_top (GameInputTick \<lparr>Activated = (\<lambda>c s. s), Deactivated = (\<lambda>c s. s), GameInputTick = (\<lambda>c s. (c = 2, s)),
        UiInputTick = (\<lambda>c s. (True, s))\<rparr>) s')
    \<and> contextStack s' = [1]"
  by (rule fresh_context_popped) simp_all

subsection \<open>Smaller hooks\<close>

datatype InputType = InputTypeUi | InputTypeGame | InputTypeSpecial

text \<open>The input type of each action, in the order of the actions.\<close>

definition actionInputTypes :: "InputType list" where
  "actionInputTypes =
     replicate 6 InputTypeUi @ replicate 2 InputTypeSpecial @ replicate 8 InputTypeUi
     @ replicate 23 InputTypeGame @ replicate 2 InputTypeUi @ replicate 15 InputTypeGame
     @ replicate 3 InputTypeUi @ replicate 4 InputTypeGame"

record ActionState =
  Msec :: u16
  Ticks :: u8
  ActionFlags :: u8

definition ActionStateFlagsHandled :: u8 where "ActionStateFlagsHandled = 1"

text \<open>What \<open>ProcessKeyBindingsHook\<close> does after the engine's routine has updated the actions.\<close>

definition unset_handled :: "ActionState list \<Rightarrow> ActionState list" where
  "unset_handled actions = map (\<lambda>a. if Ticks a = 0
     then a\<lparr>ActionFlags := ActionFlags a AND NOT ActionStateFlagsHandled\<rparr> else a) actions"

text \<open>The character platform of the main menu: the two static flags, and the engine routine called. Floats
  are given by their bits.\<close>

record PlatformState =
  firstRotate :: bool
  autoRotate :: bool

datatype PlatformCall = RotateCharPlatform "u32" "u32" | UpdateCharPlatform

definition UpdateUiControllerInputHook :: "bool \<Rightarrow> bool \<Rightarrow> bool \<Rightarrow> u32 \<Rightarrow> PlatformState
    \<Rightarrow> PlatformCall list \<times> PlatformState" where
  "UpdateUiControllerInputHook isMainMenu rotateLeft rotateRight timeDelta s =
     (if \<not> isMainMenu then ([], \<lparr>firstRotate = True, autoRotate = True\<rparr>)
      else if firstRotate s then ([RotateCharPlatform 0x3F800000 0xBE800000], s\<lparr>firstRotate := False\<rparr>)
      else if rotateLeft \<noteq> rotateRight
      then ([RotateCharPlatform timeDelta (if rotateRight then 0x3F800000 else 0xBF800000)], s\<lparr>autoRotate := False\<rparr>)
      else if autoRotate s then ([RotateCharPlatform timeDelta 0x3CCCCCCD], s)
      else ([UpdateCharPlatform], s))"

text \<open>Once the player has turned the platform it does not turn on its own again before the menu is left.\<close>

fun platform_run :: "(bool \<times> bool \<times> bool) list \<Rightarrow> PlatformState \<Rightarrow> PlatformState" where
  "platform_run [] s = s"
| "platform_run ((menu, l, r) # es) s = platform_run es (snd (UpdateUiControllerInputHook menu l r 0 s))"

lemma platform_stays_manual:
  "\<forall>e \<in> set es. fst e \<Longrightarrow> \<not> autoRotate s \<Longrightarrow> \<not> autoRotate (platform_run es s)"
  by (induction es s rule: platform_run.induct) (auto simp: UpdateUiControllerInputHook_def)

lemma actionInputTypes_length: "length actionInputTypes = 63"
  by (simp add: actionInputTypes_def)

end
