(* ===== verification/SchemeHandler.thy ===== *)
theory SchemeHandler
  imports Strings StdNum
begin

text \<open>
  \<open>Web/WebRendererSchemeHandler.cpp\<close>: the files of the overlay's pages, served to the browser. The
  decoding of the address, the file system and boost's number conversion are parameters; lengths are
  \<open>size_t\<close> of 32 bits (the offset and the requested length are \<open>int32_t\<close> members that hold the same bits).
\<close>

subsection \<open>Requests\<close>

record Uri =
  uri_valid :: bool
  uri_scheme :: string
  uri_host :: string
  uri_path :: string

text \<open>The file system: \<open>canonical\<close> gives the elements of the real path below any links and parent references,
  or nothing when it throws; a file's text is found by its canonical path.\<close>

record FileSystem =
  exists_file :: "string list \<Rightarrow> bool"
  canonical :: "string list \<Rightarrow> string list option"
  file_text :: "string list \<Rightarrow> string option"

record SchemeState =
  m_TempData :: string
  m_RequestedRange :: string
  m_ContentType :: string
  m_RequestedLength :: u32
  m_Partial :: bool
  m_Offset :: u32
  m_ShouldCache :: bool

type_synonym FileCache = "int \<Rightarrow> (string \<rightharpoonup> string) option"

definition ReadLocalFile :: "FileSystem \<Rightarrow> string list \<Rightarrow> string \<Rightarrow> string \<Rightarrow> string option" where
  "ReadLocalFile fs directory host path =
     (let filePath = directory @ [host, path] in
      if \<not> exists_file fs filePath then None
      else case canonical fs filePath of
        None \<Rightarrow> None
      | Some real \<Rightarrow> if take (length directory) real \<noteq> directory then None else file_text fs real)"

definition substr_find :: "string \<Rightarrow> char \<Rightarrow> nat option" where
  "substr_find s c = find_index ((=) c) s"

text \<open>\<open>boost::split\<close> on one character: there is one part more than there are separators.\<close>

fun split_on :: "char \<Rightarrow> string \<Rightarrow> string list" where
  "split_on c [] = [[]]"
| "split_on c (x # xs) = (if x = c then [] # split_on c xs
     else case split_on c xs of p # ps \<Rightarrow> (x # p) # ps | [] \<Rightarrow> [[x]])"

text \<open>The part of \<open>ProcessRequestInternal\<close> that reads the range header. \<open>cast\<close> is \<open>boost::lexical_cast\<close>; its
  exception leaves the thread that handles the request, which ends the program.\<close>

definition cast_size :: "(string \<Rightarrow> u32 option) \<Rightarrow> string \<Rightarrow> u32 res" where
  "cast_size cast s = (if s = [] then Inr 0 else case cast s of None \<Rightarrow> Inl Terminated | Some n \<Rightarrow> Inr n)"

definition range_bounds :: "u32 \<Rightarrow> string \<Rightarrow> string \<Rightarrow> u32 \<Rightarrow> u32 \<Rightarrow> u32 \<times> u32" where
  "range_bounds len first second start0 end0 =
     (let (s, e) = (if first = [] then (len - end0, len - 1)
                    else if second = [] then (start0, len - 1) else (start0, end0)) in
      (s, if len - 1 < e then len - 1 else e))"

definition parse_range :: "(string \<Rightarrow> u32 option) \<Rightarrow> string \<Rightarrow> SchemeState \<Rightarrow> SchemeState res" where
  "parse_range cast header h = (case substr_find header (CHR ''='') of
     None \<Rightarrow> Inr h
   | Some sep \<Rightarrow>
       (let requested = hd (split_on (CHR '','') (drop (sep + 1) header));
            h1 = h\<lparr>m_RequestedRange := requested\<rparr>;
            len = (of_nat (length (m_TempData h)) :: u32) in
        case split_on (CHR ''-'') requested of
          [first, second] \<Rightarrow>
            rbind (cast_size cast first) (\<lambda>s0. rbind (cast_size cast second) (\<lambda>e0.
            let (s, e) = range_bounds len first second s0 e0 in
            Inr (if 0 < s \<and> s \<le> e
                 then h1\<lparr>m_Partial := True, m_Offset := s, m_RequestedLength := (e - s) + 1\<rparr> else h1)))
        | _ \<Rightarrow> Inr h1))"

subsection \<open>Content types\<close>

text \<open>The extensions in lower case, with the content type and whether the file is cached.\<close>

definition content_types :: "(string list \<times> string \<times> bool) list" where
  "content_types =
    [([''.html'', ''.htm''], ''text/html'', False), ([''.png''], ''image/png'', True),
     ([''.jpg'', ''.jpeg'', ''.jpe''], ''image/jpeg'', True), ([''.gif''], ''image/gif'', True),
     ([''.bmp''], ''image/bmp'', True), ([''.ico''], ''image/x-icon'', True),
     ([''.css'', ''.scss'', ''.sass'', ''.less''], ''text/css'', False),
     ([''.js''], ''application/javascript'', False), ([''.txt'', ''.obj''], ''text/plain'', False),
     ([''.svg''], ''image/svg+xml'', True), ([''.ttf'', ''.otf''], ''application/font-sfnt'', True),
     ([''.woff''], ''application/x-font-woff'', True), ([''.ogv''], ''video/ogg'', True),
     ([''.ogg''], ''audio/ogg'', True)]"

definition set_content_type :: "string \<Rightarrow> SchemeState \<Rightarrow> SchemeState" where
  "set_content_type extension h = foldl (\<lambda>h (exts, t, keep).
     if extension \<in> set exts then h\<lparr>m_ContentType := t, m_ShouldCache := keep \<or> m_ShouldCache h\<rparr> else h) h content_types"

text \<open>\<open>path::extension\<close> of the last element: from its last dot on, unless it is a dot name.\<close>

definition last_element :: "string \<Rightarrow> string" where
  "last_element path = rev (takeWhile (\<lambda>c. c \<noteq> CHR ''/'' \<and> c \<noteq> CHR 0x5C) (rev path))"

definition path_extension :: "string \<Rightarrow> string" where
  "path_extension path =
     (let n = last_element path; ext = rev (takeWhile (\<lambda>c. c \<noteq> CHR ''.'') (rev n)) in
      if n = ''.'' \<or> n = ''..'' \<or> CHR ''.'' \<notin> set n then [] else CHR ''.'' # ext)"

subsection \<open>Serving\<close>

datatype RequestOutcome = Continued | Cancelled

definition final_path :: "string \<Rightarrow> string" where
  "final_path decoded = (let p = (if decoded = [] then ''/'' else decoded) in
     if last p = CHR ''/'' then p @ ''index.html'' else p)"

definition cache_lookup :: "FileCache \<Rightarrow> int \<Rightarrow> string \<Rightarrow> string option" where
  "cache_lookup cache frame key = (case cache frame of None \<Rightarrow> None | Some m \<Rightarrow> m key)"

definition cache_insert :: "FileCache \<Rightarrow> int \<Rightarrow> string \<Rightarrow> string \<Rightarrow> FileCache" where
  "cache_insert cache frame key data =
     cache(frame := Some ((case cache frame of None \<Rightarrow> Map.empty | Some m \<Rightarrow> m)(key \<mapsto> data)))"

definition vfs_path :: "string \<Rightarrow> string \<Rightarrow> string \<Rightarrow> string" where
  "vfs_path scheme host path = ''/'' @ scheme @ ''/'' @ host @ ''/'' @ drop 1 path"

record SchemeHandler =
  m_Scheme :: string
  m_Directory :: "string list"
  m_Main :: bool
  m_Frame :: int

definition fresh_state :: "string \<Rightarrow> SchemeState" where
  "fresh_state data = \<lparr>m_TempData = data, m_RequestedRange = '''', m_ContentType = ''application/octet-stream'',
     m_RequestedLength = of_nat (length data), m_Partial = False, m_Offset = 0, m_ShouldCache = False\<rparr>"

text \<open>\<open>ProcessRequestInternal\<close>; \<open>uri\<close> is the parsed address with the path decoded, \<open>rangeHeader\<close> the value of the range
  header.\<close>

definition ProcessRequestInternal :: "FileSystem \<Rightarrow> (string \<Rightarrow> u32 option) \<Rightarrow> SchemeHandler \<Rightarrow> Uri \<Rightarrow> string option
    \<Rightarrow> SchemeState \<Rightarrow> FileCache \<Rightarrow> (RequestOutcome \<times> SchemeState \<times> FileCache) res" where
  "ProcessRequestInternal fs cast handler uri rangeHeader h cache =
     (if \<not> uri_valid uri \<or> uri_scheme uri \<noteq> m_Scheme handler then Inr (Cancelled, h, cache)
      else if m_Scheme handler = ''dew'' \<and> uri_host uri = ''ui'' \<and> \<not> m_Main handler then Inr (Cancelled, h, cache)
      else
        (let path = final_path (uri_path uri);
             key = vfs_path (m_Scheme handler) (uri_host uri) path;
             found = (case cache_lookup cache (m_Frame handler) key of
                        Some data \<Rightarrow> Some data
                      | None \<Rightarrow> ReadLocalFile fs (m_Directory handler) (uri_host uri) path) in
         case found of
           None \<Rightarrow> Inr (Cancelled, fresh_state '''', cache)
         | Some data \<Rightarrow>
             rbind (case rangeHeader of None \<Rightarrow> Inr (fresh_state data) | Some header \<Rightarrow> parse_range cast header (fresh_state data))
             (\<lambda>h1. let h2 = set_content_type (ToLower (path_extension path)) h1 in
               Inr (Continued, h2, if m_ShouldCache h2 then cache_insert cache (m_Frame handler) key data else cache))))"

definition ClearCache :: FileCache where
  "ClearCache = (\<lambda>_. None)"

definition ExpireCache :: "int \<Rightarrow> FileCache \<Rightarrow> FileCache" where
  "ExpireCache frame cache = cache(frame := None)"

text \<open>\<open>ReadResponse\<close> copies \<open>n\<close> bytes to a buffer of \<open>bytesToRead\<close> bytes: a copy that reads past the terminating
  null of the data or writes past the buffer is undefined. The result is empty when there is
  nothing left.\<close>

definition ReadResponse :: "nat \<Rightarrow> SchemeState \<Rightarrow> (string option \<times> SchemeState) res" where
  "ReadResponse bytesToRead h =
     (let offset = unat (m_Offset h); len = length (m_TempData h) in
      if len \<le> offset then Inr (None, h)
      else (let n = (if len - offset < bytesToRead then len else bytesToRead) in
        if len + 1 < offset + n \<or> bytesToRead < n then Inl Undefined
        else Inr (Some (take n (drop offset (m_TempData h @ [NUL]))), h\<lparr>m_Offset := of_nat (offset + n)\<rparr>)))"

definition GetResponseHeaders :: "SchemeState \<Rightarrow> u32 \<times> nat \<times> string \<times> (string \<times> string) list" where
  "GetResponseHeaders h =
     (m_RequestedLength h, if m_Partial h then 206 else 200,
      if m_ContentType h = [] then ''application/octet-stream'' else m_ContentType h,
      [(''Cache-Control'', if m_ShouldCache h then ''public, max-age=0'' else ''private, max-age=0, no-cache''),
       (''Content-Length'', dec_int (sint (m_RequestedLength h)))]
      @ (if m_Partial h then [(''Content-Range'', ''bytes '' @ m_RequestedRange h @ ''/'' @ dec (length (m_TempData h)))] else []))"

subsection \<open>Reading a response\<close>

text \<open>A sequence of calls with the sizes the browser chooses: the bytes delivered, and the state.\<close>

fun read_calls :: "nat list \<Rightarrow> SchemeState \<Rightarrow> (string \<times> SchemeState) res" where
  "read_calls [] h = Inr ('''', h)"
| "read_calls (bytesToRead # sizes) h =
     rbind (ReadResponse bytesToRead h) (\<lambda>(chunk, h'). case chunk of
       None \<Rightarrow> Inr ('''', h')
     | Some c \<Rightarrow> rbind (read_calls sizes h') (\<lambda>(rest, h''). Inr (c @ rest, h'')))"

lemma unat_of_nat_u32: "n < 2 ^ 32 \<Longrightarrow> unat (of_nat n :: u32) = n"
  by (simp add: unat_of_nat take_bit_nat_eq_self)

text \<open>One call, at every offset inside the data.\<close>

lemma ReadResponse_at:
  assumes "m_Offset h = of_nat off" "off < length (m_TempData h)" "length (m_TempData h) < 2 ^ 31"
  shows "ReadResponse b h =
    (if b \<le> length (m_TempData h) - off
     then Inr (Some (take b (drop off (m_TempData h))), h\<lparr>m_Offset := of_nat (off + b)\<rparr>)
     else if off = 0 then Inr (Some (m_TempData h), h\<lparr>m_Offset := of_nat (length (m_TempData h))\<rparr>)
     else if off = 1 \<and> length (m_TempData h) \<le> b
     then Inr (Some (drop off (m_TempData h) @ [NUL]), h\<lparr>m_Offset := of_nat (1 + length (m_TempData h))\<rparr>)
     else Inl Undefined)"
proof -
  have "unat (m_Offset h) = off" unfolding assms(1) using assms(2,3) by (intro unat_of_nat_u32) simp
  then show ?thesis using assms(2) by (auto simp: ReadResponse_def Let_def simp del: of_nat_add)
qed

lemma read_calls_from:
  assumes "m_Offset h = of_nat off" "off + sum_list sizes < length (m_TempData h)" "length (m_TempData h) < 2 ^ 31"
  shows "read_calls (sizes @ bs) h = rbind (read_calls bs (h\<lparr>m_Offset := of_nat (off + sum_list sizes)\<rparr>))
    (\<lambda>(rest, h'). Inr (take (sum_list sizes) (drop off (m_TempData h)) @ rest, h'))"
  using assms
proof (induction sizes arbitrary: h off)
  case Nil
  then have "h\<lparr>m_Offset := of_nat off\<rparr> = h" by (cases h) simp
  then show ?case by (simp add: rbind_def split: sum.split)
next
  case (Cons b sizes)
  have r: "ReadResponse b h = Inr (Some (take b (drop off (m_TempData h))), h\<lparr>m_Offset := of_nat (off + b)\<rparr>)"
    using Cons.prems by (subst ReadResponse_at [of h off]) auto
  have t: "take b xs @ take n (drop b xs) = take (b + n) xs" for n and xs :: string by (simp add: take_add)
  have "read_calls (sizes @ bs) (h\<lparr>m_Offset := of_nat (off + b)\<rparr>)
    = rbind (read_calls bs (h\<lparr>m_Offset := of_nat (off + b + sum_list sizes)\<rparr>))
      (\<lambda>(rest, h'). Inr (take (sum_list sizes) (drop (off + b) (m_TempData h)) @ rest, h'))"
    using Cons.IH [of "h\<lparr>m_Offset := of_nat (off + b)\<rparr>" "off + b"] Cons.prems by (simp del: of_nat_add)
  then show ?case
    using r t [of "drop off (m_TempData h)" "sum_list sizes"]
    by (auto simp: rbind_def add.assoc add.commute [of b off] simp del: of_nat_add split: sum.splits prod.splits)
qed

lemma fresh_state_fields:
  "m_TempData (fresh_state d) = d" "m_Offset (fresh_state d) = 0" "m_Partial (fresh_state d) = False"
  "m_RequestedLength (fresh_state d) = of_nat (length d)" "m_ShouldCache (fresh_state d) = False"
  by (simp_all add: fresh_state_def)

subsection \<open>Requests\<close>

lemma set_content_type_fields:
  "m_TempData (set_content_type e h) = m_TempData h" "m_Offset (set_content_type e h) = m_Offset h"
  "m_Partial (set_content_type e h) = m_Partial h" "m_RequestedLength (set_content_type e h) = m_RequestedLength h"
proof -
  have "m_TempData (set_content_type e h) = m_TempData h \<and> m_Offset (set_content_type e h) = m_Offset h
    \<and> m_Partial (set_content_type e h) = m_Partial h \<and> m_RequestedLength (set_content_type e h) = m_RequestedLength h"
    unfolding set_content_type_def by (rule foldl_invariant) (auto split: prod.splits)
  then show "m_TempData (set_content_type e h) = m_TempData h" "m_Offset (set_content_type e h) = m_Offset h"
    "m_Partial (set_content_type e h) = m_Partial h" "m_RequestedLength (set_content_type e h) = m_RequestedLength h"
    by simp_all
qed

text \<open>What is asked of a response: the part it announces lies inside the data.\<close>

definition part_inside :: "SchemeState \<Rightarrow> bool" where
  "part_inside h \<longleftrightarrow> unat (m_Offset h) + unat (m_RequestedLength h) \<le> length (m_TempData h)"

lemma range_bounds_inside:
  assumes "range_bounds len first second s0 e0 = (s, e)" "0 < len" "s \<le> e"
  shows "unat s + unat (e - s + 1) \<le> unat len"
proof -
  have "e \<le> len - 1" using assms(1) by (auto simp: range_bounds_def Let_def split: if_splits prod.splits)
  moreover have "unat (len - 1) = unat len - 1" "0 < unat len"
    using assms(2) by (simp_all add: unat_minus_one word_less_nat_alt unat_gt_0)
  ultimately have e: "unat e < unat len" by (simp add: word_le_nat_alt)
  have "unat (e - s) = unat e - unat s" using assms(3) by (rule unat_sub)
  moreover have "unat (e - s + 1) = unat (e - s) + 1"
  proof -
    have "unat (e - s) + 1 < 2 ^ 32"
      using e unat_u32_less [of len] \<open>unat (e - s) = unat e - unat s\<close> by simp
    then show ?thesis by (simp add: unat_word_ariths)
  qed
  ultimately show ?thesis using e assms(3) by (simp add: word_le_nat_alt)
qed

lemma parse_range_cases:
  assumes "parse_range cast header h = Inr h'"
  obtains "m_TempData h' = m_TempData h" "m_Offset h' = m_Offset h" "m_RequestedLength h' = m_RequestedLength h"
  | first second s0 e0 s e where "range_bounds (of_nat (length (m_TempData h))) first second s0 e0 = (s, e)" "s \<le> e"
      "m_TempData h' = m_TempData h" "m_Offset h' = s" "m_RequestedLength h' = e - s + 1"
proof -
  have "(m_TempData h' = m_TempData h \<and> m_Offset h' = m_Offset h \<and> m_RequestedLength h' = m_RequestedLength h)
    \<or> (\<exists>first second s0 e0. let (s, e) = range_bounds (of_nat (length (m_TempData h))) first second s0 e0 in
        s \<le> e \<and> m_TempData h' = m_TempData h \<and> m_Offset h' = s \<and> m_RequestedLength h' = e - s + 1)"
    using assms
    by (fastforce simp: parse_range_def Let_def rbind_Inr_iff case_prod_unfold split: option.splits list.splits if_splits)
  then show thesis using that by (fastforce simp: Let_def case_prod_unfold)
qed

lemma parse_range_inside:
  assumes "parse_range cast header (fresh_state d) = Inr h" "d \<noteq> []" "length d < 2 ^ 32"
  shows "part_inside h \<and> m_TempData h = d"
proof -
  have l: "unat (of_nat (length d) :: u32) = length d" using assms(3) by (rule unat_of_nat_u32)
  then have pos: "0 < (of_nat (length d) :: u32)"
    using assms(2) by (simp add: word_less_nat_alt)
  from assms(1) show ?thesis
  proof (cases rule: parse_range_cases)
    case 1
    then show ?thesis by (simp add: part_inside_def fresh_state_fields l)
  next
    case (2 first second s0 e0 s e)
    then show ?thesis
      using range_bounds_inside [OF 2(1) _ 2(2)] pos l by (simp add: part_inside_def fresh_state_fields)
  qed
qed

subsection \<open>The cache\<close>

text \<open>A request: whether the frame is the main one, its identifier, the address and the range header. Every
  request has a handler of its own; the cache is shared.\<close>

type_synonym PageRequest = "bool \<times> int \<times> Uri \<times> string option"

definition serve :: "FileSystem \<Rightarrow> (string \<Rightarrow> u32 option) \<Rightarrow> string \<Rightarrow> string list \<Rightarrow> PageRequest \<Rightarrow> FileCache
    \<Rightarrow> (RequestOutcome \<times> SchemeState \<times> FileCache) res" where
  "serve fs cast scheme directory r cache = (case r of (main, frame, uri, header) \<Rightarrow>
     ProcessRequestInternal fs cast \<lparr>m_Scheme = scheme, m_Directory = directory, m_Main = main, m_Frame = frame\<rparr>
       uri header (fresh_state '''') cache)"

fun serve_all :: "FileSystem \<Rightarrow> (string \<Rightarrow> u32 option) \<Rightarrow> string \<Rightarrow> string list \<Rightarrow> PageRequest list \<Rightarrow> FileCache
    \<Rightarrow> (RequestOutcome \<times> SchemeState) list res" where
  "serve_all fs cast scheme directory [] cache = Inr []"
| "serve_all fs cast scheme directory (r # rs) cache =
     rbind (serve fs cast scheme directory r cache) (\<lambda>(out, h, cache').
     rbind (serve_all fs cast scheme directory rs cache') (\<lambda>outs. Inr ((out, h) # outs)))"

text \<open>The reference: every request is served as if the cache were empty.\<close>

fun serve_uncached :: "FileSystem \<Rightarrow> (string \<Rightarrow> u32 option) \<Rightarrow> string \<Rightarrow> string list \<Rightarrow> PageRequest list
    \<Rightarrow> (RequestOutcome \<times> SchemeState) list res" where
  "serve_uncached fs cast scheme directory [] = Inr []"
| "serve_uncached fs cast scheme directory (r # rs) =
     rbind (serve fs cast scheme directory r ClearCache) (\<lambda>(out, h, _).
     rbind (serve_uncached fs cast scheme directory rs) (\<lambda>outs. Inr ((out, h) # outs)))"

text \<open>An address whose host has no slash and whose path begins with one, if it has any.\<close>

definition plain_uri :: "Uri \<Rightarrow> bool" where
  "plain_uri uri \<longleftrightarrow> CHR ''/'' \<notin> set (uri_host uri) \<and> (uri_path uri = [] \<or> hd (uri_path uri) = CHR ''/'')"

definition cache_ok :: "FileSystem \<Rightarrow> string \<Rightarrow> string list \<Rightarrow> FileCache \<Rightarrow> bool" where
  "cache_ok fs scheme directory cache \<longleftrightarrow> (\<forall>frame key data host rest.
     cache_lookup cache frame key = Some data \<longrightarrow> CHR ''/'' \<notin> set host \<longrightarrow>
     key = vfs_path scheme host (CHR ''/'' # rest) \<longrightarrow> ReadLocalFile fs directory host (CHR ''/'' # rest) = Some data)"

lemma slash_split:
  "CHR ''/'' \<notin> set a \<Longrightarrow> CHR ''/'' \<notin> set b \<Longrightarrow> a @ CHR ''/'' # r = b @ CHR ''/'' # q \<Longrightarrow> a = b \<and> r = q"
  by (induction a arbitrary: b) (auto simp: Cons_eq_append_conv append_eq_Cons_conv)

lemma vfs_path_inject:
  assumes "CHR ''/'' \<notin> set a" "CHR ''/'' \<notin> set b" "vfs_path scheme a (CHR ''/'' # r) = vfs_path scheme b (CHR ''/'' # q)"
  shows "a = b \<and> r = q"
  using slash_split [OF assms(1,2)] assms(3) by (simp add: vfs_path_def)

lemma final_path_slash:
  assumes "p = [] \<or> hd p = CHR ''/''"
  shows "\<exists>rest. final_path p = CHR ''/'' # rest"
  using assms by (cases p) (auto simp: final_path_def Let_def)

lemma cache_ok_clear: "cache_ok fs scheme directory ClearCache"
  by (simp add: cache_ok_def ClearCache_def cache_lookup_def)

lemma cache_ok_insert:
  assumes "cache_ok fs scheme directory cache" "ReadLocalFile fs directory host (CHR ''/'' # rest) = Some data"
    and "CHR ''/'' \<notin> set host"
  shows "cache_ok fs scheme directory (cache_insert cache frame (vfs_path scheme host (CHR ''/'' # rest)) data)"
  unfolding cache_ok_def
proof (intro allI impI)
  fix f key d h r
  assume l: "cache_lookup (cache_insert cache frame (vfs_path scheme host (CHR ''/'' # rest)) data) f key = Some d"
    and h: "CHR ''/'' \<notin> set h" "key = vfs_path scheme h (CHR ''/'' # r)"
  show "ReadLocalFile fs directory h (CHR ''/'' # r) = Some d"
  proof (cases "f = frame \<and> key = vfs_path scheme host (CHR ''/'' # rest)")
    case True
    with l have "d = data" by (simp add: cache_lookup_def cache_insert_def)
    moreover have "host = h \<and> rest = r" using True h assms(3) by (intro vfs_path_inject [where scheme = scheme]) auto
    ultimately show ?thesis using assms(2) by simp
  next
    case False
    with l have "cache_lookup cache f key = Some d"
      by (auto simp: cache_lookup_def cache_insert_def split: if_splits option.splits)
    then show ?thesis using assms(1) h by (auto simp: cache_ok_def)
  qed
qed

text \<open>A consistent cache answers like the file system.\<close>

lemma cache_ok_found:
  assumes "cache_ok fs scheme directory cache" "plain_uri uri"
  shows "(case cache_lookup cache frame (vfs_path scheme (uri_host uri) (final_path (uri_path uri))) of
      Some data \<Rightarrow> Some data
    | None \<Rightarrow> ReadLocalFile fs directory (uri_host uri) (final_path (uri_path uri)))
    = ReadLocalFile fs directory (uri_host uri) (final_path (uri_path uri))"
proof -
  obtain rest where r: "final_path (uri_path uri) = CHR ''/'' # rest"
    using assms(2) final_path_slash by (auto simp: plain_uri_def)
  have "CHR ''/'' \<notin> set (uri_host uri)" using assms(2) by (simp add: plain_uri_def)
  with assms(1) show ?thesis unfolding r by (auto simp: cache_ok_def split: option.split)
qed

text \<open>A request that is served: its data are read from the file.\<close>

lemma serve_cases:
  assumes "cache_ok fs scheme directory cache" "plain_uri uri"
  shows "case serve fs cast scheme directory (main, frame, uri, header) cache of
      Inl e \<Rightarrow> serve fs cast scheme directory (main, frame, uri, header) ClearCache = Inl e
    | Inr (out, h, cache') \<Rightarrow> cache_ok fs scheme directory cache'
        \<and> (\<exists>c. serve fs cast scheme directory (main, frame, uri, header) ClearCache = Inr (out, h, c))"
proof -
  obtain rest where r: "final_path (uri_path uri) = CHR ''/'' # rest"
    using assms(2) final_path_slash by (auto simp: plain_uri_def)
  have host: "CHR ''/'' \<notin> set (uri_host uri)" using assms(2) by (simp add: plain_uri_def)
  note f = cache_ok_found [OF assms] cache_ok_found [OF cache_ok_clear assms(2)]
  show ?thesis
    unfolding serve_def prod.case ProcessRequestInternal_def Let_def SchemeHandler.simps f
    using assms(1) cache_ok_insert [OF assms(1) _ host]
    by (auto simp: r rbind_def split: option.split sum.split)
qed

lemma serve_all_uncached:
  "cache_ok fs scheme directory cache \<Longrightarrow> \<forall>(_, _, uri, _) \<in> set rs. plain_uri uri \<Longrightarrow>
    serve_all fs cast scheme directory rs cache = serve_uncached fs cast scheme directory rs"
proof (induction rs arbitrary: cache)
  case (Cons r rs)
  obtain main frame uri header where r: "r = (main, frame, uri, header)" by (cases r)
  have "plain_uri uri" using Cons.prems(2) by (simp add: r)
  from serve_cases [OF Cons.prems(1) this, of cast main frame header] Cons show ?case
    by (auto simp: r split: sum.splits prod.splits)
qed simp

text \<open>What a served request shows.\<close>

lemma serve_uncached_continued:
  assumes "serve fs cast scheme directory (main, frame, uri, header) ClearCache = Inr (Continued, h, c)"
  shows "\<not> (scheme = ''dew'' \<and> uri_host uri = ''ui'' \<and> \<not> main)"
    "\<exists>real. take (length directory) real = directory \<and> file_text fs real = Some (m_TempData h)"
    "m_TempData h \<noteq> [] \<Longrightarrow> length (m_TempData h) < 2 ^ 32 \<Longrightarrow> part_inside h"
proof -
  let ?e = "set_content_type (ToLower (path_extension (final_path (uri_path uri))))"
  have no_cache: "cache_lookup ClearCache f k = None" for f k
    by (simp add: cache_lookup_def ClearCache_def)
  from assms obtain d h1 where d: "ReadLocalFile fs directory (uri_host uri) (final_path (uri_path uri)) = Some d"
    and h1: "(case header of None \<Rightarrow> Inr (fresh_state d) | Some hdr \<Rightarrow> parse_range cast hdr (fresh_state d)) = Inr h1"
    and h: "h = ?e h1" and main: "\<not> (scheme = ''dew'' \<and> uri_host uri = ''ui'' \<and> \<not> main)"
    by (auto simp: serve_def ProcessRequestInternal_def Let_def no_cache rbind_Inr_iff split: if_splits option.splits)
  show "\<not> (scheme = ''dew'' \<and> uri_host uri = ''ui'' \<and> \<not> main)" by (rule main)
  have data: "m_TempData h1 = d"
    using h1 by (auto simp: fresh_state_fields split: option.splits elim: parse_range_cases)
  then show "\<exists>real. take (length directory) real = directory \<and> file_text fs real = Some (m_TempData h)"
    using d by (auto simp: h set_content_type_fields ReadLocalFile_def Let_def split: if_splits option.splits)
  assume "m_TempData h \<noteq> []" "length (m_TempData h) < 2 ^ 32"
  then have "d \<noteq> []" "length d < 2 ^ 32" using data by (simp_all add: h set_content_type_fields)
  then have "part_inside h1"
    using h1 parse_range_inside by (auto simp: part_inside_def fresh_state_fields unat_of_nat_u32 split: option.splits)
  then show "part_inside h" by (simp add: h part_inside_def set_content_type_fields)
qed

definition served_safely :: "FileSystem \<Rightarrow> string \<Rightarrow> string list \<Rightarrow> PageRequest \<Rightarrow> RequestOutcome \<times> SchemeState \<Rightarrow> bool" where
  "served_safely fs scheme directory = (\<lambda>(main, frame, uri, header) (out, h). out = Continued \<longrightarrow>
     \<not> (scheme = ''dew'' \<and> uri_host uri = ''ui'' \<and> \<not> main)
   \<and> (\<exists>real. take (length directory) real = directory \<and> file_text fs real = Some (m_TempData h)))"

lemma serve_uncached_safe:
  "serve_uncached fs cast scheme directory rs = Inr outs \<Longrightarrow> list_all2 (served_safely fs scheme directory) rs outs"
proof (induction rs arbitrary: outs)
  case (Cons r rs)
  obtain main frame uri header where r: "r = (main, frame, uri, header)" by (cases r)
  from Cons.prems obtain out h c os where o: "serve fs cast scheme directory r ClearCache = Inr (out, h, c)"
    "serve_uncached fs cast scheme directory rs = Inr os" "outs = (out, h) # os"
    by (auto simp: rbind_Inr_iff)
  have "served_safely fs scheme directory r (out, h)"
    unfolding r served_safely_def prod.case
  proof
    assume "out = Continued"
    then show "\<not> (scheme = ''dew'' \<and> uri_host uri = ''ui'' \<and> \<not> main)
      \<and> (\<exists>real. take (length directory) real = directory \<and> file_text fs real = Some (m_TempData h))"
      using serve_uncached_continued(1,2) [of fs cast scheme directory main frame uri header h c] o(1)
      by (simp add: r)
  qed
  then show ?case using Cons.IH [OF o(2)] by (simp add: o(3))
qed simp

subsection \<open>Properties of the served files\<close>


definition demo_files :: FileSystem where
  "demo_files = \<lparr>exists_file = (\<lambda>_. True),
     canonical = (\<lambda>p. if p = [''mods'', ''ui'', ''/a.png''] then Some [''mods'', ''ui'', ''a.png''] else None),
     file_text = (\<lambda>p. if p = [''mods'', ''ui'', ''a.png''] then Some ''pixels'' else None)\<rparr>"

definition demo_request :: "bool \<Rightarrow> string \<Rightarrow> PageRequest" where
  "demo_request main path = (main, 7, \<lparr>uri_valid = True, uri_scheme = ''dew'', uri_host = ''ui'', uri_path = path\<rparr>, None)"




text \<open>The test on the name does not keep the overlay's own files from other frames: under another host a path with a
  parent reference leads to the same file.\<close>

lemma other_host_reaches_ui:
  assumes "exists_file fs [dir, ''x'', ''/../ui/a.png'']" "canonical fs [dir, ''x'', ''/../ui/a.png''] = Some [dir, ''ui'', ''a.png'']"
    and "file_text fs [dir, ''ui'', ''a.png''] = Some data"
  shows "\<exists>h c. serve fs cast ''dew'' [dir] (False, 7, \<lparr>uri_valid = True, uri_scheme = ''dew'', uri_host = ''x'',
      uri_path = ''/../ui/a.png''\<rparr>, None) ClearCache = Inr (Continued, h, c) \<and> m_TempData h = data"
  using assms
  by (simp add: serve_def ProcessRequestInternal_def Let_def final_path_def ReadLocalFile_def cache_lookup_def ClearCache_def
      set_content_type_fields fresh_state_fields)

text \<open>The part of a file a response announces lies inside the file, whatever the range header asks for,
  if the file is not empty.\<close>

theorem announced_part_inside:
  assumes "serve fs cast scheme directory r ClearCache = Inr (Continued, h, c)" "m_TempData h \<noteq> []"
    and "length (m_TempData h) < 2 ^ 32"
  shows "unat (m_Offset h) + unat (m_RequestedLength h) \<le> length (m_TempData h)"
proof -
  obtain main frame uri header where "r = (main, frame, uri, header)" by (cases r)
  then show ?thesis using serve_uncached_continued(3) assms by (auto simp: part_inside_def)
qed

definition demo_range_state :: SchemeState where
  "demo_range_state = \<lparr>m_TempData = ''pixels'', m_RequestedRange = ''2-9'', m_ContentType = ''image/png'',
     m_RequestedLength = 4, m_Partial = True, m_Offset = 2, m_ShouldCache = True\<rparr>"

theorem announced_part_inside_witness:
  "unat (m_Offset demo_range_state) + unat (m_RequestedLength demo_range_state) \<le> length (m_TempData demo_range_state)"
proof -
  let ?r = "serve demo_files (\<lambda>s. if s = ''2'' then Some 2 else Some 9) ''dew'' [''mods'']
      (True, 7, \<lparr>uri_valid = True, uri_scheme = ''dew'', uri_host = ''ui'', uri_path = ''/a.png''\<rparr>, Some ''bytes=2-9'') ClearCache"
  have "(case ?r of Inl _ \<Rightarrow> None | Inr (out, h, _) \<Rightarrow> Some (out, h)) = Some (Continued, demo_range_state)"
    unfolding serve_def prod.case by code_simp
  then obtain c where "?r = Inr (Continued, demo_range_state, c)"
    by (auto split: sum.splits prod.splits)
  then show ?thesis
    by (rule announced_part_inside) (simp_all add: demo_range_state_def)
qed

text \<open>C22. How a response is delivered, whatever the sizes of the browser's calls: as long as the calls ask for no
  more than is left, together they deliver the next bytes of the file. A call that asks for more than is left is fine at the start,
  where it delivers the whole file; behind the first byte it delivers a null byte too many if the buffer takes the
  whole file; in every other case it copies as many bytes as the whole file has, past the end of the data or of the
  buffer, which is undefined. The file is shorter than 2^31 bytes.\<close>

theorem ReadResponse_delivers:
  assumes "m_Offset h = of_nat start" "start + sum_list sizes < length (m_TempData h)" "length (m_TempData h) < 2 ^ 31"
  shows "read_calls (sizes @ [b]) h = (let offset = start + sum_list sizes; left = length (m_TempData h) - offset in
    if b \<le> left
    then Inr (take (sum_list sizes + b) (drop start (m_TempData h)), h\<lparr>m_Offset := of_nat (offset + b)\<rparr>)
    else if offset = 0 then Inr (m_TempData h, h\<lparr>m_Offset := of_nat (length (m_TempData h))\<rparr>)
    else if offset = 1 \<and> length (m_TempData h) \<le> b
    then Inr (drop start (m_TempData h) @ [NUL], h\<lparr>m_Offset := of_nat (1 + length (m_TempData h))\<rparr>)
    else Inl Undefined)"
proof -
  let ?d = "m_TempData h" and ?o = "start + sum_list sizes"
  note r = ReadResponse_at [of "h\<lparr>m_Offset := of_nat ?o\<rparr>" ?o b]
  have t: "take (sum_list sizes) (drop start ?d) @ take m (drop ?o ?d) = take (sum_list sizes + m) (drop start ?d)" for m
    by (simp add: take_add [of "sum_list sizes"] add.commute [of start])
  have d: "take (sum_list sizes) (drop start ?d) @ drop ?o ?d @ xs = drop start ?d @ xs" for xs
    using append_take_drop_id [of "sum_list sizes" "drop start ?d"] by (simp add: add.commute [of start])
  show ?thesis
    unfolding read_calls_from [OF assms] read_calls.simps Let_def
    using r assms(2,3) t d by (auto simp: rbind_def simp del: of_nat_add)
qed

theorem ReadResponse_delivers_witness:
  "read_calls [2, 3, 1] (fresh_state ''pixels'') = Inr (''pixels'', (fresh_state ''pixels'')\<lparr>m_Offset := 6\<rparr>)
   \<and> read_calls [4, 4] (fresh_state ''pixels'') = Inl Undefined"
  using ReadResponse_delivers [of "fresh_state ''pixels''" 0 "[2, 3]" 1] ReadResponse_delivers [of "fresh_state ''pixels''" 0 "[4]" 4]
  by (simp add: fresh_state_fields Let_def)

text \<open>A range that is no number ends the program: the exception of the conversion leaves the thread.\<close>

lemma bad_range_terminates:
  assumes "serve fs cast scheme directory (main, frame, uri, None) ClearCache = Inr (Continued, h, c)"
    and "substr_find header (CHR ''='') = Some i" "split_on (CHR ''-'') (hd (split_on (CHR '','') (drop (i + 1) header))) = [first, second]"
    and "first \<noteq> []" "cast first = None"
  shows "serve fs cast scheme directory (main, frame, uri, Some header) ClearCache = Inl Terminated"
  using assms by (auto simp: serve_def ProcessRequestInternal_def Let_def parse_range_def cast_size_def
      split: if_splits option.splits)

end
