(* ===== verification/InfoServer.thy ===== *)
theory InfoServer
  imports Connect
begin

text \<open>
  The information server of a host, in \<open>Patches/Network.cpp\<close>: the socket it listens on, the announcements
  to the master servers, and the answer to a query, which \<open>CommandServerConnect\<close> (theory \<open>Connect\<close>) reads
  on the other side. What the engine keeps in its memory is a record; the sockets, the HTTP library
  and the JSON writer are parameters.
\<close>

subsection \<open>What the server knows\<close>

text \<open>The places of the engine's player tables the answer is made of; names are converted to narrow text.\<close>

record InfoPlayer =
  info_score :: u16
  info_kills :: u16
  info_assists :: u16
  info_deaths :: u16
  info_name :: string
  info_menu_name :: string
  info_address :: u32
  info_team :: u16
  info_alive :: u8
  info_uid :: u64

record ServerInfo =
  server_name :: string
  host_player :: string
  sprint_enabled :: string
  sprint_unlimited :: string
  dual_wielding :: string
  assassination_enabled :: string
  server_password :: string
  max_players :: u32
  game_port :: u32
  map_name :: string
  map_variant_name :: string
  variant_name :: string
  variant_type :: u32
  game_mode :: u32
  lobby_map_name :: string
  lobby_variant_name :: string
  lobby_variant_type :: u32
  num_players :: u32
  required_mods :: "string list"
  session_id :: "u8 list"
  session_address :: "u8 list"
  engine_version :: string
  eldewrito_version :: string
  active_session :: "Session option"
  info_players :: "InfoPlayer list"

definition GameTypeNames :: "string list" where
  "GameTypeNames = [''none'', ''ctf'', ''slayer'', ''oddball'', ''koth'', ''forge'', ''vip'', ''juggernaut'', ''territories'',
     ''assault'', ''infection'']"

subsection \<open>The answer\<close>

text \<open>\<open>Writer::String\<close> of a null-terminated text, and \<open>Writer::Int\<close> of an unsigned integer.\<close>

definition written_string :: "string \<Rightarrow> Json" where
  "written_string s = JString (c_str s)"

definition written_int :: "u32 \<Rightarrow> Json" where
  "written_int w = JInt (sint w)"

text \<open>The map, the variant with its type, and the state that are shown: in the lobby they are read from
  other places.\<close>

definition shown_game :: "ServerInfo \<Rightarrow> string \<times> string \<times> u32 \<times> string" where
  "shown_game i =
     (if game_mode i = 3 then
        if c_str (map_name i) = ''mainmenu'' then (lobby_map_name i, lobby_variant_name i, lobby_variant_type i, ''InLobby'')
        else (map_name i, variant_name i, variant_type i, ''Loading'')
      else (map_name i, variant_name i, variant_type i, ''InGame''))"

definition variant_type_member :: "u32 \<Rightarrow> (string \<times> Json) list" where
  "variant_type_member t =
     (if 0 \<le> sint t \<and> sint t < int (length GameTypeNames) then [(''variantType'', written_string (GameTypeNames ! nat (sint t)))]
      else [])"

definition info_player :: "InfoPlayer \<Rightarrow> Json list" where
  "info_player p =
     (if info_menu_name p = [] \<and> info_name p = [] \<and> info_address p = 0 then []
      else [JObject [(''name'', written_string (info_menu_name p)), (''score'', JInt (uint (info_score p))),
        (''kills'', JInt (uint (info_kills p))), (''assists'', JInt (uint (info_assists p))),
        (''deaths'', JInt (uint (info_deaths p))), (''team'', JInt (uint (info_team p))),
        (''isAlive'', JBool (info_alive p = 1)), (''uid'', written_string (BytesToHexString (le_bytes 8 (info_uid p))))]])"

text \<open>The request is received into a buffer of 4096 bytes that was zeroed before; reading it as a text is
  undefined when no byte of it is null.\<close>

definition crlf :: string where "crlf = [CHR 0x0D, CHR 0x0A]"

definition auth_header :: "string \<Rightarrow> string" where
  "auth_header password =
     ''Authorization: Basic '' @ Base64Encode (map char_byte (''dorito:'' @ password)) @ crlf"

definition request_text :: "string \<Rightarrow> string res" where
  "request_text received =
     (if length received < 4096 \<or> NUL \<in> set (take 4096 received) then Inr (c_str (take 4096 received)) else Inl Undefined)"

definition authenticated :: "string \<Rightarrow> string \<Rightarrow> bool res" where
  "authenticated password received =
     (if password = [] then Inr True
      else rbind (request_text received) (\<lambda>t. Inr (str_find (auth_header password) t \<noteq> None)))"

definition join_members :: "ServerInfo \<Rightarrow> bool \<Rightarrow> (string \<times> Json) list" where
  "join_members i allowed =
     (if allowed
      then [(''xnkid'', written_string (BytesToHexString (session_id i))),
            (''xnaddr'', written_string (BytesToHexString (session_address i))),
            (''players'', JArray (concat (map info_player (take 16 (info_players i)))))]
      else [(''passworded'', JBool True)])"

definition info_members :: "ServerInfo \<Rightarrow> bool \<Rightarrow> (string \<times> Json) list" where
  "info_members i allowed = (let (mapName, variantName, variantType, status) = shown_game i in
     [(''name'', written_string (server_name i)), (''port'', written_int (game_port i)),
      (''hostPlayer'', written_string (host_player i)), (''sprintEnabled'', written_string (sprint_enabled i)),
      (''sprintUnlimitedEnabled'', written_string (sprint_unlimited i)), (''dualWielding'', written_string (dual_wielding i)),
      (''assassinationEnabled'', written_string (assassination_enabled i))]
     @ (case active_session i of None \<Rightarrow> [] | Some s \<Rightarrow> if IsEstablished s then [(''teams'', JBool (HasTeams s))] else [])
     @ [(''map'', written_string (map_variant_name i)), (''mapFile'', written_string mapName),
        (''variant'', written_string variantName)]
     @ variant_type_member variantType
     @ [(''status'', written_string status), (''numPlayers'', written_int (num_players i)),
        (''mods'', JArray (map written_string (required_mods i))), (''maxPlayers'', written_int (max_players i))]
     @ join_members i allowed
     @ [(''gameVersion'', written_string (engine_version i)), (''eldewritoVersion'', written_string (eldewrito_version i))])"

text \<open>The reply in two parts, the header with its empty line and the body; \<open>write\<close> is the JSON writer.\<close>

definition info_header :: "ServerInfo \<Rightarrow> string \<Rightarrow> string" where
  "info_header i replyData =
     ''HTTP/1.1 200 OK'' @ crlf @ ''Content-Type: application/json'' @ crlf @ ''Access-Control-Allow-Origin: *'' @ crlf
     @ ''Server: ElDewrito/'' @ eldewrito_version i @ crlf @ ''Content-Length: '' @ dec (length replyData) @ crlf
     @ ''Connection: close'' @ crlf @ crlf"

definition info_reply :: "(Json \<Rightarrow> string) \<Rightarrow> ServerInfo \<Rightarrow> string \<Rightarrow> (string \<times> string) res" where
  "info_reply write i received = rbind (authenticated (server_password i) received) (\<lambda>allowed.
     let replyData = c_str (write (JObject (info_members i allowed))) in Inr (info_header i replyData, replyData))"

subsection \<open>Window messages\<close>

text \<open>\<open>networkWndProc\<close>. Sockets are numbers; what it asks of the machine is recorded. The messages the game's own
  procedure handles are passed on.\<close>

datatype WindowMessage =
    GameMessage
  | SocketFailed nat
  | SocketAccept nat
  | SocketRead nat string
  | SocketClose nat
  | SocketOther nat

datatype InfoEffect =
    Executed string
  | PassedOn
  | ClosedSocket nat
  | AcceptedClient nat
  | SentReply nat string
  | StartedVote
  | SetServerPort string
  | ForwardedPort bool u32
  | Listening u32
  | ClosedListener

record NetState =
  infoSocketOpen :: bool
  lastAnnounce :: int

definition serverContactTimeLimit :: int where "serverContactTimeLimit = 30 + (2 * 60)"

definition announce_if_due :: "bool \<Rightarrow> int \<Rightarrow> NetState \<Rightarrow> InfoEffect list \<times> NetState" where
  "announce_if_due shouldAnnounce now st =
     (if infoSocketOpen st \<and> shouldAnnounce \<and> serverContactTimeLimit < now - lastAnnounce st
      then ([Executed ''Server.Announce''], st\<lparr>lastAnnounce := now\<rparr>) else ([], st))"

definition networkWndProc :: "(Json \<Rightarrow> string) \<Rightarrow> ServerInfo \<Rightarrow> bool \<Rightarrow> int \<Rightarrow> WindowMessage \<Rightarrow> NetState
    \<Rightarrow> (InfoEffect list \<times> NetState) res" where
  "networkWndProc write i shouldAnnounce now msg st =
     (let (announced, st1) = announce_if_due shouldAnnounce now st in
      case msg of
        GameMessage \<Rightarrow> Inr (announced @ [PassedOn], st1)
      | SocketFailed s \<Rightarrow> Inr (announced @ [ClosedSocket s], st1)
      | SocketAccept s \<Rightarrow> Inr (announced @ [AcceptedClient s], st1)
      | SocketRead s received \<Rightarrow> rbind (info_reply write i received) (\<lambda>(header, body).
          Inr (announced @ [SentReply s (header @ body)], st1))
      | SocketClose s \<Rightarrow> Inr (announced @ [ClosedSocket s], st1)
      | SocketOther s \<Rightarrow> Inr (announced, st1))"

subsection \<open>Opening and closing the socket\<close>

text \<open>The loop that looks for a free port; \<open>binds\<close> tells whether the socket can be bound to a 16-bit port.
  The inner result is empty when the loop gives up.\<close>

partial_function (option) bind_loop :: "(u16 \<Rightarrow> bool) \<Rightarrow> u32 \<Rightarrow> u32 \<Rightarrow> u32 \<Rightarrow> u32 option option" where
  "bind_loop binds gamePort limit port =
     (if binds (ucast port) then Some (Some port)
      else (let p1 = port + 1; p2 = (if p1 = gamePort then p1 + 1 else p1) in
            if limit < p2 then Some None else bind_loop binds gamePort limit p2))"

record ListenEnv =
  has_window :: bool
  free_port :: "u16 \<Rightarrow> bool"
  server_port :: u32
  env_game_port :: u32
  upnp_enabled :: bool

definition find_port :: "(u16 \<Rightarrow> bool) \<Rightarrow> u32 \<Rightarrow> u32 \<Rightarrow> u32 option option" where
  "find_port binds gamePort serverPort =
     bind_loop binds gamePort (serverPort + 10) (if serverPort = gamePort then serverPort + 1 else serverPort)"

definition StartInfoServer :: "ListenEnv \<Rightarrow> NetState \<Rightarrow> (bool \<times> InfoEffect list \<times> NetState) option" where
  "StartInfoServer env st =
     (if infoSocketOpen st then Some (True, [], st)
      else if \<not> has_window env then Some (False, [StartedVote], st)
      else Option.bind (find_port (free_port env) (env_game_port env) (server_port env)) (\<lambda>found.
        case found of
          None \<Rightarrow> Some (False, [StartedVote], st)
        | Some port \<Rightarrow> Some (True, [StartedVote, SetServerPort (to_string32 port)]
            @ (if upnp_enabled env then [ForwardedPort True port, ForwardedPort False (env_game_port env)] else [])
            @ [Listening port], st\<lparr>infoSocketOpen := True\<rparr>)))"

definition StopInfoServer :: "NetState \<Rightarrow> InfoEffect list \<times> NetState" where
  "StopInfoServer st =
     (if \<not> infoSocketOpen st then ([], st)
      else ([ClosedListener, Executed ''Server.Unannounce''], st\<lparr>infoSocketOpen := False, lastAnnounce := 0\<rparr>))"

text \<open>A session the host creates: one that is online opens the socket, any other closes it.\<close>

definition create_session_hook :: "ListenEnv \<Rightarrow> u32 \<Rightarrow> bool \<Rightarrow> NetState \<Rightarrow> (InfoEffect list \<times> NetState) option" where
  "create_session_hook env isOnline isHost st =
     (if \<not> isHost then Some ([], st)
      else if isOnline = 1 then Option.bind (StartInfoServer env st) (\<lambda>(_, es, st'). Some (es, st'))
      else Some (StopInfoServer st))"

subsection \<open>Who may join\<close>

lemma str_find_None_iff: "str_find p s = None \<longleftrightarrow> \<not> (\<exists>u v. s = u @ p @ v)"
proof (induction s)
  case (Cons c s)
  have "is_prefix_of p (c # s) \<longleftrightarrow> (\<exists>v. c # s = p @ v)"
    unfolding is_prefix_of_def by (metis append_eq_conv_conj)
  moreover have "(\<exists>u v. c # s = u @ p @ v) \<longleftrightarrow> (\<exists>v. c # s = p @ v) \<or> (\<exists>u v. s = u @ p @ v)"
    by (metis append_Cons append_Nil list.inject neq_Nil_conv)
  ultimately show ?case using Cons.IH by simp
qed simp

definition carries :: "string \<Rightarrow> string \<Rightarrow> bool" where
  "carries received line \<longleftrightarrow> (\<exists>u v. c_str (take 4096 received) = u @ line @ v)"

lemma authenticated_cases:
  "authenticated password received =
    (if password = [] then Inr True
     else if 4096 \<le> length received \<and> NUL \<notin> set (take 4096 received) then Inl Undefined
     else Inr (carries received (auth_header password)))"
proof -
  have "carries received (auth_header password) \<longleftrightarrow> str_find (auth_header password) (c_str (take 4096 received)) \<noteq> None"
    by (simp add: carries_def str_find_None_iff)
  then show ?thesis by (auto simp: authenticated_def request_text_def)
qed

lemma info_reply_fits:
  assumes "length received < 4096" "info_reply write i received = Inr (header, body)"
  shows "body = c_str (write (JObject (info_members i
      (server_password i = [] \<or> carries received (auth_header (server_password i))))))"
    "take 15 header = ''HTTP/1.1 200 OK''"
  using assms by (auto simp: info_reply_def rbind_Inr_iff authenticated_cases Let_def info_header_def split: if_splits)

lemma info_reply_total: "length received < 4096 \<Longrightarrow> \<exists>reply. info_reply write i received = Inr reply"
  by (auto simp: info_reply_def authenticated_cases Let_def)

text \<open>The members the client looks for.\<close>

lemma info_members_lookup:
  "map_of (info_members i allowed) ''gameVersion'' = Some (written_string (engine_version i))"
  "map_of (info_members i allowed) ''eldewritoVersion'' = Some (written_string (eldewrito_version i))"
  "map_of (info_members i allowed) ''port'' = Some (written_int (game_port i))"
  "map_of (info_members i allowed) ''xnkid'' = (if allowed then Some (written_string (BytesToHexString (session_id i))) else None)"
  "map_of (info_members i allowed) ''xnaddr'' = (if allowed then Some (written_string (BytesToHexString (session_address i))) else None)"
  by (simp_all add: info_members_def join_members_def variant_type_member_def Let_def case_prod_unfold map_add_def
      split: option.split)

lemma info_members_hidden:
  "map_of (info_members i False) ''players'' = None" "map_of (info_members i False) ''passworded'' = Some (JBool True)"
  "map_of (info_members i False) ''hostPlayer'' = Some (written_string (host_player i))"
  "map_of (info_members i False) ''numPlayers'' = Some (written_int (num_players i))"
  by (simp_all add: info_members_def join_members_def variant_type_member_def Let_def case_prod_unfold map_add_def
      split: option.split)

lemma info_members_advertise:
  assumes "NUL \<notin> set (engine_version i)" "NUL \<notin> set (eldewrito_version i)"
    "GameVersion env = engine_version i" "EldewritoVersion env = eldewrito_version i"
  shows "advertises (info_members i True) env (session_id i) (session_address i) (sint (game_port i))"
  using assms by (simp add: advertises_def info_members_lookup written_string_def written_int_def hex_no_nul c_str_id)

lemma json_int_sint: "json_int (JInt (sint (w :: u32))) = Inr (sint w)"
proof -
  have "- (2 ^ 31) \<le> sint w" "sint w < 2 ^ 31"
    using sint_greater_eq [of w] sint_less [of w] by simp_all
  then show ?thesis by (simp add: json_int_def)
qed


text \<open>What a client reads from a reply.\<close>

lemma query_server_reads:
  assumes "SendRequest env (''http://'' @ host @ '':'' @ dec_int httpPort @ ''/'')
      (if password = [] then [] else ''dorito'') password = Inr (header, body)"
    and "take 15 header = ''HTTP/1.1 200 OK''" "parse_document env (c_str body) = Some (JObject json)"
  shows "query_server env address host httpPort password ip = read_server_info env address ip json"
proof -
  have e: "length expected_header = 15" "expected_header = ''HTTP/1.1 200 OK''" by (simp_all add: expected_header_def)
  have "length (take 15 header) = 15" using assms(2) by simp
  then have "15 \<le> length header" by simp
  then show ?thesis using assms e by (simp add: query_server_def)
qed

lemma read_server_info_refused:
  assumes "GameVersion env = engine_version i"
  shows "read_server_info env address ip (info_members i False) = Inr (False, ''Incorrect password specified.'', None)"
  by (simp add: read_server_info_def has_def info_members_lookup written_string_def written_int_def is_string_def is_number_def)

subsection \<open>Properties\<close>

text \<open>C16. Client and host together: a client that asks the host it was told to connect to joins its session,
  with the identifiers the engine gave the session, the first IPv4 address found for the host's name and the
  port of the game, if the host has no password or the request has the line with the name
  \<open>dorito\<close> and the password; otherwise the client is told that its password is wrong.\<close>

theorem password_admits_client:
  assumes "split_address address = Inr (host, httpPort)" "getaddrinfo env (c_str host) = Inr info"
    and "first_ipv4 info = ip" "ip \<noteq> 0" "length received < 4096" "info_reply write i received = Inr reply"
    and "SendRequest env (''http://'' @ host @ '':'' @ dec_int httpPort @ ''/'')
      (if password = [] then [] else ''dorito'') password = Inr reply"
    and "\<And>allowed. parse_document env (c_str (write (JObject (info_members i allowed)))) = Some (JObject (info_members i allowed))"
    and "GameVersion env = engine_version i" "EldewritoVersion env = eldewrito_version i"
    and "NUL \<notin> set (engine_version i)" "NUL \<notin> set (eldewrito_version i)"
    and "length (session_id i) = 16" "length (session_address i) = 16"
  shows "CommandServerConnect env [address, password] =
    (if server_password i = [] \<or> carries received (auth_header (server_password i))
     then Inr (True, ''Attempting connection to '' @ address @ ''...'',
       Some \<lparr>SyslinkData = syslink_block (session_id i @ session_address i) ip (ucast (game_port i)),
             joinId = session_id i, joinAddr = session_address i\<rparr>)
     else Inr (False, ''Incorrect password specified.'', None))"
proof -
  obtain header body where reply: "reply = (header, body)" by (cases reply)
  let ?allowed = "server_password i = [] \<or> carries received (auth_header (server_password i))"
  note fits = info_reply_fits [OF assms(5) assms(6) [unfolded reply]]
  have connect: "CommandServerConnect env [address, password] = query_server env address host httpPort password ip"
    using assms(1-4) by (simp add: CommandServerConnect_def)
  also have "\<dots> = read_server_info env address ip (info_members i ?allowed)"
    by (rule query_server_reads [OF assms(7) [unfolded reply] fits(2)]) (simp add: fits(1) assms(8))
  finally have read: "CommandServerConnect env [address, password] = read_server_info env address ip (info_members i ?allowed)" .
  show ?thesis
  proof (cases ?allowed)
    case True
    have port: "(of_int (sint (game_port i)) :: u16) = ucast (game_port i)"
      by (intro bit_word_eqI) (simp add: bit_signed_iff bit_unsigned_iff min_def)
    show ?thesis
      using read_server_info_advertised [OF info_members_advertise [OF assms(11,12,9,10)] assms(13,14) _ _ json_int_sint, of address ip]
        assms(9-12) True read port by simp
  next
    case False
    then show ?thesis using read read_server_info_refused [of env i] assms(9) by auto
  qed
qed


definition demo_info :: ServerInfo where
  "demo_info = \<lparr>server_name = ''Dew'', host_player = ''Host'', sprint_enabled = ''0'', sprint_unlimited = ''0'', dual_wielding = ''1'',
     assassination_enabled = ''1'', server_password = ''pw'', max_players = 16, game_port = 11774, map_name = ''mainmenu'',
     map_variant_name = ''Guardian'', variant_name = '''', variant_type = 0, game_mode = 3, lobby_map_name = ''guardian'',
     lobby_variant_name = ''Slayer'', lobby_variant_type = 2, num_players = 1, required_mods = [],
     session_id = replicate 16 1, session_address = replicate 16 2, engine_version = ''1.106708'', eldewrito_version = ''0.6.0.0'',
     active_session = None,
     info_players = [\<lparr>info_score = 3, info_kills = 1, info_assists = 0, info_deaths = 0, info_name = ''Host'', info_menu_name = ''Host'',
       info_address = 1, info_team = 0, info_alive = 1, info_uid = 5\<rparr>]\<rparr>"

definition demo_write :: "Json \<Rightarrow> string" where
  "demo_write d = (if d = JObject (info_members demo_info True) then ''open'' else ''closed'')"

definition demo_client :: ConnectEnv where
  "demo_client = \<lparr>getaddrinfo = (\<lambda>_. Inr [(True, 0x0200A8C0)]),
     SendRequest = (\<lambda>_ _ password. case info_reply demo_write demo_info (''GET /'' @ crlf @ auth_header password @ crlf) of
       Inr reply \<Rightarrow> Inr reply | Inl _ \<Rightarrow> Inl (0, 0)),
     parse_document = (\<lambda>t. Some (JObject (info_members demo_info (t = ''open'')))),
     GameVersion = ''1.106708'', EldewritoVersion = ''0.6.0.0''\<rparr>"

lemma demo_write_parse: "parse_document demo_client (c_str (demo_write (JObject (info_members demo_info allowed))))
    = Some (JObject (info_members demo_info allowed))"
proof -
  have "info_members demo_info False \<noteq> info_members demo_info True"
    using info_members_lookup(4) [of demo_info True] info_members_lookup(4) [of demo_info False] by force
  then show ?thesis by (cases allowed) (simp_all add: demo_client_def demo_write_def c_str_def NUL_def)
qed

theorem password_admits_client_witness:
  "CommandServerConnect demo_client [''example.org'', ''pw''] = Inr (True, ''Attempting connection to example.org...'',
     Some \<lparr>SyslinkData = syslink_block (replicate 16 1 @ replicate 16 2) (byteswap_ulong 0x0200A8C0) 11774,
           joinId = replicate 16 1, joinAddr = replicate 16 2\<rparr>)"
proof -
  let ?r = "''GET /'' @ crlf @ auth_header ''pw'' @ crlf"
  have b: "Base64Encode (map char_byte (''dorito:'' @ ''pw'')) = ''ZG9yaXRvOnB3''" by code_simp
  have l: "length ?r < 4096" by (simp add: auth_header_def b [simplified] crlf_def)
  have nul: "c_str (take 4096 ?r) = ?r"
    using l by (simp add: c_str_def auth_header_def b [simplified] crlf_def NUL_def)
  then have carried: "carries ?r (auth_header ''pw'')" unfolding carries_def nul by (metis append.assoc)
  have pw: "server_password demo_info = ''pw''" by (simp add: demo_info_def)
  obtain reply where reply: "info_reply demo_write demo_info ?r = Inr reply"
    using info_reply_total [OF l] by blast
  have s: "split_address ''example.org'' = Inr (''example.org'', 11775)" by (simp add: split_address_def)
  have f: "first_ipv4 [(True, 0x0200A8C0)] = byteswap_ulong 0x0200A8C0" by (simp add: first_ipv4_def)
  have nz: "byteswap_ulong 0x0200A8C0 \<noteq> 0" by (simp add: byteswap_ulong_def)
  have g: "getaddrinfo demo_client (c_str ''example.org'') = Inr [(True, 0x0200A8C0)]" by (simp add: demo_client_def)
  have send: "SendRequest demo_client (''http://'' @ ''example.org'' @ '':'' @ dec_int 11775 @ ''/'')
      (if ''pw'' = [] then [] else ''dorito'') ''pw'' = Inr reply"
    using reply by (simp add: demo_client_def)
  show ?thesis
    using password_admits_client [OF s g f nz l reply send demo_write_parse] carried
    by (simp add: pw) (simp add: demo_info_def demo_client_def NUL_def)
qed


text \<open>C20. What a reply shows without the password. The password of the host is not empty, and the request does not
  carry the line with it: then the reply says that there is a password, it has no identifiers of the session and
  no table of the players, and it is the same whatever these are, and whatever other password the request
  does not carry the host has. The name of the host player and the number of players do show.\<close>

theorem join_data_needs_password:
  assumes "server_password i \<noteq> []" "\<not> carries received (auth_header (server_password i))"
    and "password \<noteq> []" "\<not> carries received (auth_header password)"
    and "info_reply write i received = Inr reply"
  shows "info_reply write (i\<lparr>session_id := kid, session_address := addr, info_players := ps, server_password := password\<rparr>) received
      = Inr reply
    \<and> (\<exists>members. reply = (info_header i (snd reply), c_str (write (JObject members)))
        \<and> map_of members ''xnkid'' = None \<and> map_of members ''xnaddr'' = None \<and> map_of members ''players'' = None
        \<and> map_of members ''passworded'' = Some (JBool True)
        \<and> map_of members ''hostPlayer'' = Some (JString (c_str (host_player i)))
        \<and> map_of members ''numPlayers'' = Some (JInt (sint (num_players i))))"
proof -
  let ?j = "i\<lparr>session_id := kid, session_address := addr, info_players := ps, server_password := password\<rparr>"
  have same: "info_members ?j False = info_members i False"
    by (simp add: info_members_def join_members_def shown_game_def)
  have reply: "reply = (info_header i (snd reply), c_str (write (JObject (info_members i False))))"
    using assms by (auto simp: info_reply_def authenticated_cases rbind_Inr_iff Let_def split: if_splits)
  moreover have "info_reply write ?j received = Inr reply"
    using assms same by (simp add: info_reply_def authenticated_cases info_header_def Let_def split: if_splits)
  ultimately show ?thesis using info_members_lookup(4,5) [of i False] info_members_hidden [of i]
    by (auto simp: written_string_def written_int_def)
qed

theorem join_data_needs_password_witness:
  "\<exists>reply. info_reply demo_write demo_info ''GET /'' = Inr reply
    \<and> info_reply demo_write (demo_info\<lparr>session_id := [], session_address := [], info_players := [], server_password := ''other''\<rparr>) ''GET /''
      = Inr reply"
proof -
  have "c_str (take 4096 ''GET /'') = ''GET /''" by (simp add: c_str_def NUL_def)
  then have no: "\<not> carries ''GET /'' (auth_header p)" for p
    by (auto simp: carries_def auth_header_def dest!: arg_cong [where f = length])
  have pw: "server_password demo_info \<noteq> []" "''other'' \<noteq> []" by (simp_all add: demo_info_def)
  obtain reply where r: "info_reply demo_write demo_info ''GET /'' = Inr reply"
    using info_reply_total [of "''GET /''" demo_write demo_info] by auto
  from join_data_needs_password [OF pw(1) no pw(2) no r] r show ?thesis by blast
qed

text \<open>A query fails exactly when the host has a password and the request fills the buffer without a null byte:
  the buffer is then read past its end.\<close>

theorem full_request_is_overread:
  "networkWndProc write i shouldAnnounce now (SocketRead socket received) st = Inl e \<longleftrightarrow>
    e = Undefined \<and> server_password i \<noteq> [] \<and> 4096 \<le> length received \<and> NUL \<notin> set (take 4096 received)"
  by (auto simp: networkWndProc_def info_reply_def authenticated_cases Let_def split: prod.split)

subsection \<open>The port\<close>

text \<open>The loop from a port \<open>k\<close> steps above the configured one.\<close>

definition candidate :: "(u16 \<Rightarrow> bool) \<Rightarrow> u32 \<Rightarrow> u32 \<Rightarrow> bool" where
  "candidate binds gamePort p \<longleftrightarrow> p \<noteq> gamePort \<and> binds (ucast p)"

definition ports_from :: "u32 \<Rightarrow> nat \<Rightarrow> u32 list" where
  "ports_from p k = map (\<lambda>j. p + of_nat j) [k..<11]"

lemma unat_port_plus: "unat (p :: u32) < 2 ^ 16 \<Longrightarrow> k < 20 \<Longrightarrow> unat (p + of_nat k) = unat p + k"
  by (simp add: unat_word_ariths take_bit_nat_eq_self unat_of_nat)

lemma ports_from_step: "k < 11 \<Longrightarrow> ports_from p k = (p + of_nat k) # ports_from p (Suc k)"
  by (simp add: ports_from_def upt_rec)

lemma bind_loop_from:
  assumes "unat serverPort < 2 ^ 16" "k < 11" "serverPort + of_nat k \<noteq> gamePort"
  shows "bind_loop binds gamePort (serverPort + 10) (serverPort + of_nat k)
    = Some (find (candidate binds gamePort) (ports_from serverPort k))"
  using assms(2,3)
proof (induction "11 - k" arbitrary: k rule: less_induct)
  case less
  let ?p = "\<lambda>k. serverPort + of_nat k :: u32"
  have limit: "serverPort + 10 < ?p j \<longleftrightarrow> 10 < j" if "j < 20" for j
    using unat_port_plus [OF assms(1) that] unat_port_plus [OF assms(1), of 10] by (simp add: word_less_nat_alt)
  have step: "?p j + 1 = ?p (Suc j)" for j by (simp add: algebra_simps)
  have none: "ports_from serverPort j = []" if "10 < j" for j using that by (simp add: ports_from_def)
  note unfold = bind_loop.simps [of binds gamePort "serverPort + 10" "?p k"]
  show ?case
  proof (cases "binds (ucast (?p k))")
    case True
    then show ?thesis using less.prems by (simp add: unfold ports_from_step candidate_def)
  next
    case False
    define j where "j = (if ?p (Suc k) = gamePort then Suc (Suc k) else Suc k)"
    have p2: "(let p1 = ?p k + 1 in if p1 = gamePort then p1 + 1 else p1) = ?p j"
      by (simp only: Let_def j_def step if_distrib [of "\<lambda>j. serverPort + of_nat j"])
    have "?p (Suc k) \<noteq> ?p (Suc (Suc k))"
      using unat_port_plus [OF assms(1), of "Suc k"] unat_port_plus [OF assms(1), of "Suc (Suc k)"] less.prems(1) by force
    then have ng: "?p j \<noteq> gamePort" by (auto simp: j_def)
    have skip: "find (candidate binds gamePort) (ports_from serverPort k) = find (candidate binds gamePort) (ports_from serverPort j)"
      using less.prems False none [of "Suc (Suc k)"]
      by (cases "Suc k < 11") (auto simp: j_def ports_from_step candidate_def none)
    have "bind_loop binds gamePort (serverPort + 10) (?p k)
      = (if serverPort + 10 < ?p j then Some None else bind_loop binds gamePort (serverPort + 10) (?p j))"
      using False p2 by (simp add: unfold Let_def)
    also have "\<dots> = Some (find (candidate binds gamePort) (ports_from serverPort j))"
    proof (cases "10 < j")
      case True
      then show ?thesis using limit [of j] less.prems(1) by (simp add: none j_def split: if_splits)
    next
      case False
      then have "j < 11" "11 - j < 11 - k" using less.prems(1) by (auto simp: j_def)
      then show ?thesis using less.hyps [OF _ _ ng] limit [of j] False by simp
    qed
    finally show ?thesis by (simp add: skip)
  qed
qed


text \<open>Opening the socket tries the eleven ports from the configured one on: it returns, and listens on the
  first of them that is not the game's own port and can be bound; if there is none the socket stays closed.\<close>

theorem first_free_port_is_used:
  assumes "\<not> infoSocketOpen st" "has_window env" "unat (server_port env) < 2 ^ 16"
  shows "case find (\<lambda>p. p \<noteq> env_game_port env \<and> free_port env (ucast p)) (map (\<lambda>j. server_port env + of_nat j) [0..<11]) of
      None \<Rightarrow> StartInfoServer env st = Some (False, [StartedVote], st)
    | Some port \<Rightarrow> \<exists>es. StartInfoServer env st = Some (True, es, st\<lparr>infoSocketOpen := True\<rparr>)
        \<and> filter (\<lambda>e. \<exists>p. e = Listening p) es = [Listening port]"
proof -
  let ?g = "env_game_port env" and ?b = "free_port env" and ?p = "server_port env"
  have c: "(\<lambda>p. p \<noteq> ?g \<and> ?b (ucast p)) = candidate ?b ?g" by (simp add: candidate_def fun_eq_iff)
  have found: "find_port ?b ?g ?p = Some (find (candidate ?b ?g) (ports_from ?p 0))"
  proof (cases "?p = ?g")
    case True
    then have "?p + of_nat 1 \<noteq> ?g" by simp
    from bind_loop_from [OF assms(3) _ this, of ?b] True show ?thesis
      by (simp add: find_port_def ports_from_step [of 0] candidate_def)
  next
    case False
    then show ?thesis using bind_loop_from [OF assms(3), of 0 ?g ?b] by (simp add: find_port_def)
  qed
  show ?thesis
    unfolding c ports_from_def [symmetric, of ?p 0]
    using assms(1,2) by (auto simp: StartInfoServer_def found split: option.split)
qed

definition demo_listen :: ListenEnv where
  "demo_listen = \<lparr>has_window = True, free_port = (\<lambda>p. 11777 \<le> p), server_port = 11774, env_game_port = 11777, upnp_enabled = False\<rparr>"

theorem first_free_port_is_used_witness:
  "\<exists>es. StartInfoServer demo_listen \<lparr>infoSocketOpen = False, lastAnnounce = 0\<rparr>
      = Some (True, es, \<lparr>infoSocketOpen = True, lastAnnounce = 0\<rparr>)
    \<and> filter (\<lambda>e. \<exists>p. e = Listening p) es = [Listening 11778]"
proof -
  have "find (\<lambda>p. p \<noteq> env_game_port demo_listen \<and> free_port demo_listen (ucast p))
      (map (\<lambda>j. server_port demo_listen + of_nat j) [0..<11]) = Some 11778"
    by (simp add: demo_listen_def upt_rec)
  then show ?thesis
    using first_free_port_is_used [of "\<lparr>infoSocketOpen = False, lastAnnounce = 0\<rparr>" demo_listen]
    by (simp add: demo_listen_def)
qed

text \<open>The port is cut to 16 bits when it is bound: with the last port taken, port 0, which stands for any free
  one, is bound, and 65536 is stored.\<close>

lemma last_port_taken:
  assumes "\<not> binds 65535" "binds 0" "gamePort = 11774"
  shows "find_port binds gamePort 65535 = Some (Some 65536)"
proof -
  have "unat (65535 :: u32) < 2 ^ 16" "(65535 :: u32) + of_nat 0 \<noteq> gamePort" using assms(3) by simp_all
  note loop = bind_loop_from [OF this(1) _ this(2), of binds]
  have zero: "(65536 :: u16) = 0" by simp
  have "find (candidate binds gamePort) (ports_from 65535 0) = Some 65536"
    using assms by (simp add: ports_from_step [of 0] ports_from_step [of "Suc 0"] candidate_def zero)
  then show ?thesis using loop assms by (simp add: find_port_def)
qed

subsection \<open>Announcing\<close>

text \<open>The times of the announcements while messages arrive at the given times.\<close>

fun announcements :: "bool \<Rightarrow> int list \<Rightarrow> NetState \<Rightarrow> int list" where
  "announcements shouldAnnounce [] st = []"
| "announcements shouldAnnounce (now # later) st =
     (let (es, st') = announce_if_due shouldAnnounce now st in
      (if es = [] then [] else [now]) @ announcements shouldAnnounce later st')"

lemma announcements_after:
  "infoSocketOpen st \<Longrightarrow> \<forall>t \<in> set ts. lastAnnounce st \<le> t \<Longrightarrow> sorted ts \<Longrightarrow>
    sorted_wrt (\<lambda>a b. serverContactTimeLimit < b - a) (lastAnnounce st # announcements True ts st)
    \<and> (\<forall>t \<in> set ts. \<exists>a \<in> set (lastAnnounce st # announcements True ts st). a \<le> t \<and> t - a \<le> serverContactTimeLimit)"
proof (induction ts arbitrary: st)
  case (Cons t ts)
  show ?case
  proof (cases "serverContactTimeLimit < t - lastAnnounce st")
    case True
    have "0 \<le> serverContactTimeLimit" by (simp add: serverContactTimeLimit_def)
    moreover have "sorted_wrt (\<lambda>a b. serverContactTimeLimit < b - a) (t # announcements True ts (st\<lparr>lastAnnounce := t\<rparr>))
      \<and> (\<forall>u \<in> set ts. \<exists>a \<in> set (t # announcements True ts (st\<lparr>lastAnnounce := t\<rparr>)). a \<le> u \<and> u - a \<le> serverContactTimeLimit)"
      using Cons.IH [of "st\<lparr>lastAnnounce := t\<rparr>"] Cons.prems by auto
    ultimately show ?thesis using True Cons.prems(1) by (fastforce simp: announce_if_due_def)
  next
    case False
    have "sorted_wrt (\<lambda>a b. serverContactTimeLimit < b - a) (lastAnnounce st # announcements True ts st)
      \<and> (\<forall>u \<in> set ts. \<exists>a \<in> set (lastAnnounce st # announcements True ts st). a \<le> u \<and> u - a \<le> serverContactTimeLimit)"
      using Cons.IH [of st] Cons.prems by auto
    then show ?thesis using False Cons.prems by (auto simp: announce_if_due_def not_less)
  qed
qed simp

text \<open>While the socket is open, the host announces itself at least every 150 seconds, as far as messages
  arrive, and never twice within 150 seconds.\<close>

theorem announced_regularly:
  assumes "infoSocketOpen st" "sorted moments" "\<forall>t \<in> set moments. lastAnnounce st \<le> t"
  shows "sorted_wrt (\<lambda>a b. 150 < b - a) (announcements True moments st)
    \<and> (\<forall>t \<in> set moments. \<exists>a \<in> insert (lastAnnounce st) (set (announcements True moments st)). a \<le> t \<and> t - a \<le> 150)"
  using announcements_after [OF assms(1,3,2)] by (simp add: serverContactTimeLimit_def)

theorem announced_regularly_witness:
  "sorted_wrt (\<lambda>a b. 150 < b - a) (announcements True [1000, 1100, 1151, 1400] \<lparr>infoSocketOpen = True, lastAnnounce = 0\<rparr>)"
  using announced_regularly [of "\<lparr>infoSocketOpen = True, lastAnnounce = 0\<rparr>" "[1000, 1100, 1151, 1400]"] by simp

end
