(* ===== verification/MasterServers.thy ===== *)
theory MasterServers
  imports Connect
begin

text \<open>
  The master servers of \<open>Modules/ModuleServer.cpp\<close>: their addresses in \<open>dewrito.json\<close>, and the two threads
  that announce a host to them and take the announcement back. The file, the HTTP library and the
  JSON parser are parameters.
\<close>

datatype HttpAnswer =
    HttpFailed u32 u32
  | HttpThrew
  | HttpAnswered string string

record MasterEnv =
  dewrito_json :: "string option"
  parse_json_text :: "string \<Rightarrow> Json option"
  http_get :: "string \<Rightarrow> HttpAnswer"

definition endpoint_of :: "string \<Rightarrow> Json \<Rightarrow> string res" where
  "endpoint_of endpointType server = rbind (json_member server endpointType) (\<lambda>m.
     case m of None \<Rightarrow> Inl Undefined | Some v \<Rightarrow> json_string v)"

fun endpoints_of :: "string \<Rightarrow> Json list \<Rightarrow> string list res" where
  "endpoints_of endpointType [] = Inr []"
| "endpoints_of endpointType (server # servers) =
     rbind (endpoint_of endpointType server) (\<lambda>e. rbind (endpoints_of endpointType servers) (\<lambda>es. Inr (e # es)))"

definition GetEndpoints :: "MasterEnv \<Rightarrow> string \<Rightarrow> string list res" where
  "GetEndpoints env endpointType = (case dewrito_json env of
     None \<Rightarrow> Inr []
   | Some contents \<Rightarrow> (case parse_json_text env (c_str contents) of
       Some (JObject json) \<Rightarrow> (case map_of json ''masterServers'' of
           None \<Rightarrow> Inr []
         | Some masters \<Rightarrow> rbind (json_items masters) (endpoints_of endpointType))
     | _ \<Rightarrow> Inr []))"

definition two_lines :: string where "two_lines = [CHR 0x0A, CHR 0x0A]"

text \<open>The numbers of a result object; an accessor applied to a missing member is undefined.\<close>

definition result_member :: "Json \<Rightarrow> string \<Rightarrow> Json res" where
  "result_member result key = rbind (json_member result key) (\<lambda>m. case m of None \<Rightarrow> Inl Undefined | Some v \<Rightarrow> Inr v)"

definition read_result :: "string \<Rightarrow> Json \<Rightarrow> string res" where
  "read_result server result =
     rbind (rbind (result_member result ''code'') json_int) (\<lambda>code.
       if code = 0 then Inr ''''
       else rbind (rbind (result_member result ''msg'') json_string) (\<lambda>msg.
         Inr (''Master server '' @ server @ '' returned error code '' @ dec_int code @ '' ('' @ msg @ '')'' @ two_lines)))"

text \<open>One server: the text that is added to the log. \<open>verb\<close> is \<open>announce\<close> or \<open>unannounce\<close>.\<close>

definition read_answer :: "MasterEnv \<Rightarrow> string \<Rightarrow> string \<Rightarrow> HttpAnswer \<Rightarrow> string res" where
  "read_answer env verb server answer = (case answer of
     HttpFailed lastError code \<Rightarrow> Inr (''Unable to connect to master server '' @ server @ '' (error: ''
       @ dec_int (sint lastError) @ ''/'' @ to_string32 code @ '')'' @ two_lines)
   | HttpThrew \<Rightarrow> Inr (''Exception during master server '' @ verb @ '' request to '' @ server @ two_lines)
   | HttpAnswered header body \<Rightarrow>
       if length header < length expected_header \<or> take (length expected_header) header \<noteq> expected_header
       then Inr (''Invalid master server '' @ verb @ '' response from '' @ server @ two_lines)
       else (case parse_json_text env (c_str body) of
           Some (JObject json) \<Rightarrow> (case map_of json ''result'' of
               None \<Rightarrow> Inr (''Master server JSON response from '' @ server @ '' is missing data.'' @ two_lines)
             | Some result \<Rightarrow> read_result server result)
         | _ \<Rightarrow> Inr (''Invalid master server JSON response from '' @ server @ two_lines)))"

definition announce_url :: "string \<Rightarrow> bool \<Rightarrow> string \<Rightarrow> string" where
  "announce_url port shutdown server = server @ ''?port='' @ port @ (if shutdown then ''&shutdown=true'' else '''')"

fun announce_to :: "MasterEnv \<Rightarrow> string \<Rightarrow> bool \<Rightarrow> string list \<Rightarrow> (string list \<times> string) res" where
  "announce_to env port shutdown [] = Inr ([], '''')"
| "announce_to env port shutdown (server # servers) =
     (let url = announce_url port shutdown server in
      rbind (read_answer env (if shutdown then ''unannounce'' else ''announce'') server (http_get env url)) (\<lambda>logged.
      rbind (announce_to env port shutdown servers) (\<lambda>(urls, rest). Inr (url # urls, logged @ rest))))"

text \<open>The two threads: the addresses asked for, and the line for the log, if any. Both read the endpoints of
  the kind \<open>announce\<close>.\<close>

definition announce_thread :: "MasterEnv \<Rightarrow> string \<Rightarrow> bool \<Rightarrow> (string list \<times> string option) res" where
  "announce_thread env port shutdown =
     rbind (GetEndpoints env ''announce'') (\<lambda>servers.
     rbind (announce_to env port shutdown servers) (\<lambda>(urls, errors).
       Inr (urls, if 0 < length errors then Some ((if shutdown then ''Unannounce: '' else ''Announce: '') @ errors) else None)))"

definition CommandServerAnnounce :: "bool \<Rightarrow> bool \<Rightarrow> bool \<times> string \<times> bool" where
  "CommandServerAnnounce socketOpen shutdown =
     (if \<not> socketOpen then (False, '''', False)
      else (True, (if shutdown then ''Unannouncing to master servers...'' else ''Announcing to master servers...''), True))"

definition VariableServerShouldAnnounceUpdate :: "u32 \<Rightarrow> bool \<Rightarrow> bool \<times> bool" where
  "VariableServerShouldAnnounceUpdate value socketOpen =
     (True, if value = 0 then snd (snd (CommandServerAnnounce socketOpen True)) else False)"

subsection \<open>Answers\<close>

text \<open>An answer the threads can read: any failure, or a result object with an integer code and, unless the
  code is 0, a text.\<close>

definition readable :: "MasterEnv \<Rightarrow> HttpAnswer \<Rightarrow> bool" where
  "readable env answer \<longleftrightarrow> is_ok (read_answer env '''' '''' answer)"

lemma read_answer_readable: "is_ok (read_answer env verb server answer) \<longleftrightarrow> readable env answer"
  by (auto simp: readable_def read_answer_def read_result_def rbind_def split: HttpAnswer.split option.split Json.split sum.split)

lemma read_answer_fails: "read_answer env verb server answer = Inl e \<Longrightarrow> e = Undefined"
  by (auto simp: read_answer_def read_result_def result_member_def json_member_def json_int_def json_string_def rbind_def
      split: HttpAnswer.splits option.splits Json.splits sum.splits if_splits)

text \<open>Every server is asked once, in the order of the file, whatever the others answer, unless an answer cannot be
  read: then the thread runs into undefined behaviour.\<close>

lemma announce_to_all:
  "announce_to env port shutdown servers =
    (if \<forall>server \<in> set servers. readable env (http_get env (announce_url port shutdown server))
     then Inr (map (announce_url port shutdown) servers,
       concat (map (\<lambda>server. case read_answer env (if shutdown then ''unannounce'' else ''announce'') server
           (http_get env (announce_url port shutdown server)) of Inr logged \<Rightarrow> logged | Inl _ \<Rightarrow> '''') servers))
     else Inl Undefined)"
proof (induction servers)
  case (Cons server servers)
  let ?verb = "if shutdown then ''unannounce'' else ''announce''"
  let ?answer = "http_get env (announce_url port shutdown server)"
  show ?case
  proof (cases "read_answer env ?verb server ?answer")
    case (Inl e)
    then have "e = Undefined" "\<not> readable env ?answer"
      using read_answer_fails read_answer_readable [of env ?verb server ?answer] by auto
    then show ?thesis by (simp add: Inl Let_def)
  next
    case (Inr logged)
    then have "readable env ?answer" using read_answer_readable [of env ?verb server ?answer] by simp
    then show ?thesis by (simp add: Inr Let_def Cons.IH)
  qed
qed simp

text \<open>Announcing is all or nothing: if every master server gives an answer the thread can read (failures to connect
  are among them), each one of the file is asked exactly once, in the order of the file; a single answer
  without a numeric code makes the thread run into undefined behaviour.\<close>

theorem every_master_is_asked:
  assumes "GetEndpoints env ''announce'' = Inr servers"
  shows "if \<forall>server \<in> set servers. readable env (http_get env (announce_url port shutdown server))
    then \<exists>line. announce_thread env port shutdown = Inr (map (announce_url port shutdown) servers, line)
    else announce_thread env port shutdown = Inl Undefined"
  using assms by (auto simp: announce_thread_def announce_to_all)

definition demo_masters :: MasterEnv where
  "demo_masters = \<lparr>dewrito_json = Some ''{}'',
     parse_json_text = (\<lambda>t. Some (JObject (if t = ''{}'' then [(''masterServers'', JArray [JObject [(''announce'', JString ''http://a'')]])]
       else [(''result'', JObject [(''code'', JInt 0)])]))),
     http_get = (\<lambda>_. HttpAnswered ''HTTP/1.1 200 OK'' ''ok'')\<rparr>"

theorem every_master_is_asked_witness:
  "\<exists>line. announce_thread demo_masters ''11775'' False = Inr ([''http://a?port=11775''], line)"
proof -
  have e: "GetEndpoints demo_masters ''announce'' = Inr [''http://a'']" by code_simp
  have "readable demo_masters (http_get demo_masters (announce_url ''11775'' False ''http://a''))" by code_simp
  then show ?thesis using every_master_is_asked [OF e, of "''11775''" False] by (simp add: announce_url_def)
qed

end
