(* ===== verification/Spec2Isabelle.thy ===== *)
theory Spec2Isabelle
  imports CommandMap ChatCommands PlayerUpdates Connect SyncProtocol Rcon KeyCommands InputContext SchemeHandler InfoServer MasterServers
begin

text \<open>
  ElDorito is a library that is loaded into the process of a game and takes over parts of it. This
  development models the logic of its own, the code under \<open>src/ElDorito/Source\<close>, and leaves the engine
  it is injected into as a parameter. File names below are relative to that directory.

  \<^bold>\<open>The parts and how they interact.\<close> Everything a player, a server administrator or a configuration
  file tells the program goes through one registry of console commands and variables, the command map
  (\<open>CommandMap.cpp\<close>, filled by the modules of \<open>Modules/\<close>). Lines reach it from the configuration file
  (\<open>ExecuteCommands\<close>), from key bindings, from the remote console (\<open>Server/Rcon.cpp\<close>), from passed votes
  (\<open>ChatCommands/ChatCommand.cpp\<close>, \<open>Server/VotingSystem.cpp\<close>), and its variables are mirrored on the clients
  by \<open>Server/VariableSynchronization.cpp\<close>. Everything host and clients say to each other beyond the
  engine's own packets goes through custom packets (\<open>Patches/CustomPackets.cpp\<close>) which are written and
  read with bit streams (\<open>Blam/BitStream.hpp\<close>): chat, voting messages and variable updates. The host
  refuses joins with the ban lists (\<open>Server/BanList.cpp\<close>), and takes names and customization out of
  the player properties packet (\<open>Patches/Network.cpp\<close>, \<open>Patches/PlayerPropertiesExtension.cpp\<close>).

  \<^bold>\<open>Conventions.\<close> A structure is a record, an enumeration a datatype (or a word, where raw values
  arrive from outside), an integer of \<open>w\<close> bits a word. A routine that reads or writes the globals of
  its file takes them as a record and returns it updated. \<open>'a res\<close> (\<open>Prelude\<close>) is the result of a routine
  that can raise: the C++ exceptions the code throws or lets through, and \<open>Undefined\<close> where it runs
  into undefined behaviour. Calls that leave the program (sending, logging, running a console
  command) are recorded in the order they happen, as a list of effects in the result or the state.
  A loop without a bound of its own is a \<open>partial_function (option)\<close>; that it returns, or does not,
  is proved (\<open>draw_ends_at_first_new_option\<close>, \<open>vote_start_diverges\<close>, \<open>ReplaceString_spec\<close>). There is no fuel.

  \<^bold>\<open>Theories.\<close>

  \<^item> \<open>Prelude\<close>, \<open>StdNum\<close>, \<open>Json\<close>: words, faults, C strings and the list lemmas; \<open>std::stoul\<close>, \<open>std::stoull\<close>,
    \<open>std::stoi\<close>, \<open>std::to_string\<close> and the order of 32-bit floats; the values a JSON document can hold.
    \<open>Registry\<close> is the locale of a registry (what a lookup finds after an addition); the command map,
    the packet types and the variable bindings each interpret it.
  \<^item> \<open>Strings\<close> (\<open>Utils/String.cpp\<close>, \<open>String.hpp\<close>), \<open>Crypto\<close> (the parts of \<open>Utils/Cryptography.cpp\<close> that are not calls of
    OpenSSL), \<open>NameTable\<close> (\<open>Utils/NameValueTable.hpp\<close>).
  \<^item> \<open>CommandMap\<close> (\<open>CommandMap.cpp\<close>, \<open>Modules/ModuleBase.cpp\<close>): registration and lookup, the splitting of
    command lines, the setting of variables with ranges and update events, the queue, the help text
    and the saving of variables. The locale \<open>execution_invariant\<close> lifts a law of single assignments
    and handlers to whole scripts; it is interpreted for well-formedness, for internal variables
    and for the state a remote console connection can reach. The lemmas show that execution keeps every variable in
    range, restores the state on a rejected change, never writes outside the splitter's buffers,
    and reads back what it quotes.
  \<^item> \<open>BitStream\<close>, \<open>CustomPackets\<close>, \<open>Session\<close>: \<open>Blam/BitStream.hpp\<close>, \<open>Utils/Bits.hpp\<close>, \<open>Patches/CustomPackets.cpp\<close>,
    \<open>Blam/BlamNetwork.cpp\<close>. The engine's reads and writes of single numbers are the parameters of
    \<open>StreamOps\<close> with the laws \<open>stream_laws\<close> (what was written is read back, a read past the end is
    zero), which an instance over lists of bits satisfies. Round trips are composed from the field up.
  \<^item> \<open>ServerChat\<close> (\<open>Server/ServerChat.cpp\<close>): the routing of messages and the flood filter, whose arithmetic of
    elapsed time is shown not to depend on how ticks cut it.
  \<^item> \<open>VotingPackets\<close>, \<open>Voting\<close> (\<open>Server/VotingPackets.cpp\<close>, \<open>VotingSystem.cpp\<close>): the map vote as a step relation
    on the state of the voting system, with the invariants of its reachable states.
  \<^item> \<open>BanList\<close>, \<open>ServerCommands\<close>, \<open>ChatCommands\<close> (\<open>Server/BanList.cpp\<close>, \<open>Modules/ModuleServer.cpp\<close>,
    \<open>ChatCommands/\<close>): bans with their file format, kicking and banning, and the votes players start by
    typing; \<open>passed_kick_vote_removes_player\<close> goes through all of them and the command-line splitter.
    The two stores of bans refine one abstract rule of who is barred, over any sequence of bans,
    unbans and finished games (\<open>banned_address_is_refused\<close>).
  \<^item> \<open>PlayerNames\<close>, \<open>PlayerProperties\<close>, \<open>PlayerUpdates\<close>: names, the extension packet and the host's side of it.
  \<^item> \<open>VarSync\<close>, \<open>SyncProtocol\<close>: the bindings of variables, the host's tick and the client's handler, and
    the refinement that a tick brings a client's copy to the host's values.
  \<^item> \<open>Rcon\<close>: the connections of the remote console as a run of events.
  \<^item> \<open>Connect\<close>: \<open>Server.Connect\<close>.
  \<^item> \<open>InputTables\<close>, \<open>InputBindings\<close>, \<open>BindingsFile\<close> (\<open>Modules/ModuleInput.cpp\<close>, the key-binding hooks of
    \<open>Patches/Input.cpp\<close>): the codes of keys, buttons and actions with their names, the table of bindings,
    the commands and the settings menu that change it, and the text it is saved as, which reads back.
  \<^item> \<open>KeyCommands\<close>: commands bound to keys, driven by a sequence of readings of the key.
  \<^item> \<open>InputContext\<close> (\<open>Patches/Input.cpp\<close>, \<open>Web/Ui/ScreenLayer.cpp\<close>): the stack of contexts that take the
    game's input away and give it back.
  \<^item> \<open>SchemeHandler\<close> (\<open>Web/WebRendererSchemeHandler.cpp\<close>): the files served to the pages of the overlay, their
    cache and their delivery in pieces.
  \<^item> \<open>InfoServer\<close>, \<open>MasterServers\<close> (\<open>Patches/Network.cpp\<close>, \<open>Modules/ModuleServer.cpp\<close>): the information server
    of a host, what it tells with and without the password, and the announcements to master servers.

  \<^bold>\<open>Not modelled.\<close> The patches that only rewrite machine code or call the engine at fixed addresses,
  the structures of the engine that carry no code (\<open>Blam/Tags\<close>, \<open>Blam/Math\<close>), the modules whose commands
  only poke engine memory (camera, graphics, forge), the web overlay (browser windows and
  JavaScript) apart from its page server and its capture of input, file dialogs, and the
  third-party code under \<open>ThirdParty\<close> and \<open>libs\<close>. \<open>PROJECT.json\<close> lists each of them with its reason.
\<close>

end
